(* ===== verification/Prelude.thy ===== *)
theory Prelude
  imports Main "HOL-Library.Word" "HOL-Library.AList" "HOL-Library.Char_ord"
    "HOL-Library.List_Lexorder"
begin

text \<open>
  The prelude of the development: the types every component shares (instants, bytes, Go
  maps), the generic lemmas on lists, association lists and words, decimal numbers, the
  reachable states of a step relation, and the interface every stateful component implements:
  an invariant system (\<open>inv_system\<close>).
\<close>

section \<open>Shared types\<close>

text \<open>
  An instant is a number of nanoseconds since Go's zero \<open>time.Time\<close>, so \<open>IsZero\<close> is
  equality with 0, \<open>Before\<close> is \<open><\<close>, \<open>After\<close> is \<open>>\<close> and \<open>Add\<close> is \<open>+\<close>. A duration is
  a number of nanoseconds. Both are unbounded here: Go's representation holds every instant
  a gateway can meet.
\<close>

type_synonym instant = int
type_synonym duration = int

abbreviation second :: duration where "second \<equiv> 1000000000"
abbreviation minute :: duration where "minute \<equiv> 60 * second"
abbreviation hour :: duration where "hour \<equiv> 60 * minute"

definition isZero :: "instant \<Rightarrow> bool" where
  "isZero t \<longleftrightarrow> t = 0"

type_synonym byte = "8 word"

definition bytes_of :: "string \<Rightarrow> byte list" where
  "bytes_of s = map of_char s"

definition string_of :: "byte list \<Rightarrow> string" where
  "string_of bs = map (\<lambda>b. char_of (unat b)) bs"

lemma byte_char: "char_of (unat (of_char c :: byte)) = c" "of_char (char_of (unat b)) = (b :: byte)"
proof -
  have "unat (of_nat (of_char c) :: byte) = of_char c"
    by (simp add: unat_of_nat take_bit_nat_def)
  then show "char_of (unat (of_char c :: byte)) = c" by (metis of_nat_of_char char_of_char)
  have "unat b < 256" using unsigned_less [of b, where ?'a = nat] by simp
  then have "of_char (char_of (unat b)) = unat b" by simp
  moreover have "of_nat (unat b) = b" by simp
  ultimately show "of_char (char_of (unat b)) = b" by (metis of_nat_of_char)
qed

lemma string_of_bytes_of [simp]: "string_of (bytes_of s) = s"
  by (simp add: string_of_def bytes_of_def comp_def byte_char)

lemma bytes_of_string_of [simp]: "bytes_of (string_of bs) = bs"
  by (simp add: string_of_def bytes_of_def comp_def byte_char)

lemma length_bytes_of [simp]: "length (bytes_of s) = length s" "length (string_of bs) = length bs"
  by (simp_all add: bytes_of_def string_of_def)

text \<open>
  A Go map is a list of key/value pairs with distinct keys. The order of the list stands
  for the iteration order, which Go leaves unspecified: theorems quantify over the list and
  so over every order. Writing keeps the position of a key that is present; deleting keeps
  the order of the rest.
\<close>

type_synonym ('k, 'v) gomap = "('k \<times> 'v) list"

abbreviation gm_get :: "('k, 'v) gomap \<Rightarrow> 'k \<Rightarrow> 'v option" where
  "gm_get \<equiv> map_of"

abbreviation gm_put :: "'k \<Rightarrow> 'v \<Rightarrow> ('k, 'v) gomap \<Rightarrow> ('k, 'v) gomap" where
  "gm_put \<equiv> AList.update"

abbreviation gm_del :: "'k \<Rightarrow> ('k, 'v) gomap \<Rightarrow> ('k, 'v) gomap" where
  "gm_del \<equiv> AList.delete"

definition gm_wf :: "('k, 'v) gomap \<Rightarrow> bool" where
  "gm_wf m \<longleftrightarrow> distinct (map fst m)"

lemma gm_wf_Nil [simp]: "gm_wf []"
  by (simp add: gm_wf_def)

lemma gm_wf_put [simp]: "gm_wf m \<Longrightarrow> gm_wf (gm_put k v m)"
  by (simp add: gm_wf_def distinct_update)

lemma gm_wf_del [simp]: "gm_wf m \<Longrightarrow> gm_wf (gm_del k m)"
  by (simp add: gm_wf_def distinct_delete)

lemma gm_wf_filter [simp]: "gm_wf m \<Longrightarrow> gm_wf (filter P m)"
  by (auto simp: gm_wf_def distinct_map_filter)

lemma gm_get_put [simp]: "gm_get (gm_put k v m) k' = (if k' = k then Some v else gm_get m k')"
  by (simp add: update_conv')

lemma gm_get_del [simp]: "gm_get (gm_del k m) k' = (if k' = k then None else gm_get m k')"
  by (simp add: delete_conv')

lemma gm_get_iff: "gm_wf m \<Longrightarrow> gm_get m k = Some v \<longleftrightarrow> (k, v) \<in> set m"
  by (simp add: gm_wf_def map_of_eq_Some_iff)

lemma gm_get_filter:
  "gm_wf m \<Longrightarrow> gm_get (filter P m) k = Some v \<longleftrightarrow> gm_get m k = Some v \<and> P (k, v)"
  using gm_get_iff [of m k v] gm_get_iff [of "filter P m" k v] by auto

lemma gm_del_id: "gm_get m k = None \<Longrightarrow> gm_del k m = m"
  by (simp add: AList.delete_eq filter_id_conv map_of_eq_None_iff)
    (metis (mono_tags, lifting) fst_conv image_eqI case_prod_beta)

lemma distinct_map_sort: "distinct (map f (sort_key k xs)) = distinct (map f xs)"
  by (simp add: distinct_map)

lemma gm_put_mem: "x \<in> set (gm_put k v m) \<Longrightarrow> gm_wf m \<Longrightarrow> x = (k, v) \<or> x \<in> set m"
  by (metis gm_get_iff gm_get_put gm_wf_put option.inject surj_pair)

lemma gm_put_fresh: "gm_get m k = None \<Longrightarrow> gm_put k v m = m @ [(k, v)]"
  by (induction m) (auto split: if_splits)

text \<open>
  A counter map read the way Go reads it, an absent key being 0, and the two updates
  \<open>m[k]++\<close> and "delete at 1, else store n - 1".
\<close>

definition gm_count :: "('k, int) gomap \<Rightarrow> 'k \<Rightarrow> int" where
  "gm_count m k = (case gm_get m k of None \<Rightarrow> 0 | Some n \<Rightarrow> n)"

definition gm_incr :: "'k \<Rightarrow> ('k, int) gomap \<Rightarrow> ('k, int) gomap" where
  "gm_incr k m = gm_put k (gm_count m k + 1) m"

definition gm_decr :: "'k \<Rightarrow> ('k, int) gomap \<Rightarrow> ('k, int) gomap" where
  "gm_decr k m = (if gm_count m k \<le> 1 then gm_del k m else gm_put k (gm_count m k - 1) m)"

text \<open>
  \<open>gm_counts m f\<close>: the counter map holds exactly the positive values of \<open>f\<close>, and an absent
  key is a zero.
\<close>

definition gm_counts :: "('k, int) gomap \<Rightarrow> ('k \<Rightarrow> nat) \<Rightarrow> bool" where
  "gm_counts m f \<longleftrightarrow> gm_wf m \<and> (\<forall>k. gm_get m k = (if f k = 0 then None else Some (int (f k))))"

lemma gm_counts_count: "gm_counts m f \<Longrightarrow> gm_count m k = int (f k)"
  by (simp add: gm_counts_def gm_count_def)

lemma gm_counts_Nil [simp]: "gm_counts [] (\<lambda>k. 0)"
  by (simp add: gm_counts_def)

lemma gm_counts_incr: "gm_counts m f \<Longrightarrow> gm_counts (gm_incr k m) (f(k := Suc (f k)))"
  by (auto simp: gm_counts_def gm_incr_def gm_count_def)

lemma gm_counts_decr: "gm_counts m f \<Longrightarrow> gm_counts (gm_decr k m) (f(k := f k - Suc 0))"
  by (auto simp: gm_counts_def gm_decr_def gm_count_def of_nat_diff split: if_splits)

lemma word_less_inc: "w \<noteq> - 1 \<Longrightarrow> w < w + (1 :: 'a::len word)"
  by (metis inc_less_eq_self_iff_eq not_less)

lemma word_inc_pos: "w \<noteq> - 1 \<Longrightarrow> 0 < w + (1 :: 'a::len word)"
  using word_less_inc [of w] word_zero_le [of w] by (rule order_le_less_trans [rotated])

section \<open>Strings\<close>

text \<open>
  \<open>strings.Split\<close> on a one-byte separator. A Go string is a sequence of bytes, and a HOL
  character is a byte.
\<close>

fun split_char :: "'a \<Rightarrow> 'a list \<Rightarrow> 'a list list" where
  "split_char c [] = [[]]"
| "split_char c (x # xs) = (if x = c then [] # split_char c xs
     else case split_char c xs of [] \<Rightarrow> [[x]] | p # ps \<Rightarrow> (x # p) # ps)"

lemma split_char_nonempty [simp]: "split_char c s \<noteq> []"
  by (induction s) (auto split: list.splits)

lemma split_char_none: "c \<notin> set s \<Longrightarrow> split_char c s = [s]"
  by (induction s) auto

lemma split_char_append:
  "c \<notin> set p \<Longrightarrow> split_char c (p @ c # s) = p # split_char c s"
  by (induction p) auto

lemma split_char_parts: "p \<in> set (split_char c s) \<Longrightarrow> c \<notin> set p"
  by (induction s arbitrary: p) (auto split: if_splits list.splits)

lemma split_char_length: "length (split_char c s) = Suc (count_list s c)"
  by (induction s) (auto split: list.splits)

lemma split_char_two:
  "split_char c s = [p, q] \<Longrightarrow> s = p @ c # q \<and> c \<notin> set p \<and> c \<notin> set q"
proof (induction s arbitrary: p)
  case (Cons x s)
  show ?case
  proof (cases "x = c")
    case True
    with Cons.prems have "p = []" "split_char c s = [q]" by simp_all
    moreover have "s = q \<and> c \<notin> set q"
      using split_char_length [of c s] split_char_none [of c s] \<open>split_char c s = [q]\<close>
      by (auto simp: count_list_0_iff)
    ultimately show ?thesis using True by simp
  next
    case False
    with Cons.prems obtain p' where "split_char c s = [p', q]" "p = x # p'"
      by (auto split: list.splits)
    with Cons.IH [of p'] False show ?thesis by simp
  qed
qed simp

lemma split_char_one: "split_char c s = [p] \<Longrightarrow> s = p \<and> c \<notin> set p"
  using split_char_length [of c s] split_char_none [of c s] by (auto simp: count_list_0_iff)

section \<open>Decimal numbers\<close>

text \<open>\<open>strconv.FormatUint(n, 10)\<close> and \<open>strconv.ParseUint(s, 10, 64)\<close>.\<close>

definition digit_char :: "nat \<Rightarrow> char" where
  "digit_char n = char_of (48 + n)"

definition is_digit :: "char \<Rightarrow> bool" where
  "is_digit c \<longleftrightarrow> CHR ''0'' \<le> c \<and> c \<le> CHR ''9''"

definition digit_val :: "char \<Rightarrow> nat" where
  "digit_val c = of_char c - 48"

fun FormatUint :: "nat \<Rightarrow> string" where
  "FormatUint n = (if n < 10 then [digit_char n] else FormatUint (n div 10) @ [digit_char (n mod 10)])"

declare FormatUint.simps [simp del]

definition digits_value :: "string \<Rightarrow> nat" where
  "digits_value s = foldl (\<lambda>a c. 10 * a + digit_val c) 0 s"

definition ParseUint64 :: "string \<Rightarrow> nat option" where
  "ParseUint64 s = (if s = '''' \<or> \<not> list_all is_digit s \<or> 2 ^ 64 \<le> digits_value s then None
     else Some (digits_value s))"

lemma digit_char_ok:
  "n < 10 \<Longrightarrow> is_digit (digit_char n) \<and> digit_val (digit_char n) = n"
  by (simp add: is_digit_def digit_char_def digit_val_def less_eq_char_def of_char_of take_bit_nat_def)

lemma FormatUint_nonempty [simp]: "FormatUint n \<noteq> ''''"
  by (subst FormatUint.simps) simp

lemma FormatUint_digits: "list_all is_digit (FormatUint n) \<and> digits_value (FormatUint n) = n"
proof (induction n rule: FormatUint.induct)
  case (1 n)
  then show ?case
    by (subst (1 2) FormatUint.simps) (auto simp: digits_value_def digit_char_ok)
qed

lemma ParseUint64_FormatUint: "n < 2 ^ 64 \<Longrightarrow> ParseUint64 (FormatUint n) = Some n"
  by (simp add: ParseUint64_def FormatUint_digits)

section \<open>Reachable states and the invariant interface\<close>

text \<open>
  A component with state is a predicate for its initial states and a relation for its
  steps. \<open>reachable\<close> is the least set that holds the initial states and is closed under
  steps; \<open>inv_system\<close> is the contract "holds initially, kept by every step", and its
  lemma is the one place where the induction over runs is made.
\<close>

inductive reachable :: "('s \<Rightarrow> bool) \<Rightarrow> ('s \<Rightarrow> 's \<Rightarrow> bool) \<Rightarrow> 's \<Rightarrow> bool"
  for init :: "'s \<Rightarrow> bool" and step :: "'s \<Rightarrow> 's \<Rightarrow> bool" where
  reach_init: "init s \<Longrightarrow> reachable init step s"
| reach_step: "reachable init step s \<Longrightarrow> step s t \<Longrightarrow> reachable init step t"

locale inv_system =
  fixes init :: "'s \<Rightarrow> bool" and step :: "'s \<Rightarrow> 's \<Rightarrow> bool" and inv :: "'s \<Rightarrow> bool"
  assumes init_inv: "init s \<Longrightarrow> inv s"
    and step_inv: "inv s \<Longrightarrow> step s t \<Longrightarrow> inv t"
begin

lemma reachable_inv: "reachable init step s \<Longrightarrow> inv s"
  by (induction rule: reachable.induct) (auto intro: init_inv step_inv)

lemma steps_inv: "step\<^sup>*\<^sup>* s t \<Longrightarrow> inv s \<Longrightarrow> inv t"
  by (induction rule: rtranclp_induct) (auto intro: step_inv)

end

end
