(* ===== verification/Encoding.thy ===== *)
theory Encoding
  imports Prelude "HOL-Library.Monad_Syntax"
begin

text \<open>
  The encodings of the Go standard library the gateway relies on, written out so that nothing
  about them is assumed: big-endian integers, \<open>encoding/hex\<close>, \<open>encoding/base64\<close>
  (\<open>RawStdEncoding\<close>), \<open>crypto/sha256\<close>; and the interface of a wire codec, which the payload
  and SFTP components implement.
\<close>

unbundle bit_operations_syntax

section \<open>Big-endian integers\<close>

definition be_get32 :: "byte \<Rightarrow> byte \<Rightarrow> byte \<Rightarrow> byte \<Rightarrow> 32 word" where
  "be_get32 a b c d =
     ucast d OR push_bit 8 (ucast c) OR push_bit 16 (ucast b) OR push_bit 24 (ucast a)"

definition be_put32 :: "32 word \<Rightarrow> byte list" where
  "be_put32 v = [ucast (drop_bit 24 v), ucast (drop_bit 16 v), ucast (drop_bit 8 v), ucast v]"

definition be_put64 :: "64 word \<Rightarrow> byte list" where
  "be_put64 v = be_put32 (ucast (drop_bit 32 v)) @ be_put32 (ucast v)"

lemma length_be_put32 [simp]: "length (be_put32 v) = 4"
  by (simp add: be_put32_def)

lemma be_get32_put32 [simp]:
  "be_get32 (ucast (drop_bit 24 v)) (ucast (drop_bit 16 v)) (ucast (drop_bit 8 v)) (ucast v) = v"
proof (rule bit_word_eqI)
  fix n assume "n < LENGTH(32)"
  then consider "n < 8" | "8 \<le> n" "n < 16" | "16 \<le> n" "n < 24" | "24 \<le> n" "n < 32" by force
  then show "bit (be_get32 (ucast (drop_bit 24 v)) (ucast (drop_bit 16 v)) (ucast (drop_bit 8 v))
      (ucast v)) n = bit v n"
    by cases (auto simp: be_get32_def bit_simps)
qed

lemma be_put32_get32 [simp]: "be_put32 (be_get32 a b c d) = [a, b, c, d]"
  by (auto simp: be_put32_def be_get32_def intro!: bit_word_eqI)
    (auto simp: bit_simps dest: bit_imp_le_length)

definition be_get64 :: "32 word \<Rightarrow> 32 word \<Rightarrow> 64 word" where
  "be_get64 hi lo = push_bit 32 (ucast hi) OR ucast lo"

lemma be_get64_put64 [simp]: "be_get64 (ucast (drop_bit 32 v)) (ucast v) = v"
proof (rule bit_word_eqI)
  fix n assume "n < LENGTH(64)"
  then consider "n < 32" | "32 \<le> n" "n < 64" by force
  then show "bit (be_get64 (ucast (drop_bit 32 v)) (ucast v)) n = bit v n"
    by cases (auto simp: be_get64_def bit_simps)
qed

lemma be_put64_get64 [simp]:
  "ucast (drop_bit 32 (be_get64 hi lo)) = hi" "ucast (be_get64 hi lo) = lo"
  by (auto simp: be_get64_def intro!: bit_word_eqI) (auto simp: bit_simps dest: bit_imp_le_length)

section \<open>Wire codecs\<close>

text \<open>
  The interface of a wire format: an encoder and a reader that consumes a prefix of its input
  and returns the rest. Its one law says that the reader accepts exactly the encodings of the
  good values. From it follow that decoding inverts encoding, that an encoding has one reading
  even with bytes after it, and that a reader run to the end of its input accepts exactly one
  byte string per value.
\<close>

locale wire_codec =
  fixes enc :: "'a \<Rightarrow> byte list" and dec :: "byte list \<Rightarrow> ('a \<times> byte list) option" and good :: "'a \<Rightarrow> bool"
  assumes dec_iff: "dec bs = Some (x, rest) \<longleftrightarrow> good x \<and> bs = enc x @ rest"
begin

lemma dec_enc: "good x \<Longrightarrow> dec (enc x @ rest) = Some (x, rest)"
  by (simp add: dec_iff)

lemma enc_unique: "good x \<Longrightarrow> good y \<Longrightarrow> enc x @ r = enc y @ s \<Longrightarrow> x = y \<and> r = s"
  by (metis dec_enc option.inject prod.inject)

lemma enc_inj: "good x \<Longrightarrow> good y \<Longrightarrow> enc x = enc y \<Longrightarrow> x = y"
  using enc_unique [of x y "[]" "[]"] by simp

lemma dec_suffix: "dec bs = Some (x, rest) \<Longrightarrow> length rest \<le> length bs"
  by (simp add: dec_iff)

end

text \<open>The two readers the SSH and SFTP parsers are built from, on the bytes after the offset.\<close>

definition read_u32 :: "byte list \<Rightarrow> (32 word \<times> byte list) option" where
  "read_u32 bs = (if length bs < 4 then None
     else Some (be_get32 (bs ! 0) (bs ! 1) (bs ! 2) (bs ! 3), drop 4 bs))"

definition read_u64 :: "byte list \<Rightarrow> (64 word \<times> byte list) option" where
  "read_u64 bs = (if length bs < 8 then None
     else Some (be_get64 (be_get32 (bs ! 0) (bs ! 1) (bs ! 2) (bs ! 3))
                         (be_get32 (bs ! 4) (bs ! 5) (bs ! 6) (bs ! 7)), drop 8 bs))"

definition read_str :: "byte list \<Rightarrow> (string \<times> byte list) option" where
  "read_str bs = (case read_u32 bs of
      None \<Rightarrow> None
    | Some (n, rest) \<Rightarrow>
        if unat n > length rest then None
        else Some (string_of (take (unat n) rest), drop (unat n) rest))"

definition put_str :: "string \<Rightarrow> byte list" where
  "put_str s = be_put32 (of_nat (length s)) @ bytes_of s"

lemma four_bytes: "\<not> length bs < 4 \<Longrightarrow> \<exists>a b c d rest. bs = a # b # c # d # rest"
  by (auto simp: not_less Suc_le_length_iff numeral_eq_Suc)

interpretation u32: wire_codec be_put32 read_u32 "\<lambda>_. True"
proof
  fix bs x rest
  show "read_u32 bs = Some (x, rest) \<longleftrightarrow> True \<and> bs = be_put32 x @ rest"
  proof
    assume r: "read_u32 bs = Some (x, rest)"
    then have "\<not> length bs < 4" by (auto simp: read_u32_def split: if_splits)
    with r show "True \<and> bs = be_put32 x @ rest"
      using four_bytes [of bs] by (auto simp: read_u32_def numeral_3_eq_3 numeral_2_eq_2)
  qed (simp add: read_u32_def be_put32_def numeral_3_eq_3 numeral_2_eq_2)
qed

interpretation u64: wire_codec be_put64 read_u64 "\<lambda>_. True"
proof
  fix bs x rest
  have eq: "read_u64 cs = (case read_u32 cs of None \<Rightarrow> None | Some (hi, r) \<Rightarrow>
      (case read_u32 r of None \<Rightarrow> None | Some (lo, r') \<Rightarrow> Some (be_get64 hi lo, r')))" for cs
    by (auto simp: read_u64_def read_u32_def add.commute)
  show "read_u64 bs = Some (x, rest) \<longleftrightarrow> True \<and> bs = be_put64 x @ rest"
  proof
    show "True \<and> bs = be_put64 x @ rest" if "read_u64 bs = Some (x, rest)"
      using that unfolding eq by (auto simp: u32.dec_iff be_put64_def split: option.splits)
  qed (simp add: eq be_put64_def u32.dec_enc)
qed

interpretation str: wire_codec put_str read_str "\<lambda>s. length s < 2 ^ 32"
proof
  fix bs x rest
  show "read_str bs = Some (x, rest) \<longleftrightarrow> length x < 2 ^ 32 \<and> bs = put_str x @ rest"
  proof
    assume "read_str bs = Some (x, rest)"
    then obtain n r where n: "read_u32 bs = Some (n, r)" "unat n \<le> length r"
      "x = string_of (take (unat n) r)" "rest = drop (unat n) r"
      by (auto simp: read_str_def not_less split: option.splits if_splits)
    have "length x = unat n" using n(2,3) by simp
    moreover have "unat n < 2 ^ 32" using unsigned_less [of n, where ?'a = nat] by simp
    moreover have "bs = be_put32 n @ take (unat n) r @ rest" using n(1,4) by (simp add: u32.dec_iff)
    ultimately show "length x < 2 ^ 32 \<and> bs = put_str x @ rest" using n(3) by (simp add: put_str_def)
  next
    assume x: "length x < 2 ^ 32 \<and> bs = put_str x @ rest"
    then have "unat (of_nat (length x) :: 32 word) = length x" by (simp add: unat_of_nat take_bit_nat_eq_self)
    with x show "read_str bs = Some (x, rest)"
      by (simp add: read_str_def put_str_def u32.dec_enc)
  qed
qed

section \<open>Hexadecimal\<close>

definition hex_digit :: "nat \<Rightarrow> char" where
  "hex_digit n = ''0123456789abcdef'' ! n"

definition hex_encode :: "byte list \<Rightarrow> string" where
  "hex_encode bs = concat (map (\<lambda>b. [hex_digit (unat b div 16), hex_digit (unat b mod 16)]) bs)"

lemma unat_byte: "unat (b :: byte) < 16 * 16"
  using unsigned_less [of b, where ?'a = nat] by simp

lemma length_hex_encode [simp]: "length (hex_encode bs) = 2 * length bs"
  by (induction bs) (auto simp: hex_encode_def)

lemma hex_digit_inj: "a < 16 \<Longrightarrow> b < 16 \<Longrightarrow> hex_digit a = hex_digit b \<Longrightarrow> a = b"
  by (simp add: hex_digit_def nth_eq_iff_index_eq)

lemma hex_encode_inj: "hex_encode xs = hex_encode ys \<Longrightarrow> xs = ys"
proof (induction xs arbitrary: ys)
  case Nil
  then show ?case by (cases ys) (auto simp: hex_encode_def)
next
  case (Cons x xs)
  then obtain y ys' where ys: "ys = y # ys'" by (cases ys) (auto simp: hex_encode_def)
  have "unat x div 16 = unat y div 16" "unat x mod 16 = unat y mod 16"
    using Cons.prems by (auto simp: ys hex_encode_def intro!: hex_digit_inj less_mult_imp_div_less unat_byte)
  then have "unat x = unat y" by (metis div_mult_mod_eq)
  moreover have "xs = ys'" using Cons by (simp add: ys hex_encode_def)
  ultimately show ?case by (simp add: ys word_unat_eq_iff)
qed

section \<open>Base64 without padding\<close>

definition b64_char :: "nat \<Rightarrow> char" where
  "b64_char n = ''ABCDEFGHIJKLMNOPQRSTUVWXYZabcdefghijklmnopqrstuvwxyz0123456789+/'' ! n"

fun b64_raw :: "byte list \<Rightarrow> string" where
  "b64_raw [] = ''''"
| "b64_raw [a] = [b64_char (unat a div 4), b64_char (unat a mod 4 * 16)]"
| "b64_raw [a, b] = [b64_char (unat a div 4), b64_char (unat a mod 4 * 16 + unat b div 16),
     b64_char (unat b mod 16 * 4)]"
| "b64_raw (a # b # c # rest) = [b64_char (unat a div 4),
     b64_char (unat a mod 4 * 16 + unat b div 16), b64_char (unat b mod 16 * 4 + unat c div 64),
     b64_char (unat c mod 64)] @ b64_raw rest"

section \<open>SHA-256\<close>

text \<open>The two tables of 32-bit constants, two to a number.\<close>

definition halves :: "int \<Rightarrow> 32 word list" where
  "halves n = [word_of_int (n div 2 ^ 32), word_of_int n]"

definition sha_K :: "32 word list" where
  "sha_K = concat (map halves [0x428a2f9871374491, 0xb5c0fbcfe9b5dba5, 0x3956c25b59f111f1, 0x923f82a4ab1c5ed5,
     0xd807aa9812835b01, 0x243185be550c7dc3, 0x72be5d7480deb1fe, 0x9bdc06a7c19bf174,
     0xe49b69c1efbe4786, 0x0fc19dc6240ca1cc, 0x2de92c6f4a7484aa, 0x5cb0a9dc76f988da,
     0x983e5152a831c66d, 0xb00327c8bf597fc7, 0xc6e00bf3d5a79147, 0x06ca635114292967,
     0x27b70a852e1b2138, 0x4d2c6dfc53380d13, 0x650a7354766a0abb, 0x81c2c92e92722c85,
     0xa2bfe8a1a81a664b, 0xc24b8b70c76c51a3, 0xd192e819d6990624, 0xf40e3585106aa070,
     0x19a4c1161e376c08, 0x2748774c34b0bcb5, 0x391c0cb34ed8aa4a, 0x5b9cca4f682e6ff3,
     0x748f82ee78a5636f, 0x84c878148cc70208, 0x90befffaa4506ceb, 0xbef9a3f7c67178f2])"

definition sha_H0 :: "32 word list" where
  "sha_H0 = concat (map halves [0x6a09e667bb67ae85, 0x3c6ef372a54ff53a, 0x510e527f9b05688c, 0x1f83d9ab5be0cd19])"

fun be_words :: "byte list \<Rightarrow> 32 word list" where
  "be_words (a # b # c # d # rest) = be_get32 a b c d # be_words rest"
| "be_words _ = []"

primrec sha_extend :: "nat \<Rightarrow> 32 word list \<Rightarrow> 32 word list" where
  "sha_extend 0 ws = ws"
| "sha_extend (Suc n) ws =
    (let t = length ws;
         x = ws ! (t - 15); s0 = word_rotr 7 x XOR word_rotr 18 x XOR drop_bit 3 x;
         y = ws ! (t - 2); s1 = word_rotr 17 y XOR word_rotr 19 y XOR drop_bit 10 y
     in sha_extend n (ws @ [s1 + ws ! (t - 7) + s0 + ws ! (t - 16)]))"

fun sha_round :: "32 word list \<Rightarrow> 32 word \<times> 32 word \<Rightarrow> 32 word list" where
  "sha_round [a, b, c, d, e, f, g, h] (k, w) =
    (let t1 = h + (word_rotr 6 e XOR word_rotr 11 e XOR word_rotr 25 e) +
           ((e AND f) XOR (NOT e AND g)) + k + w;
         t2 = (word_rotr 2 a XOR word_rotr 13 a XOR word_rotr 22 a) +
           ((a AND b) XOR (a AND c) XOR (b AND c))
     in [t1 + t2, a, b, c, d + t1, e, f, g])"
| "sha_round hs _ = hs"

definition sha_block :: "32 word list \<Rightarrow> byte list \<Rightarrow> 32 word list" where
  "sha_block hs block = map2 (+) hs (foldl sha_round hs (zip sha_K (sha_extend 48 (be_words block))))"

function sha_blocks :: "32 word list \<Rightarrow> byte list \<Rightarrow> 32 word list" where
  "sha_blocks hs bs = (if bs = [] then hs else sha_blocks (sha_block hs (take 64 bs)) (drop 64 bs))"
  by pat_completeness auto
termination by (relation "measure (\<lambda>(hs, bs). length bs)") auto

declare sha_blocks.simps [simp del]

definition sha_pad :: "byte list \<Rightarrow> byte list" where
  "sha_pad msg = msg @ [0x80] @ replicate ((119 - length msg mod 64) mod 64) 0 @
     be_put64 (of_nat (8 * length msg))"

definition sha256 :: "byte list \<Rightarrow> byte list" where
  "sha256 msg = concat (map be_put32 (sha_blocks sha_H0 (sha_pad msg)))"

lemma length_sha_round [simp]: "length (sha_round hs kw) = length hs"
  by (cases "(hs, kw)" rule: sha_round.cases) (simp_all add: Let_def)

lemma length_sha_block [simp]: "length (sha_block hs b) = length hs"
proof -
  have "length (foldl sha_round hs xs) = length hs" for xs
    by (induction xs arbitrary: hs) simp_all
  then show ?thesis by (simp add: sha_block_def)
qed

lemma length_sha_blocks [simp]: "length (sha_blocks hs bs) = length hs"
  by (induction hs bs rule: sha_blocks.induct) (subst sha_blocks.simps, simp)

lemma length_sha256 [simp]: "length (sha256 msg) = 32"
proof -
  have "length (concat (map be_put32 ws)) = 4 * length ws" for ws
    by (induction ws) simp_all
  then show ?thesis by (simp add: sha256_def sha_H0_def halves_def)
qed

end
