(* ===== verification/Door.thy ===== *)
theory Door
  imports Encoding
begin

text \<open>
  The door automaton of one machine: \<open>internal/gateway/core/door.go\<close>, with the closed
  dictionary of close reasons of \<open>internal/proto/door_reasons.go\<close>. A Go method that
  mutates the machine and returns \<open>([]Command, error)\<close> is a function to an \<open>outcome\<close>:
  the machine after the call, the commands, and the error if there is one (a call that
  fails may still have changed the machine, as in the source).

  The door source \<open>cfg.NewDoor(cfg.Now())\<close> is random, so each call that may use it takes
  the value it returned (\<open>nd\<close>) as an argument. A signer is an opaque handle.
\<close>

section \<open>The words of door.close and door.sanitize\<close>

definition DoorCloseIdle :: string where "DoorCloseIdle = ''idle''"
definition DoorCloseHard :: string where "DoorCloseHard = ''hard''"
definition DoorCloseStop :: string where "DoorCloseStop = ''stop''"
definition DoorCloseTunnelLost :: string where "DoorCloseTunnelLost = ''tunnel-lost''"
definition DoorCloseReconnect :: string where "DoorCloseReconnect = ''reconnect''"
definition DoorCloseLateReply :: string where "DoorCloseLateReply = ''late-reply''"
definition DoorSanitizeCorrupted :: string where "DoorSanitizeCorrupted = ''corrupted''"

definition ValidDoorCloseReason :: "string \<Rightarrow> bool" where
  "ValidDoorCloseReason reason \<longleftrightarrow>
     reason \<in> {DoorCloseIdle, DoorCloseHard, DoorCloseStop, DoorCloseTunnelLost,
       DoorCloseReconnect, DoorCloseLateReply}"

section \<open>Data\<close>

datatype door_state = Closed | Opening | Open | Closing

datatype door_event =
    Status | Reservation | CancelReservation | Success | Failure | Timeout
  | TransportLost | LateReply | NestedFailure

type_synonym signer = nat

record door =
  door_id :: string
  public_key :: string
  private_key :: "signer option"
  opened :: instant
  idle_deadline :: instant
  hard_deadline :: instant

definition zero_door :: door where
  "zero_door = \<lparr>door_id = '''', public_key = '''', private_key = None,
     opened = 0, idle_deadline = 0, hard_deadline = 0\<rparr>"

record command =
  cmd_op :: string
  cmd_door :: door
  cmd_door_id :: string
  cmd_reason :: string

record input =
  in_event :: door_event
  in_installed :: bool
  in_door_id :: string
  in_own :: bool
  in_retired :: bool

datatype closing_op = ClosingOpClose | ClosingOpSanitize

record machine =
  mstate :: door_state
  reservations :: "32 word"
  sessions :: "32 word"
  online :: bool
  reconcile :: bool
  mdoor :: door
  closeTimeouts :: "8 word"
  closingOp :: closing_op
  closingReason :: string

record snapshot =
  snap_state :: door_state
  snap_reservations :: "32 word"
  snap_sessions :: "32 word"
  snap_online :: bool
  snap_reconcile :: bool
  snap_door_id :: string
  snap_has_key :: bool
  snap_close_timeouts :: "8 word"

datatype door_error = ProtocolError | InvalidGeneratedDoor | NewDoorFailed string | BadDeadlines

type_synonym outcome = "machine \<times> command list \<times> door_error option"
type_synonym door_source = "string + door"

section \<open>Construction\<close>

record door_config =
  door_idle :: duration
  door_hard :: duration
  has_new_door :: bool

text \<open>
  \<open>defaultDoor\<close> formats 16 random bytes as an RFC 4122 identifier with the version and
  variant bits set. The randomness (\<open>raw\<close>), the generated signer and its public key line
  are arguments; a failed generation is the error the source returns.
\<close>

unbundle bit_operations_syntax

definition uuid_of_raw :: "byte list \<Rightarrow> string" where
  "uuid_of_raw raw0 =
    (let raw1 = raw0[6 := (raw0 ! 6 AND 0x0f) OR 0x40];
         raw2 = raw1[8 := (raw1 ! 8 AND 0x3f) OR 0x80];
         i = hex_encode raw2
     in take 8 i @ ''-'' @ take 4 (drop 8 i) @ ''-'' @ take 4 (drop 12 i) @ ''-'' @
        take 4 (drop 16 i) @ ''-'' @ drop 20 i)"

definition defaultDoor ::
  "door_config \<Rightarrow> instant \<Rightarrow> string + (byte list \<times> signer \<times> string) \<Rightarrow> door_source" where
  "defaultDoor cfg now gen = (case gen of
      Inl e \<Rightarrow> Inl e
    | Inr (raw, key, pub) \<Rightarrow>
        Inr \<lparr>door_id = uuid_of_raw raw, public_key = pub, private_key = Some key,
          opened = now, idle_deadline = now + door_idle cfg, hard_deadline = now + door_hard cfg\<rparr>)"

text \<open>
  \<open>NewMachine\<close> installs the default door source before it fills in the default durations,
  so the source works with the durations as the caller passed them: the second component is
  the configuration the default door source captured, when the caller brought no source of
  its own. The third is the configuration the machine keeps.
\<close>

definition NewMachine :: "door_config \<Rightarrow> door_error + (machine \<times> door_config option \<times> door_config)" where
  "NewMachine cfg =
    (let captured = (if has_new_door cfg then None else Some cfg);
         cfg1 = (if door_idle cfg \<le> 0 then cfg\<lparr>door_idle := 15 * minute\<rparr> else cfg);
         cfg2 = (if door_hard cfg1 \<le> door_idle cfg1 then cfg1\<lparr>door_hard := 8 * hour\<rparr> else cfg1)
     in if door_hard cfg2 \<le> door_idle cfg2 then Inl BadDeadlines
        else Inr (\<lparr>mstate = Closed, reservations = 0, sessions = 0, online = False,
                    reconcile = False, mdoor = zero_door, closeTimeouts = 0,
                    closingOp = ClosingOpClose, closingReason = ''''\<rparr>, captured, cfg2))"

section \<open>The pieces of a transition\<close>

definition forgetDoor :: "machine \<Rightarrow> machine" where
  "forgetDoor m = m\<lparr>mdoor := zero_door, closeTimeouts := 0\<rparr>"

definition close_command :: "string \<Rightarrow> string \<Rightarrow> command" where
  "close_command i reason =
     \<lparr>cmd_op = ''door.close'', cmd_door = zero_door, cmd_door_id = i, cmd_reason = reason\<rparr>"

definition sanitize_command :: "string \<Rightarrow> command" where
  "sanitize_command reason =
     \<lparr>cmd_op = ''door.sanitize'', cmd_door = zero_door, cmd_door_id = '''', cmd_reason = reason\<rparr>"

definition status_command :: command where
  "status_command =
     \<lparr>cmd_op = ''door.status'', cmd_door = zero_door, cmd_door_id = '''', cmd_reason = ''''\<rparr>"

definition open_command :: "door \<Rightarrow> command" where
  "open_command d = \<lparr>cmd_op = ''door.open'', cmd_door = d, cmd_door_id = '''', cmd_reason = ''''\<rparr>"

definition closeM :: "machine \<Rightarrow> string \<Rightarrow> outcome" where
  "closeM m reason =
     (m\<lparr>closingOp := ClosingOpClose, closingReason := reason\<rparr>,
      [close_command (door_id (mdoor m)) reason], None)"

definition sanitize :: "machine \<Rightarrow> string \<Rightarrow> outcome" where
  "sanitize m reason =
     (m\<lparr>closingOp := ClosingOpSanitize, closingReason := reason\<rparr>, [sanitize_command reason], None)"

definition statusM :: "machine \<Rightarrow> outcome" where
  "statusM m = (m, [status_command], None)"

definition quiet :: "machine \<Rightarrow> outcome" where
  "quiet m = (m, [], None)"

definition protocolErr :: "machine \<Rightarrow> outcome" where
  "protocolErr m = (m, [], Some ProtocolError)"

definition door_id_byte_ok :: "nat \<Rightarrow> char \<Rightarrow> bool" where
  "door_id_byte_ok i c \<longleftrightarrow>
     (if i \<in> {8, 13, 18, 23} then c = CHR ''-''
      else CHR ''0'' \<le> c \<and> c \<le> CHR ''9'' \<or> CHR ''a'' \<le> c \<and> c \<le> CHR ''f'')"

definition validDoorID :: "string \<Rightarrow> bool" where
  "validDoorID i \<longleftrightarrow> length i = 36 \<and> list_all (\<lambda>(k, c). door_id_byte_ok k c) (enumerate 0 i)"

definition startOpen :: "door_source \<Rightarrow> machine \<Rightarrow> outcome" where
  "startOpen nd m = (case nd of
      Inl e \<Rightarrow> (m, [], Some (NewDoorFailed e))
    | Inr d \<Rightarrow>
        if door_id d = '''' \<or> private_key d = None \<or> public_key d = '''' \<or>
           \<not> opened d < idle_deadline d \<or> \<not> idle_deadline d < hard_deadline d
        then (m, [], Some InvalidGeneratedDoor)
        else (m\<lparr>mdoor := d, mstate := Opening\<rparr>, [open_command d], None))"

definition decrement :: "32 word \<Rightarrow> 32 word option" where
  "decrement v = (if v = 0 then None else Some (v - 1))"

definition cancel_one :: "machine \<Rightarrow> outcome" where
  "cancel_one m = (case decrement (reservations m) of
      None \<Rightarrow> protocolErr m
    | Some v \<Rightarrow> quiet (m\<lparr>reservations := v\<rparr>))"

definition reserve_one :: "machine \<Rightarrow> outcome" where
  "reserve_one m = quiet (m\<lparr>reservations := reservations m + 1\<rparr>)"

definition idleClose :: "machine \<Rightarrow> outcome" where
  "idleClose m =
     (if sessions m = 0 \<and> reservations m = 0
      then closeM (m\<lparr>mstate := Closing\<rparr>) DoorCloseIdle else quiet m)"

section \<open>The cells of the 4 x 9 table\<close>

type_synonym transition = "door_source \<Rightarrow> machine \<Rightarrow> input \<Rightarrow> outcome"

definition invalid :: transition where "invalid nd m inp = protocolErr m"
definition ignoreLate :: transition where "ignoreLate nd m inp = quiet m"

definition closedStatus :: transition where
  "closedStatus nd m inp =
     (if \<not> in_installed inp then quiet (m\<lparr>reconcile := False, online := True\<rparr>)
      else if \<not> validDoorID (in_door_id inp)
      then sanitize (m\<lparr>mstate := Closing, mdoor := zero_door\<rparr>) DoorSanitizeCorrupted
      else closeM (m\<lparr>mstate := Closing, mdoor := zero_door\<lparr>door_id := in_door_id inp\<rparr>\<rparr>)
             DoorCloseReconnect)"

definition closedReserve :: transition where
  "closedReserve nd m inp =
     (let m1 = m\<lparr>reservations := reservations m + 1\<rparr>
      in if reconcile m1 then quiet m1 else startOpen nd m1)"

definition closedCancel :: transition where "closedCancel nd m inp = cancel_one m"
definition closedSuccess :: transition where "closedSuccess nd m inp = protocolErr m"
definition closedFailure :: transition where "closedFailure nd m inp = quiet m"

definition closedTimeout :: transition where
  "closedTimeout nd m inp = statusM (m\<lparr>reconcile := True\<rparr>)"

definition closedLate :: transition where
  "closedLate nd m inp =
     (if \<not> in_retired inp \<or> in_door_id inp = '''' then quiet m
      else if \<not> validDoorID (in_door_id inp)
      then sanitize (m\<lparr>mstate := Closing, mdoor := zero_door\<rparr>) DoorSanitizeCorrupted
      else closeM (m\<lparr>mstate := Closing, mdoor := zero_door\<lparr>door_id := in_door_id inp\<rparr>\<rparr>)
             DoorCloseLateReply)"

definition openingReserve :: transition where "openingReserve nd m inp = reserve_one m"
definition openingCancel :: transition where "openingCancel nd m inp = cancel_one m"

definition openingSuccess :: transition where
  "openingSuccess nd m inp =
     (if in_door_id inp \<noteq> '''' \<and> in_door_id inp \<noteq> door_id (mdoor m) then protocolErr m
      else if reservations m > 0 then quiet (m\<lparr>mstate := Open\<rparr>)
      else closeM (m\<lparr>mstate := Closing\<rparr>) DoorCloseIdle)"

definition openingFailure :: transition where
  "openingFailure nd m inp = quiet (forgetDoor (m\<lparr>mstate := Closed, reservations := 0\<rparr>))"

definition openingTimeout :: transition where
  "openingTimeout nd m inp =
     statusM ((forgetDoor (m\<lparr>mstate := Closed, reservations := 0\<rparr>))\<lparr>reconcile := True\<rparr>)"

definition openStatus :: transition where
  "openStatus nd m inp =
     (if in_installed inp \<and> in_door_id inp = door_id (mdoor m) then quiet m
      else let m1 = forgetDoor (m\<lparr>mstate := Closed\<rparr>)
           in if in_installed inp then closedStatus nd m1 inp
              else if reservations m1 > 0 then startOpen nd m1
              else quiet m1)"

definition openReserve :: transition where "openReserve nd m inp = reserve_one m"

definition openCancel :: transition where
  "openCancel nd m inp = (case decrement (reservations m) of
      None \<Rightarrow> protocolErr m
    | Some v \<Rightarrow> idleClose (m\<lparr>reservations := v\<rparr>))"

definition nestedSuccess :: transition where
  "nestedSuccess nd m inp = (case decrement (reservations m) of
      None \<Rightarrow> protocolErr m
    | Some v \<Rightarrow> quiet (m\<lparr>reservations := v, sessions := sessions m + 1\<rparr>))"

definition nestedFailure :: transition where
  "nestedFailure nd m inp = (case decrement (reservations m) of
      None \<Rightarrow> protocolErr m
    | Some v \<Rightarrow> idleClose (m\<lparr>reservations := v\<rparr>))"

definition closingReserve :: transition where "closingReserve nd m inp = reserve_one m"
definition closingCancel :: transition where "closingCancel nd m inp = cancel_one m"

definition closingSuccess :: transition where
  "closingSuccess nd m inp =
     (if in_door_id inp \<noteq> '''' \<and> in_door_id inp \<noteq> door_id (mdoor m) then protocolErr m
      else let m1 = forgetDoor (m\<lparr>mstate := Closed\<rparr>)
           in if \<not> in_own inp then statusM (m1\<lparr>reconcile := True\<rparr>)
              else if reservations m1 > 0 \<and> \<not> reconcile m1 then startOpen nd m1
              else quiet m1)"

definition closingFailure :: transition where
  "closingFailure nd m inp =
     quiet ((forgetDoor (m\<lparr>mstate := Closed, reservations := 0\<rparr>))\<lparr>online := False\<rparr>)"

definition closingTimeout :: transition where
  "closingTimeout nd m inp =
     (if closeTimeouts m = 0
      then let m1 = m\<lparr>closeTimeouts := 1\<rparr>
           in if closingOp m1 = ClosingOpSanitize then sanitize m1 (closingReason m1)
              else closeM m1 (closingReason m1)
      else closingFailure nd m inp)"

definition lost :: transition where
  "lost nd m inp = quiet (forgetDoor (m\<lparr>mstate := Closed, reservations := 0, sessions := 0,
     online := False, reconcile := False\<rparr>))"

definition doorTransition :: "door_state \<Rightarrow> door_event \<Rightarrow> transition" where
  "doorTransition st ev = (case st of
      Closed \<Rightarrow> (case ev of
          Status \<Rightarrow> closedStatus | Reservation \<Rightarrow> closedReserve | CancelReservation \<Rightarrow> closedCancel
        | Success \<Rightarrow> closedSuccess | Failure \<Rightarrow> closedFailure | Timeout \<Rightarrow> closedTimeout
        | TransportLost \<Rightarrow> lost | LateReply \<Rightarrow> closedLate | NestedFailure \<Rightarrow> closedFailure)
    | Opening \<Rightarrow> (case ev of
          Status \<Rightarrow> invalid | Reservation \<Rightarrow> openingReserve | CancelReservation \<Rightarrow> openingCancel
        | Success \<Rightarrow> openingSuccess | Failure \<Rightarrow> openingFailure | Timeout \<Rightarrow> openingTimeout
        | TransportLost \<Rightarrow> lost | LateReply \<Rightarrow> ignoreLate | NestedFailure \<Rightarrow> invalid)
    | Open \<Rightarrow> (case ev of
          Status \<Rightarrow> openStatus | Reservation \<Rightarrow> openReserve | CancelReservation \<Rightarrow> openCancel
        | Success \<Rightarrow> nestedSuccess | Failure \<Rightarrow> nestedFailure | Timeout \<Rightarrow> nestedFailure
        | TransportLost \<Rightarrow> lost | LateReply \<Rightarrow> ignoreLate | NestedFailure \<Rightarrow> nestedFailure)
    | Closing \<Rightarrow> (case ev of
          Status \<Rightarrow> invalid | Reservation \<Rightarrow> closingReserve | CancelReservation \<Rightarrow> closingCancel
        | Success \<Rightarrow> closingSuccess | Failure \<Rightarrow> closingFailure | Timeout \<Rightarrow> closingTimeout
        | TransportLost \<Rightarrow> lost | LateReply \<Rightarrow> ignoreLate | NestedFailure \<Rightarrow> invalid))"

section \<open>The exported operations\<close>

definition Apply :: "door_source \<Rightarrow> machine \<Rightarrow> input \<Rightarrow> outcome" where
  "Apply nd m inp = doorTransition (mstate m) (in_event inp) nd m inp"

definition Snapshot :: "machine \<Rightarrow> snapshot" where
  "Snapshot m = \<lparr>snap_state = mstate m, snap_reservations = reservations m,
     snap_sessions = sessions m, snap_online = online m, snap_reconcile = reconcile m,
     snap_door_id = door_id (mdoor m), snap_has_key = (private_key (mdoor m) \<noteq> None),
     snap_close_timeouts = closeTimeouts m\<rparr>"

definition FinishSession :: "machine \<Rightarrow> outcome" where
  "FinishSession m =
     (if sessions m = 0 then protocolErr m
      else let m1 = m\<lparr>sessions := sessions m - 1\<rparr>
           in if mstate m1 \<noteq> Open then quiet m1 else idleClose m1)"

definition Recheck :: "machine \<Rightarrow> string \<Rightarrow> outcome" where
  "Recheck m doorID =
     (if mstate m \<noteq> Open \<or> door_id (mdoor m) \<noteq> doorID then quiet m else statusM m)"

definition HardDeadline :: "machine \<Rightarrow> instant \<Rightarrow> outcome" where
  "HardDeadline m now =
     (if mstate m \<noteq> Open \<or> reservations m > 0 \<or> isZero (hard_deadline (mdoor m)) \<or>
         now < hard_deadline (mdoor m)
      then quiet m else closeM (m\<lparr>mstate := Closing\<rparr>) DoorCloseHard)"

definition ForceClose :: "machine \<Rightarrow> outcome" where
  "ForceClose m = (case mstate m of
      Closed \<Rightarrow> quiet m
    | Closing \<Rightarrow> quiet m
    | _ \<Rightarrow> if door_id (mdoor m) = '''' then protocolErr m
          else closeM (m\<lparr>mstate := Closing, reservations := 0, sessions := 0\<rparr>) DoorCloseStop)"

text \<open>One call of the automaton's exported surface, and the runs made of such calls.\<close>

datatype door_call =
    CallApply door_source input
  | CallFinishSession
  | CallRecheck string
  | CallHardDeadline instant
  | CallForceClose

fun door_exec :: "machine \<Rightarrow> door_call \<Rightarrow> outcome" where
  "door_exec m (CallApply nd inp) = Apply nd m inp"
| "door_exec m CallFinishSession = FinishSession m"
| "door_exec m (CallRecheck i) = Recheck m i"
| "door_exec m (CallHardDeadline now) = HardDeadline m now"
| "door_exec m CallForceClose = ForceClose m"

definition door_init :: "machine \<Rightarrow> bool" where
  "door_init m \<longleftrightarrow> (\<exists>cfg c1 c2. NewMachine cfg = Inr (m, c1, c2))"

definition door_step :: "machine \<Rightarrow> machine \<Rightarrow> bool" where
  "door_step m m' \<longleftrightarrow> (\<exists>call cs e. door_exec m call = (m', cs, e))"

fun door_run :: "machine \<Rightarrow> door_call list \<Rightarrow> machine \<times> command list" where
  "door_run m [] = (m, [])"
| "door_run m (c # cs) =
     (case door_exec m c of (m1, out, _) \<Rightarrow>
        (case door_run m1 cs of (m2, outs) \<Rightarrow> (m2, out @ outs)))"

section \<open>The invariant\<close>

lemmas door_pieces = closeM_def sanitize_def statusM_def quiet_def protocolErr_def
  forgetDoor_def startOpen_def decrement_def cancel_one_def reserve_one_def idleClose_def

lemmas door_cells = invalid_def ignoreLate_def closedStatus_def closedReserve_def
  closedCancel_def closedSuccess_def closedFailure_def closedTimeout_def closedLate_def
  openingReserve_def openingCancel_def openingSuccess_def openingFailure_def
  openingTimeout_def openStatus_def openReserve_def openCancel_def nestedSuccess_def
  nestedFailure_def closingReserve_def closingCancel_def closingSuccess_def
  closingFailure_def closingTimeout_def lost_def

lemmas door_commands = close_command_def sanitize_command_def status_command_def open_command_def

lemmas door_words = ValidDoorCloseReason_def DoorCloseIdle_def DoorCloseHard_def
  DoorCloseStop_def DoorCloseTunnelLost_def DoorCloseReconnect_def DoorCloseLateReply_def
  DoorSanitizeCorrupted_def

definition usable_door :: "door \<Rightarrow> bool" where
  "usable_door d \<longleftrightarrow> door_id d \<noteq> '''' \<and> private_key d \<noteq> None \<and> public_key d \<noteq> '''' \<and>
     opened d < idle_deadline d \<and> idle_deadline d < hard_deadline d"

text \<open>
  What the automaton keeps between its fields: a closed machine holds no door and no key, an
  opening or open one holds a usable door, a closing one knows how to name what it closes,
  and the timeout counter is 0 outside closing and never passes 1.
\<close>

definition door_inv :: "machine \<Rightarrow> bool" where
  "door_inv m \<longleftrightarrow>
     (mstate m = Closed \<longrightarrow> mdoor m = zero_door) \<and>
     (mstate m \<in> {Opening, Open} \<longrightarrow> usable_door (mdoor m)) \<and>
     (mstate m = Closing \<longrightarrow>
        (case closingOp m of
           ClosingOpClose \<Rightarrow> door_id (mdoor m) \<noteq> '''' \<and> ValidDoorCloseReason (closingReason m)
         | ClosingOpSanitize \<Rightarrow> mdoor m = zero_door \<and> closingReason m = DoorSanitizeCorrupted)) \<and>
     (mstate m \<noteq> Closing \<longrightarrow> closeTimeouts m = 0) \<and> closeTimeouts m \<in> {0, 1}"

lemma validDoorID_nonempty: "validDoorID i \<Longrightarrow> i \<noteq> ''''"
  by (auto simp: validDoorID_def)

lemma close_words [simp]:
  "ValidDoorCloseReason DoorCloseIdle" "ValidDoorCloseReason DoorCloseHard"
  "ValidDoorCloseReason DoorCloseStop" "ValidDoorCloseReason DoorCloseReconnect"
  "ValidDoorCloseReason DoorCloseLateReply"
  by (simp_all add: ValidDoorCloseReason_def)

text \<open>
  The invariant on the pieces: each lemma says when the machine a piece leaves behind keeps
  it, so that a cell is settled by rewriting with them.
\<close>

abbreviation keeps :: "outcome \<Rightarrow> bool" where "keeps out \<equiv> door_inv (fst out)"

lemma keeps_quiet [simp]: "keeps (quiet m) = door_inv m"
  by (simp add: quiet_def)

lemma keeps_protocolErr [simp]: "keeps (protocolErr m) = door_inv m"
  by (simp add: protocolErr_def)

lemma keeps_statusM [simp]: "keeps (statusM m) = door_inv m"
  by (simp add: statusM_def)

lemma keeps_closeM:
  "mstate m = Closing \<Longrightarrow> door_id (mdoor m) \<noteq> '''' \<Longrightarrow> ValidDoorCloseReason reason \<Longrightarrow>
   closeTimeouts m \<in> {0, 1} \<Longrightarrow> keeps (closeM m reason)"
  by (simp add: closeM_def door_inv_def)

lemma keeps_sanitize:
  "mstate m = Closing \<Longrightarrow> mdoor m = zero_door \<Longrightarrow> reason = DoorSanitizeCorrupted \<Longrightarrow>
   closeTimeouts m \<in> {0, 1} \<Longrightarrow> keeps (sanitize m reason)"
  by (simp add: sanitize_def door_inv_def)

lemma keeps_startOpen: "door_inv m \<Longrightarrow> mstate m = Closed \<Longrightarrow> keeps (startOpen nd m)"
  by (auto simp: startOpen_def door_inv_def usable_door_def split: sum.splits)

lemma inv_forget_closed [simp]: "mstate m = Closed \<Longrightarrow> door_inv (forgetDoor m)"
  by (simp add: forgetDoor_def door_inv_def)

lemma forgetDoor_fields [simp]:
  "mstate (forgetDoor m) = mstate m" "reservations (forgetDoor m) = reservations m"
  "sessions (forgetDoor m) = sessions m" "reconcile (forgetDoor m) = reconcile m"
  "online (forgetDoor m) = online m" "mdoor (forgetDoor m) = zero_door"
  "closeTimeouts (forgetDoor m) = 0"
  by (simp_all add: forgetDoor_def)

lemma inv_counters [simp]:
  "door_inv (m\<lparr>reservations := r\<rparr>) = door_inv m"
  "door_inv (m\<lparr>sessions := n\<rparr>) = door_inv m"
  "door_inv (m\<lparr>reservations := r, sessions := n\<rparr>) = door_inv m"
  "door_inv (m\<lparr>online := b\<rparr>) = door_inv m"
  "door_inv (m\<lparr>reconcile := b\<rparr>) = door_inv m"
  "door_inv (m\<lparr>reconcile := b, online := c\<rparr>) = door_inv m"
  by (simp_all add: door_inv_def cong: closing_op.case_cong)

text \<open>What the invariant says in each state, as rules.\<close>

lemma inv_closed: "door_inv m \<Longrightarrow> mstate m = Closed \<Longrightarrow> mdoor m = zero_door \<and> closeTimeouts m = 0"
  by (simp add: door_inv_def)

lemma inv_usable:
  "door_inv m \<Longrightarrow> mstate m \<in> {Opening, Open} \<Longrightarrow> usable_door (mdoor m) \<and> closeTimeouts m = 0"
  by (auto simp: door_inv_def)

lemma inv_has_id:
  "door_inv m \<Longrightarrow> mstate m \<in> {Opening, Open} \<Longrightarrow> door_id (mdoor m) \<noteq> '''' \<and> closeTimeouts m = 0"
  by (auto simp: door_inv_def usable_door_def)

lemma inv_closing_close:
  "door_inv m \<Longrightarrow> mstate m = Closing \<Longrightarrow> closingOp m \<noteq> ClosingOpSanitize \<Longrightarrow>
   door_id (mdoor m) \<noteq> '''' \<and> ValidDoorCloseReason (closingReason m)"
  by (auto simp: door_inv_def split: closing_op.splits)

lemma inv_closing_sanitize:
  "door_inv m \<Longrightarrow> mstate m = Closing \<Longrightarrow> closingOp m = ClosingOpSanitize \<Longrightarrow>
   mdoor m = zero_door \<and> closingReason m = DoorSanitizeCorrupted"
  by (auto simp: door_inv_def)

lemma keeps_cancel_one [simp]: "keeps (cancel_one m) = door_inv m"
  by (simp add: cancel_one_def split: option.splits)

lemma keeps_reserve_one [simp]: "keeps (reserve_one m) = door_inv m"
  by (simp add: reserve_one_def)

lemma keeps_idleClose: "door_inv m \<Longrightarrow> mstate m = Open \<Longrightarrow> keeps (idleClose m)"
  using inv_has_id [of m] by (auto simp: idleClose_def intro!: keeps_closeM)

lemma keeps_closedStatus: "door_inv m \<Longrightarrow> mstate m = Closed \<Longrightarrow> keeps (closedStatus nd m inp)"
  using inv_closed [of m] by (auto simp: closedStatus_def dest: validDoorID_nonempty
      intro!: keeps_closeM keeps_sanitize)

lemma keeps_closed_row:
  assumes "door_inv m" "mstate m = Closed"
  shows "keeps (closedReserve nd m inp)" "keeps (closedLate nd m inp)"
  using assms inv_closed [of m] by (auto simp: closedReserve_def closedLate_def Let_def
      dest: validDoorID_nonempty intro!: keeps_startOpen keeps_closeM keeps_sanitize)

lemma keeps_openingSuccess:
  "door_inv m \<Longrightarrow> mstate m = Opening \<Longrightarrow> keeps (openingSuccess nd m inp)"
  using inv_usable [of m] inv_has_id [of m]
  by (auto simp: openingSuccess_def intro!: keeps_closeM) (simp_all add: door_inv_def)

lemma keeps_open_row:
  assumes "door_inv m" "mstate m = Open"
  shows "keeps (openStatus nd m inp)" "keeps (openCancel nd m inp)"
    "keeps (nestedSuccess nd m inp)" "keeps (nestedFailure nd m inp)"
  using assms by (auto simp: openStatus_def openCancel_def nestedSuccess_def nestedFailure_def
      Let_def intro!: keeps_startOpen keeps_closedStatus keeps_idleClose split: option.splits)

lemma keeps_closing_row:
  assumes "door_inv m" "mstate m = Closing"
  shows "keeps (closingSuccess nd m inp)" "keeps (closingTimeout nd m inp)"
    "keeps (closingFailure nd m inp)"
  using assms inv_closing_close [of m] inv_closing_sanitize [of m]
  by (auto simp: closingSuccess_def closingTimeout_def closingFailure_def Let_def
      intro!: keeps_startOpen keeps_closeM keeps_sanitize)

lemmas door_rows = keeps_closedStatus keeps_closed_row keeps_openingSuccess keeps_open_row
  keeps_closing_row

lemma keeps_Apply: "door_inv m \<Longrightarrow> keeps (Apply nd m inp)"
  by (cases "mstate m"; cases "in_event inp")
    (simp_all add: Apply_def doorTransition_def door_rows invalid_def ignoreLate_def
      closedCancel_def closedSuccess_def closedFailure_def closedTimeout_def openingReserve_def
      openingCancel_def openingFailure_def openingTimeout_def openReserve_def
      closingReserve_def closingCancel_def lost_def)

lemma keeps_FinishSession: "door_inv m \<Longrightarrow> keeps (FinishSession m)"
  by (auto simp: FinishSession_def Let_def intro!: keeps_idleClose)

lemma keeps_HardDeadline: "door_inv m \<Longrightarrow> keeps (HardDeadline m now)"
  using inv_has_id [of m] by (auto simp: HardDeadline_def intro!: keeps_closeM)

lemma keeps_ForceClose: "door_inv m \<Longrightarrow> keeps (ForceClose m)"
  using inv_has_id [of m]
  by (auto simp: ForceClose_def intro!: keeps_closeM split: door_state.splits)

lemma door_inv_exec: "door_inv m \<Longrightarrow> keeps (door_exec m call)"
  by (cases call) (auto simp: Recheck_def keeps_Apply keeps_FinishSession keeps_HardDeadline
      keeps_ForceClose)

lemma door_init_inv: "door_init m \<Longrightarrow> door_inv m"
  by (auto simp: door_init_def NewMachine_def Let_def door_inv_def split: if_splits)

interpretation doors: inv_system door_init door_step door_inv
proof unfold_locales
  show "door_init m \<Longrightarrow> door_inv m" for m by (rule door_init_inv)
  show "door_inv m \<Longrightarrow> door_step m m' \<Longrightarrow> door_inv m'" for m m'
    using door_inv_exec by (metis door_step_def fst_conv)
qed

section \<open>What the commands say\<close>

text \<open>
  \<open>closing_command\<close> is the operation a closing machine is waiting on, read off its fields:
  the command it must have sent, and the one a first timeout must repeat.
\<close>

definition closing_command :: "machine \<Rightarrow> command" where
  "closing_command m = (case closingOp m of
      ClosingOpClose \<Rightarrow> close_command (door_id (mdoor m)) (closingReason m)
    | ClosingOpSanitize \<Rightarrow> sanitize_command (closingReason m))"

text \<open>
  The shapes an outcome can have. Every cell and every other exported operation has one of
  them, whatever the state: this is the classification the properties below read.
\<close>

inductive door_outcome :: "machine \<Rightarrow> outcome \<Rightarrow> bool" where
  out_none: "cs = [] \<Longrightarrow> mstate m' = Closing \<longrightarrow> mstate m = Closing \<and>
      closing_command m' = closing_command m \<Longrightarrow>
      mstate m' = Opening \<longrightarrow> mstate m = Opening \<Longrightarrow> door_outcome m (m', cs, e)"
| out_status: "cs = [status_command] \<Longrightarrow> mstate m' \<in> {Closed, Open} \<Longrightarrow>
      door_outcome m (m', cs, None)"
| out_closing: "cs = [closing_command m'] \<Longrightarrow> mstate m' = Closing \<Longrightarrow>
      door_outcome m (m', cs, None)"
| out_open: "cs = [open_command (mdoor m')] \<Longrightarrow> mstate m' = Opening \<Longrightarrow> mstate m \<noteq> Opening \<Longrightarrow>
      usable_door (mdoor m') \<Longrightarrow> door_outcome m (m', cs, None)"

lemma outcome_quiet:
  "mstate m' = Closing \<longrightarrow> mstate m = Closing \<and> closing_command m' = closing_command m \<Longrightarrow>
   mstate m' = Opening \<longrightarrow> mstate m = Opening \<Longrightarrow> door_outcome m (quiet m')"
  unfolding quiet_def by (rule out_none) auto

lemma outcome_protocolErr: "door_outcome m (protocolErr m)"
  unfolding protocolErr_def by (rule out_none) auto

lemma outcome_statusM: "mstate m' \<in> {Closed, Open} \<Longrightarrow> door_outcome m (statusM m')"
  unfolding statusM_def by (rule out_status) auto

lemma outcome_closeM: "mstate m' = Closing \<Longrightarrow> door_outcome m (closeM m' r)"
  unfolding closeM_def by (rule out_closing) (auto simp: closing_command_def)

lemma outcome_sanitize: "mstate m' = Closing \<Longrightarrow> door_outcome m (sanitize m' r)"
  unfolding sanitize_def by (rule out_closing) (auto simp: closing_command_def)

lemma outcome_startOpen:
  assumes "mstate m' = Closed" "mstate m \<noteq> Opening"
  shows "door_outcome m (startOpen nd m')"
  using assms by (auto simp: startOpen_def usable_door_def intro: door_outcome.intros split: sum.splits)

lemma closing_command_counters [simp]:
  "closing_command (m\<lparr>reservations := r\<rparr>) = closing_command m"
  "closing_command (m\<lparr>sessions := r\<rparr>) = closing_command m"
  by (simp_all add: closing_command_def cong: closing_op.case_cong)

lemmas outcome_rules = outcome_quiet outcome_protocolErr outcome_statusM outcome_closeM
  outcome_sanitize outcome_startOpen

lemma outcome_idleClose: "mstate m = mstate m' \<Longrightarrow> mstate m' = Open \<Longrightarrow> door_outcome m (idleClose m')"
  by (auto simp: idleClose_def intro!: outcome_rules)

lemma outcome_closedStatus:
  "mstate m' = Closed \<Longrightarrow> door_outcome m (closedStatus nd m' inp)"
  by (auto simp: closedStatus_def intro!: outcome_rules)

lemma outcome_Apply: "door_outcome m (Apply nd m inp)"
  by (cases "mstate m"; cases "in_event inp")
    (auto simp: Apply_def doorTransition_def door_cells cancel_one_def reserve_one_def Let_def
      intro!: outcome_rules outcome_idleClose split: option.split)

lemma outcome_exec: "door_outcome m (door_exec m call)"
  by (cases call) (auto simp: outcome_Apply FinishSession_def Recheck_def HardDeadline_def
      ForceClose_def Let_def intro!: outcome_rules outcome_idleClose split: door_state.split)

lemma closing_command_good:
  assumes "door_inv m" "mstate m = Closing"
  shows "cmd_op (closing_command m) = ''door.close'' \<and> cmd_door_id (closing_command m) \<noteq> '''' \<and>
           ValidDoorCloseReason (cmd_reason (closing_command m)) \<or>
         cmd_op (closing_command m) = ''door.sanitize'' \<and>
           cmd_reason (closing_command m) = DoorSanitizeCorrupted"
  using inv_closing_close [OF assms] inv_closing_sanitize [OF assms]
  by (auto simp: closing_command_def close_command_def sanitize_command_def split: closing_op.split)

section \<open>Properties\<close>

text \<open>
  C1. In every state the automaton can reach, a closed machine holds no door and so no
  private key, an opening or open one holds a door with an identifier, both halves of its
  key and ordered deadlines, a closing one can name the operation it waits on with a word of
  the protocol, and at most one closing timeout has been counted.
\<close>

theorem door_reachable_inv:
  assumes "reachable door_init door_step m"
  shows "door_inv m"
  using assms by (rule doors.reachable_inv)

definition fresh_machine :: machine where
  "fresh_machine = \<lparr>mstate = Closed, reservations = 0, sessions = 0, online = False,
     reconcile = False, mdoor = zero_door, closeTimeouts = 0, closingOp = ClosingOpClose,
     closingReason = ''''\<rparr>"

definition sample_door :: door where
  "sample_door = \<lparr>door_id = ''d1'', public_key = ''ssh-ed25519 AAAA'', private_key = Some 7,
     opened = 10, idle_deadline = 20, hard_deadline = 30\<rparr>"

definition sample_input :: "door_event \<Rightarrow> input" where
  "sample_input ev = \<lparr>in_event = ev, in_installed = False, in_door_id = '''', in_own = True,
     in_retired = False\<rparr>"

definition opening_machine :: machine where
  "opening_machine = fst (Apply (Inr sample_door) fresh_machine (sample_input Reservation))"

definition open_machine :: machine where
  "open_machine = fst (Apply (Inl '''') opening_machine (sample_input Success))"

definition closing_machine :: machine where
  "closing_machine = fst (Apply (Inl '''') open_machine (sample_input NestedFailure))"

lemma fresh_reachable: "reachable door_init door_step fresh_machine"
  by (rule reach_init) (auto simp: door_init_def NewMachine_def fresh_machine_def
      intro!: exI [of _ "\<lparr>door_idle = minute, door_hard = hour, has_new_door = True\<rparr>"])

lemma reach_call: "reachable door_init door_step m \<Longrightarrow> reachable door_init door_step (fst (door_exec m call))"
  by (metis reach_step door_step_def prod.collapse)

lemma opening_reachable: "reachable door_init door_step opening_machine"
  unfolding opening_machine_def
  using reach_call [OF fresh_reachable, of "CallApply (Inr sample_door) (sample_input Reservation)"] by simp

lemma open_reachable: "reachable door_init door_step open_machine"
  unfolding open_machine_def
  using reach_call [OF opening_reachable, of "CallApply (Inl '''') (sample_input Success)"] by simp

lemma closing_reachable: "reachable door_init door_step closing_machine"
  unfolding closing_machine_def
  using reach_call [OF open_reachable, of "CallApply (Inl '''') (sample_input NestedFailure)"] by simp

lemmas sample_runs = opening_machine_def open_machine_def closing_machine_def fresh_machine_def
  sample_door_def sample_input_def Apply_def doorTransition_def closedReserve_def
  openingSuccess_def nestedFailure_def door_pieces

theorem door_reachable_inv_witness:
  "reachable door_init door_step closing_machine \<and> mstate closing_machine = Closing \<and>
   door_inv closing_machine"
  using closing_reachable door_reachable_inv [OF closing_reachable]
  by (simp add: sample_runs)

text \<open>
  C24. Every command a reachable automaton emits is one a machine accepts: a door.close names a
  door and carries a word of the closed dictionary, a door.sanitize carries its one word, a
  door.open carries a usable door, and nothing else but door.status is ever sent. (A close
  the machine refuses cuts the machine off.)
\<close>

theorem door_commands_wellformed:
  assumes "reachable door_init door_step m" "door_exec m call = (m', cs, e)" "c \<in> set cs"
  shows "cmd_op c = ''door.close'' \<and> cmd_door_id c \<noteq> '''' \<and> ValidDoorCloseReason (cmd_reason c) \<or>
         cmd_op c = ''door.sanitize'' \<and> cmd_reason c = DoorSanitizeCorrupted \<or>
         cmd_op c = ''door.open'' \<and> usable_door (cmd_door c) \<or>
         cmd_op c = ''door.status''"
proof -
  have inv': "door_inv m'"
    using door_inv_exec [OF doors.reachable_inv [OF assms(1)], of call] assms(2) by simp
  from outcome_exec [of m call] assms(2) have "door_outcome m (m', cs, e)" by simp
  then show ?thesis
  proof cases
    case out_closing
    with assms(3) closing_command_good [OF inv'] show ?thesis by auto
  qed (use assms(3) in \<open>auto simp: door_commands\<close>)
qed

theorem door_commands_wellformed_witness:
  "\<exists>m' c. door_exec open_machine (CallApply (Inl '''') (sample_input NestedFailure)) = (m', [c], None) \<and>
     cmd_op c = ''door.close'' \<and> cmd_door_id c = ''d1'' \<and> cmd_reason c = DoorCloseIdle \<and>
     (cmd_op c = ''door.close'' \<and> cmd_door_id c \<noteq> '''' \<and> ValidDoorCloseReason (cmd_reason c) \<or>
      cmd_op c = ''door.sanitize'' \<and> cmd_reason c = DoorSanitizeCorrupted \<or>
      cmd_op c = ''door.open'' \<and> usable_door (cmd_door c) \<or> cmd_op c = ''door.status'')"
  using door_commands_wellformed [OF open_reachable,
      of "CallApply (Inl '''') (sample_input NestedFailure)" _ "[close_command ''d1'' DoorCloseIdle]" None
      "close_command ''d1'' DoorCloseIdle"]
  by (simp add: sample_runs close_command_def)

text \<open>
  The three places that start an opening: a reservation of a closed machine, a status report
  that the open door is gone, and the confirmed close of a door somebody is waiting for.
\<close>

lemma startOpen_reservations [simp]: "reservations (fst (startOpen nd m)) = reservations m"
  by (auto simp: startOpen_def split: sum.split)

lemma startOpen_only_when_waiting:
  assumes "mstate m \<noteq> Opening" "mstate (fst (door_exec m call)) = Opening" "reservations m \<noteq> - 1"
  shows "reservations (fst (door_exec m call)) > 0 \<and>
         (mstate m = Open \<longrightarrow> (\<exists>nd inp. call = CallApply nd inp \<and> in_event inp = Status \<and>
            \<not> (in_installed inp \<and> in_door_id inp = door_id (mdoor m))))"
proof (cases call)
  case (CallApply nd inp)
  show ?thesis
  proof (cases "mstate m")
    case Closed
    then show ?thesis using assms CallApply
      by (cases "in_event inp") (auto simp: Apply_def doorTransition_def door_cells Let_def
        cancel_one_def quiet_def protocolErr_def statusM_def closeM_def sanitize_def forgetDoor_def
        word_inc_pos split: if_splits option.splits)
  next
    case Open
    then show ?thesis using assms CallApply
      by (cases "in_event inp") (auto simp: Apply_def doorTransition_def door_cells Let_def
        cancel_one_def reserve_one_def idleClose_def quiet_def protocolErr_def statusM_def closeM_def
        sanitize_def split: if_splits option.splits)
  next
    case Closing
    then show ?thesis using assms CallApply
      by (cases "in_event inp") (auto simp: Apply_def doorTransition_def door_cells Let_def
        cancel_one_def reserve_one_def quiet_def protocolErr_def statusM_def closeM_def
        sanitize_def split: if_splits option.splits)
  qed (use assms in simp)
qed (use assms in \<open>auto simp: FinishSession_def Recheck_def HardDeadline_def ForceClose_def
  idleClose_def closeM_def quiet_def statusM_def protocolErr_def Let_def
  split: if_splits door_state.splits\<close>)

text \<open>
  A second door can never be manufactured: a door.open is emitted alone, never while a
  door is already opening, it leaves the automaton opening exactly the door it names, and
  somebody is waiting for it (unless the 32-bit reservation counter was full). It comes from
  an open state only when the machine reported that it no longer holds the open door.
\<close>

theorem door_open_single:
  assumes "reachable door_init door_step m" "door_exec m call = (m', cs, e)"
    and "c \<in> set cs" "cmd_op c = ''door.open''" "reservations m \<noteq> - 1"
  shows "cs = [c] \<and> mstate m \<noteq> Opening \<and> mstate m' = Opening \<and> mdoor m' = cmd_door c \<and>
         reservations m' > 0 \<and>
         (mstate m = Open \<longrightarrow> (\<exists>nd inp. call = CallApply nd inp \<and> in_event inp = Status \<and>
            \<not> (in_installed inp \<and> in_door_id inp = door_id (mdoor m))))"
proof -
  from outcome_exec [of m call] assms(2) have out: "door_outcome m (m', cs, e)" by simp
  then have "cs = [c] \<and> mstate m \<noteq> Opening \<and> mstate m' = Opening \<and> mdoor m' = cmd_door c"
    by cases (use assms(3,4) in \<open>auto simp: door_commands closing_command_def split: closing_op.splits\<close>)
  moreover have "reservations m' > 0 \<and>
         (mstate m = Open \<longrightarrow> (\<exists>nd inp. call = CallApply nd inp \<and> in_event inp = Status \<and>
            \<not> (in_installed inp \<and> in_door_id inp = door_id (mdoor m))))"
    using calculation assms(2,5) startOpen_only_when_waiting [of m call] by auto
  ultimately show ?thesis by blast
qed

theorem door_open_single_witness:
  "\<exists>m'. door_exec fresh_machine (CallApply (Inr sample_door) (sample_input Reservation)) =
       (m', [open_command sample_door], None) \<and>
     mstate m' = Opening \<and> mdoor m' = sample_door \<and> reservations m' > 0"
  using door_open_single [OF fresh_reachable,
      of "CallApply (Inr sample_door) (sample_input Reservation)" _ "[open_command sample_door]" None
      "open_command sample_door"]
  by (simp add: sample_runs open_command_def)

text \<open>
  A lost answer to a close is survived once: the first timeout of a closing machine sends
  exactly the command it is waiting on again and changes nothing else the retry depends on;
  a second one gives the machine up: closed, offline, no door, no reservation, no command.
\<close>

theorem closing_timeout_retry:
  assumes "mstate m = Closing" "in_event inp = Timeout"
  shows "(closeTimeouts m = 0 \<longrightarrow> (\<exists>m1. Apply nd m inp = (m1, [closing_command m], None) \<and>
             mstate m1 = Closing \<and> closing_command m1 = closing_command m \<and> closeTimeouts m1 = 1 \<and>
             reservations m1 = reservations m \<and> sessions m1 = sessions m)) \<and>
         (closeTimeouts m \<noteq> 0 \<longrightarrow> (\<exists>m2. Apply nd m inp = (m2, [], None) \<and> mstate m2 = Closed \<and>
             \<not> online m2 \<and> mdoor m2 = zero_door \<and> reservations m2 = 0 \<and> closeTimeouts m2 = 0))"
  using assms by (auto simp: Apply_def doorTransition_def closingTimeout_def closingFailure_def
      Let_def closing_command_def sanitize_def closeM_def quiet_def split: closing_op.split)

theorem closing_timeout_retry_witness:
  "reachable door_init door_step closing_machine \<and>
   (\<exists>m1. Apply (Inl '''') closing_machine (sample_input Timeout) =
           (m1, [close_command ''d1'' DoorCloseIdle], None) \<and> mstate m1 = Closing \<and> closeTimeouts m1 = 1)"
proof -
  have "mstate closing_machine = Closing" "closeTimeouts closing_machine = 0"
    "closing_command closing_machine = close_command ''d1'' DoorCloseIdle"
    by (simp_all add: sample_runs closing_command_def)
  then show ?thesis
    using closing_reachable
      closing_timeout_retry [of closing_machine "sample_input Timeout" "Inl ''''"]
    by (auto simp: sample_input_def)
qed

lemma close_reason_of_startOpen [simp]:
  "startOpen nd m = (m', [c], e) \<Longrightarrow> cmd_op c = ''door.open''"
  by (auto simp: startOpen_def open_command_def split: sum.splits if_splits)

lemma close_reason_of_Apply:
  assumes "Apply nd m inp = (m', [c], e)" "mstate m \<noteq> Closing" "cmd_op c = ''door.close''"
  shows "cmd_reason c \<noteq> DoorCloseHard \<and> (cmd_reason c = DoorCloseIdle \<longrightarrow>
           reservations m' = 0 \<and> (mstate m = Open \<longrightarrow> sessions m' = 0) \<and> mstate m \<in> {Opening, Open})"
proof (cases "mstate m")
  case Closed
  then show ?thesis using assms
    by (cases "in_event inp") (auto simp: Apply_def doorTransition_def door_cells Let_def
      cancel_one_def quiet_def protocolErr_def statusM_def closeM_def sanitize_def door_commands
      door_words dest: close_reason_of_startOpen split: if_splits option.splits)
next
  case Opening
  then show ?thesis using assms
    by (cases "in_event inp") (auto simp: Apply_def doorTransition_def door_cells Let_def
      cancel_one_def reserve_one_def quiet_def protocolErr_def statusM_def closeM_def door_commands
      door_words word_gt_0 split: if_splits option.splits)
next
  case Open
  then show ?thesis using assms
    by (cases "in_event inp") (auto simp: Apply_def doorTransition_def door_cells Let_def
      reserve_one_def idleClose_def quiet_def protocolErr_def statusM_def closeM_def
      sanitize_def door_commands door_words
      dest: close_reason_of_startOpen split: if_splits option.splits)
qed (use assms in simp)

text \<open>
  Nobody's door is closed under them. An idle close, whichever state it leaves, is decided
  with no reservation left, and from the open state with no session left either; a hard-deadline
  close is decided at or after the deadline of the door, with no reservation pending, and leaves
  the live sessions counted.
\<close>

theorem idle_and_hard_close_safe:
  assumes "door_exec m call = (m', [c], e)" "mstate m \<noteq> Closing" "cmd_op c = ''door.close''"
  shows "(cmd_reason c = DoorCloseIdle \<longrightarrow>
           reservations m' = 0 \<and> (mstate m = Open \<longrightarrow> sessions m' = 0) \<and> mstate m \<in> {Opening, Open}) \<and>
         (cmd_reason c = DoorCloseHard \<longrightarrow>
           (\<exists>now. call = CallHardDeadline now \<and> hard_deadline (mdoor m) \<le> now) \<and>
           reservations m' = 0 \<and> mstate m = Open \<and> sessions m' = sessions m)"
proof (cases call)
  case (CallApply nd inp)
  then show ?thesis using assms close_reason_of_Apply [of nd m inp m' c e] by auto
qed (use assms in \<open>auto simp: FinishSession_def Recheck_def HardDeadline_def ForceClose_def
  idleClose_def closeM_def quiet_def statusM_def protocolErr_def Let_def door_commands door_words
  not_less split: if_splits door_state.splits\<close>)

theorem idle_and_hard_close_safe_witness:
  "\<exists>m'. door_exec (open_machine\<lparr>reservations := 0, sessions := 1\<rparr>) CallFinishSession =
       (m', [close_command ''d1'' DoorCloseIdle], None) \<and> reservations m' = 0 \<and> sessions m' = 0"
proof -
  let ?m = "open_machine\<lparr>reservations := 0, sessions := 1\<rparr>"
  let ?m' = "fst (door_exec ?m CallFinishSession)"
  have "door_exec ?m CallFinishSession = (?m', [close_command ''d1'' DoorCloseIdle], None)"
    "mstate ?m = Open"
    by (simp_all add: sample_runs FinishSession_def)
  then show ?thesis
    using idle_and_hard_close_safe [of ?m CallFinishSession ?m' "close_command ''d1'' DoorCloseIdle" None]
    by (auto simp: close_command_def)
qed

lemma startOpen_sessions [simp]: "sessions (fst (startOpen nd m)) = sessions m"
  by (auto simp: startOpen_def split: sum.split)

lemma sessions_of_Apply:
  assumes "sessions (fst (Apply nd m inp)) \<noteq> sessions m"
  shows "in_event inp = Success \<and> mstate m = Open \<and> mstate (fst (Apply nd m inp)) = Open \<and>
           reservations m > 0 \<and> sessions (fst (Apply nd m inp)) = sessions m + 1 \<and>
           reservations (fst (Apply nd m inp)) = reservations m - 1 \<or>
         in_event inp = TransportLost \<and> sessions (fst (Apply nd m inp)) = 0"
  using assms by (cases "mstate m"; cases "in_event inp")
    (auto simp: Apply_def doorTransition_def door_cells Let_def cancel_one_def reserve_one_def
      idleClose_def quiet_def protocolErr_def statusM_def closeM_def sanitize_def decrement_def
      word_neq_0_conv split: if_splits option.splits)

text \<open>
  The live-session counter moves only where a session starts or ends. A nested session
  starts in an open door by consuming one reservation, so reservations and sessions keep their
  sum; a session ends by FinishSession; a lost transport and a forced stop reset the counter.
  Every other call leaves it as it was.
\<close>

theorem session_accounting:
  assumes "door_exec m call = (m', cs, e)" "sessions m' \<noteq> sessions m"
  shows "(\<exists>nd inp. call = CallApply nd inp \<and> in_event inp = Success \<and> mstate m = Open \<and>
            mstate m' = Open \<and> reservations m > 0 \<and> sessions m' = sessions m + 1 \<and>
            reservations m' + sessions m' = reservations m + sessions m) \<or>
         (call = CallFinishSession \<and> sessions m > 0 \<and> sessions m' = sessions m - 1) \<or>
         (\<exists>nd inp. call = CallApply nd inp \<and> in_event inp = TransportLost \<and> sessions m' = 0) \<or>
         (call = CallForceClose \<and> mstate m \<in> {Opening, Open} \<and> sessions m' = 0 \<and> reservations m' = 0)"
proof (cases call)
  case (CallApply nd inp)
  then show ?thesis using assms sessions_of_Apply [of nd m inp] by auto
qed (use assms in \<open>auto simp: FinishSession_def Recheck_def HardDeadline_def ForceClose_def
  idleClose_def closeM_def quiet_def statusM_def protocolErr_def Let_def word_neq_0_conv
  split: if_splits door_state.splits\<close>)

theorem session_accounting_witness:
  "\<exists>m'. door_exec open_machine (CallApply (Inl '''') (sample_input Success)) = (m', [], None) \<and>
     reservations open_machine = 1 \<and> sessions open_machine = 0 \<and>
     sessions m' = 1 \<and> reservations m' + sessions m' = reservations open_machine + sessions open_machine"
proof -
  let ?c = "CallApply (Inl '''') (sample_input Success)"
  let ?m' = "fst (door_exec open_machine ?c)"
  have "door_exec open_machine ?c = (?m', [], None)" "sessions ?m' = 1"
    "sessions open_machine = 0" "reservations open_machine = 1"
    by (simp_all add: sample_runs nestedSuccess_def)
  then show ?thesis
    using session_accounting [of open_machine ?c ?m' "[]" None] by (auto simp: sample_input_def)
qed

lemma hex_digit_ok: "n < 16 \<Longrightarrow> i \<notin> {8, 13, 18, 23} \<Longrightarrow> door_id_byte_ok i (hex_digit n)"
  by (auto simp: door_id_byte_ok_def hex_digit_def less_Suc_eq numeral_eq_Suc less_eq_char_def)

lemma hex_encode_ok:
  "list_all (\<lambda>c. \<forall>i. i \<notin> {8, 13, 18, 23} \<longrightarrow> door_id_byte_ok i c) (hex_encode bs)"
  by (induction bs) (auto simp: hex_encode_def intro!: hex_digit_ok less_mult_imp_div_less unat_byte)

lemma validDoorID_grouped:
  assumes "length raw = 16"
  shows "validDoorID (take 8 (hex_encode raw) @ ''-'' @ take 4 (drop 8 (hex_encode raw)) @ ''-'' @
    take 4 (drop 12 (hex_encode raw)) @ ''-'' @ take 4 (drop 16 (hex_encode raw)) @ ''-'' @
    drop 20 (hex_encode raw))"
proof -
  let ?h = "hex_encode raw"
  have len: "length ?h = 32" by (simp add: assms)
  have h: "\<And>i k. k < 32 \<Longrightarrow> i \<noteq> 8 \<Longrightarrow> i \<noteq> 13 \<Longrightarrow> i \<noteq> 18 \<Longrightarrow> i \<noteq> 23 \<Longrightarrow> door_id_byte_ok i (?h ! k)"
    using hex_encode_ok [of raw] len by (auto simp: list_all_length)
  show ?thesis
    unfolding validDoorID_def list_all_length
    using len by (auto simp: nth_enumerate_eq nth_append nth_Cons' door_id_byte_ok_def [of _ "CHR ''-''"]
        intro!: h)
qed

text \<open>
  The identifiers the gateway generates pass the check its reconciliation applies to what a
  machine reports back: any 16 random bytes become a lower-case UUID that validDoorID accepts.
\<close>

theorem generated_id_valid:
  assumes "length raw = 16"
  shows "validDoorID (uuid_of_raw raw)"
  unfolding uuid_of_raw_def Let_def by (rule validDoorID_grouped) (simp add: assms)

theorem generated_id_valid_witness:
  "validDoorID (uuid_of_raw (replicate 16 255)) \<and>
   uuid_of_raw (replicate 16 255) = ''ffffffff-ffff-4fff-bfff-ffffffffffff''"
  using generated_id_valid [of "replicate 16 255"] by (simp, code_simp)

text \<open>
  C40. The default door source is captured before the default durations are filled in: with a
  configuration that leaves both at zero, NewMachine succeeds and reports usable durations, and
  yet no door the default source makes can ever be opened.
\<close>

theorem default_source_cannot_open:
  assumes "door_idle cfg = 0" "NewMachine cfg = Inr (m, Some captured, used)"
    and "defaultDoor captured now gen = Inr d"
  shows "door_idle used = 15 * minute \<and> startOpen (Inr d) m' = (m', [], Some InvalidGeneratedDoor)"
  using assms by (auto simp: NewMachine_def Let_def defaultDoor_def startOpen_def
      split: if_splits sum.splits)

theorem default_source_cannot_open_witness:
  "\<exists>used d. NewMachine \<lparr>door_idle = 0, door_hard = 0, has_new_door = False\<rparr> =
       Inr (fresh_machine, Some \<lparr>door_idle = 0, door_hard = 0, has_new_door = False\<rparr>, used) \<and>
     defaultDoor \<lparr>door_idle = 0, door_hard = 0, has_new_door = False\<rparr> 5
       (Inr (replicate 16 255, 7, ''ssh-ed25519 AAAA'')) = Inr d \<and>
     door_idle used = 15 * minute \<and>
     startOpen (Inr d) fresh_machine = (fresh_machine, [], Some InvalidGeneratedDoor)"
proof -
  let ?cfg = "\<lparr>door_idle = 0, door_hard = 0, has_new_door = False\<rparr>"
  have n: "\<exists>used. NewMachine ?cfg = Inr (fresh_machine, Some ?cfg, used)"
    by (simp add: NewMachine_def fresh_machine_def)
  have d: "\<exists>d. defaultDoor ?cfg 5 (Inr (replicate 16 255, 7, ''ssh-ed25519 AAAA'')) = Inr d"
    by (simp add: defaultDoor_def)
  from n d show ?thesis
    using default_source_cannot_open [of ?cfg fresh_machine ?cfg] by fastforce
qed

end
