(* ===== verification/Acl.thy ===== *)
theory Acl
  imports Prelude
begin

text \<open>
  The access engine of the gateway: \<open>internal/gateway/acl/acl.go\<close> and \<open>reason.go\<close>. One mutex
  covers every operation of the engine, so an operation is one atomic function of the engine
  state. The view of the gateway state is read anew on every decision and is an argument of
  the operations that read it. Go's \<open>int\<close> counters are unbounded here (a count of live
  sessions stays far below \<open>2^63\<close>); the session number is a 64-bit word and wraps as in the
  source. A callback is an opaque handle: the operations return the notifications that
  \<open>runNotes\<close> delivers, in order.
\<close>

section \<open>Reasons\<close>

datatype DenyReason =
    ReasonNone | DenyUnknownPerson | DenyUnknownMachine | DenyNoGrant | DenyGrantRevoked
  | DenyGrantExpired | DenyMachineUnverified | DenyMachineOffline | DenyPersonSessionLimit
  | DenyMachineSessionLimit | DenyMachineHostKeyMismatch | DenyMachineSSHDUnreachable
  | DenyMachineSSHAuthFailed | DenyKeyRemoved | DenyGrantChanged | DenyPersonRenamed
  | DenyAdminKilled

primrec denyText :: "DenyReason \<Rightarrow> string" where
  "denyText ReasonNone = ''''"
| "denyText DenyUnknownPerson = ''unknown person''"
| "denyText DenyUnknownMachine = ''unknown machine''"
| "denyText DenyNoGrant = ''no permission for this machine''"
| "denyText DenyGrantRevoked = ''access revoked by administrator''"
| "denyText DenyGrantExpired = ''access expired''"
| "denyText DenyMachineUnverified = ''machine is not verified''"
| "denyText DenyMachineOffline = ''machine is offline''"
| "denyText DenyPersonSessionLimit = ''too many active sessions for your account''"
| "denyText DenyMachineSessionLimit = ''too many active sessions on this machine''"
| "denyText DenyMachineHostKeyMismatch = ''machine sshd host key does not match the pinned key''"
| "denyText DenyMachineSSHDUnreachable = ''machine sshd is unreachable''"
| "denyText DenyMachineSSHAuthFailed = ''machine sshd rejected door key''"
| "denyText DenyKeyRemoved = ''the key this session was opened with was removed''"
| "denyText DenyGrantChanged = ''access changed by administrator''"
| "denyText DenyPersonRenamed = ''person renamed by administrator''"
| "denyText DenyAdminKilled = ''session ended by administrator''"

definition DenyError_Error :: "DenyReason \<Rightarrow> string" where
  "DenyError_Error r = ''acl: '' @ denyText r"

section \<open>Data\<close>

record acl_view =
  PersonExists :: "string \<Rightarrow> bool"
  MachineExists :: "string \<Rightarrow> bool"
  MachineVerified :: "string \<Rightarrow> bool"
  MachineOnline :: "string \<Rightarrow> bool"

text \<open>A \<open>*time.Time\<close> deadline: the instant, and whether its location is \<open>time.Local\<close>.\<close>

record deadline =
  d_time :: instant
  d_local :: bool

record grant =
  g_person :: string
  g_machine :: string
  g_until :: "deadline option"
  g_caps :: "string list"
  g_revokedAt :: "instant option"

definition HasUntil :: "grant \<Rightarrow> bool" where
  "HasUntil g \<longleftrightarrow> g_until g \<noteq> None"

definition IsUntilZero :: "grant \<Rightarrow> bool" where
  "IsUntilZero g = (case g_until g of None \<Rightarrow> False | Some d \<Rightarrow> isZero (d_time d))"

definition ExecOnly :: "grant \<Rightarrow> bool" where
  "ExecOnly g \<longleftrightarrow> g_caps g = [''exec'']"

record decision =
  allowed :: bool
  dec_reason :: DenyReason

record limits =
  PerPerson :: int
  PerMachine :: int

type_synonym session_id = "64 word"

definition SessionID_Valid :: "session_id \<Rightarrow> bool" where
  "SessionID_Valid i \<longleftrightarrow> i > 0"

definition SessionID_String :: "session_id \<Rightarrow> string" where
  "SessionID_String i =
     (if i = 0 then ''session:<invalid>'' else ''session:'' @ FormatUint (unat i))"

definition SessionID_MarshalJSON :: "session_id \<Rightarrow> string" where
  "SessionID_MarshalJSON i = (if i = 0 then ''null'' else FormatUint (unat i))"

record session =
  s_id :: session_id
  s_person :: string
  s_machine :: string
  s_openedAt :: instant
  s_execOnly :: bool

type_synonym callback = nat
type_synonym kill_note = "callback \<times> DenyReason"
type_synonym grant_key = "string \<times> string"

record live_session =
  ls_session :: session
  ls_onRevoke :: "callback option"

record engine =
  e_limits :: limits
  e_grants :: "(grant_key, grant) gomap"
  e_sessions :: "(session_id, live_session) gomap"
  e_nextID :: "64 word"
  e_perPerson :: "(string, int) gomap"
  e_perMachine :: "(string, int) gomap"

datatype acl_error =
    ViewRequired | NegativeLimit | NoPerson | NoMachine | ZeroDeadline | LocalDeadline
  | PastDeadline | BadCaps | ErrNoGrant | DenyError DenyReason | BadSessionID

section \<open>Operations\<close>

definition NewEngine :: "acl_view option \<Rightarrow> limits \<Rightarrow> acl_error + engine" where
  "NewEngine v lim =
     (if v = None then Inl ViewRequired
      else if PerPerson lim < 0 \<or> PerMachine lim < 0 then Inl NegativeLimit
      else Inr \<lparr>e_limits = lim, e_grants = [], e_sessions = [], e_nextID = 0,
                 e_perPerson = [], e_perMachine = []\<rparr>)"

definition validateGrant :: "grant \<Rightarrow> instant \<Rightarrow> acl_error option" where
  "validateGrant g issuedAt =
     (let caps = (if length (g_caps g) \<noteq> 1 \<or> (g_caps g ! 0 \<noteq> ''shell'' \<and> g_caps g ! 0 \<noteq> ''exec'')
                  then Some BadCaps else None)
      in if g_person g = '''' then Some NoPerson
         else if g_machine g = '''' then Some NoMachine
         else case g_until g of
             None \<Rightarrow> caps
           | Some d \<Rightarrow>
               if IsUntilZero g then Some ZeroDeadline
               else if d_local d then Some LocalDeadline
               else if \<not> d_time d > issuedAt then Some PastDeadline
               else caps)"

definition AddGrant :: "engine \<Rightarrow> grant \<Rightarrow> instant \<Rightarrow> engine \<times> acl_error option" where
  "AddGrant e g issuedAt = (case validateGrant g issuedAt of
      Some err \<Rightarrow> (e, Some err)
    | None \<Rightarrow> (e\<lparr>e_grants := gm_put (g_person g, g_machine g) g (e_grants e)\<rparr>, None))"

definition kill_one :: "engine \<Rightarrow> session_id \<Rightarrow> live_session \<Rightarrow> engine" where
  "kill_one e i ls =
     e\<lparr>e_sessions := gm_del i (e_sessions e),
       e_perPerson := gm_decr (s_person (ls_session ls)) (e_perPerson e),
       e_perMachine := gm_decr (s_machine (ls_session ls)) (e_perMachine e)\<rparr>"

fun killLocked :: "engine \<Rightarrow> session_id list \<Rightarrow> DenyReason \<Rightarrow> engine \<times> kill_note list" where
  "killLocked e [] why = (e, [])"
| "killLocked e (i # is) why = (case gm_get (e_sessions e) i of
      None \<Rightarrow> killLocked e is why
    | Some ls \<Rightarrow>
        (case killLocked (kill_one e i ls) is why of (e', notes) \<Rightarrow>
           (e', (case ls_onRevoke ls of None \<Rightarrow> notes | Some cb \<Rightarrow> (cb, why) # notes))))"

definition RevokeBecause ::
  "engine \<Rightarrow> string \<Rightarrow> string \<Rightarrow> instant \<Rightarrow> DenyReason \<Rightarrow>
     engine \<times> kill_note list \<times> (acl_error + nat)" where
  "RevokeBecause e person mach now why = (case gm_get (e_grants e) (person, mach) of
      None \<Rightarrow> (e, [], Inl ErrNoGrant)
    | Some g \<Rightarrow>
        let g1 = (if g_revokedAt g = None then g\<lparr>g_revokedAt := Some now\<rparr> else g);
            e1 = e\<lparr>e_grants := gm_put (person, mach) g1 (e_grants e)\<rparr>;
            ids = map fst (filter (\<lambda>(i, ls). s_person (ls_session ls) = person \<and>
                                             s_machine (ls_session ls) = mach) (e_sessions e1))
        in case killLocked e1 ids why of (e2, notes) \<Rightarrow> (e2, notes, Inr (length ids)))"

definition Revoke ::
  "engine \<Rightarrow> string \<Rightarrow> string \<Rightarrow> instant \<Rightarrow> engine \<times> kill_note list \<times> (acl_error + nat)" where
  "Revoke e person mach now = RevokeBecause e person mach now DenyGrantRevoked"

definition grant_expired :: "grant \<Rightarrow> instant \<Rightarrow> bool" where
  "grant_expired g now = (case g_until g of None \<Rightarrow> False | Some d \<Rightarrow> \<not> now < d_time d)"

definition checkLocked :: "acl_view \<Rightarrow> engine \<Rightarrow> string \<Rightarrow> string \<Rightarrow> instant \<Rightarrow> DenyReason" where
  "checkLocked v e person mach now =
     (if \<not> PersonExists v person then DenyUnknownPerson
      else if \<not> MachineExists v mach then DenyUnknownMachine
      else case gm_get (e_grants e) (person, mach) of
          None \<Rightarrow> DenyNoGrant
        | Some g \<Rightarrow>
            if g_revokedAt g \<noteq> None then DenyGrantRevoked
            else if grant_expired g now then DenyGrantExpired
            else if \<not> MachineVerified v mach then DenyMachineUnverified
            else if \<not> MachineOnline v mach then DenyMachineOffline
            else if PerPerson (e_limits e) > 0 \<and>
                    gm_count (e_perPerson e) person \<ge> PerPerson (e_limits e)
                 then DenyPersonSessionLimit
            else if PerMachine (e_limits e) > 0 \<and>
                    gm_count (e_perMachine e) mach \<ge> PerMachine (e_limits e)
                 then DenyMachineSessionLimit
            else ReasonNone)"

definition Check :: "acl_view \<Rightarrow> engine \<Rightarrow> string \<Rightarrow> string \<Rightarrow> instant \<Rightarrow> decision" where
  "Check v e person mach now =
     (let reason = checkLocked v e person mach now
      in if reason \<noteq> ReasonNone then \<lparr>allowed = False, dec_reason = reason\<rparr>
         else \<lparr>allowed = True, dec_reason = ReasonNone\<rparr>)"

definition next_id :: "64 word \<Rightarrow> 64 word" where
  "next_id n = (if n + 1 = 0 then 1 else n + 1)"

text \<open>
  The grant lookup after the check reads a key that the check found present; the source
  would dereference a nil pointer otherwise, which \<open>checkLocked\<close> rules out.
\<close>

definition OpenSession ::
  "acl_view \<Rightarrow> engine \<Rightarrow> string \<Rightarrow> string \<Rightarrow> instant \<Rightarrow> callback option \<Rightarrow>
     engine \<times> (acl_error + session)" where
  "OpenSession v e person mach now onRevoke =
     (let reason = checkLocked v e person mach now
      in if reason \<noteq> ReasonNone then (e, Inl (DenyError reason))
         else let n = next_id (e_nextID e);
                  g = the (gm_get (e_grants e) (person, mach));
                  s = \<lparr>s_id = n, s_person = person, s_machine = mach, s_openedAt = now,
                        s_execOnly = ExecOnly g\<rparr>
              in (e\<lparr>e_nextID := n,
                    e_sessions := gm_put n \<lparr>ls_session = s, ls_onRevoke = onRevoke\<rparr> (e_sessions e),
                    e_perPerson := gm_incr person (e_perPerson e),
                    e_perMachine := gm_incr mach (e_perMachine e)\<rparr>, Inr s))"

definition Close :: "engine \<Rightarrow> session_id \<Rightarrow> instant \<Rightarrow> engine \<times> bool" where
  "Close e i now =
     (if \<not> SessionID_Valid i then (e, False)
      else let alive = gm_get (e_sessions e) i \<noteq> None
           in (if alive then fst (killLocked e [i] ReasonNone) else e, alive))"

definition SweepExpired :: "engine \<Rightarrow> instant \<Rightarrow> engine \<times> kill_note list \<times> nat" where
  "SweepExpired e now =
     (let grant_of = (\<lambda>ls. gm_get (e_grants e) (s_person (ls_session ls), s_machine (ls_session ls)));
          revokedIDs = map fst (filter (\<lambda>(i, ls). case grant_of ls of None \<Rightarrow> False
             | Some g \<Rightarrow> g_revokedAt g \<noteq> None) (e_sessions e));
          expiredIDs = map fst (filter (\<lambda>(i, ls). case grant_of ls of None \<Rightarrow> False
             | Some g \<Rightarrow> g_revokedAt g = None \<and> grant_expired g now) (e_sessions e))
      in case killLocked e revokedIDs DenyGrantRevoked of (e1, notes1) \<Rightarrow>
         (case killLocked e1 expiredIDs DenyGrantExpired of (e2, notes2) \<Rightarrow>
            (e2, notes1 @ notes2, length revokedIDs + length expiredIDs)))"

definition ParseSessionID :: "string \<Rightarrow> acl_error + session_id" where
  "ParseSessionID s =
     (if take 8 s \<noteq> ''session:'' then Inl BadSessionID
      else let rawNum = drop 8 s
           in case ParseUint64 rawNum of
                None \<Rightarrow> Inl BadSessionID
              | Some n \<Rightarrow> if n = 0 \<or> FormatUint n \<noteq> rawNum then Inl BadSessionID
                         else Inr (of_nat n))"

definition Sessions :: "engine \<Rightarrow> session list" where
  "Sessions e = map (\<lambda>(i, ls). ls_session ls) (e_sessions e)"

definition Kill ::
  "engine \<Rightarrow> session_id \<Rightarrow> instant \<Rightarrow> DenyReason \<Rightarrow> engine \<times> kill_note list \<times> bool" where
  "Kill e i now reason =
     (if \<not> SessionID_Valid i then (e, [], False)
      else let alive = gm_get (e_sessions e) i \<noteq> None
           in if alive then (case killLocked e [i] reason of (e1, notes) \<Rightarrow> (e1, notes, alive))
              else (e, [], alive))"

definition SessionCounts :: "engine \<Rightarrow> (string, int) gomap \<times> (string, int) gomap" where
  "SessionCounts e = (e_perPerson e, e_perMachine e)"

definition GrantsFor :: "acl_view \<Rightarrow> engine \<Rightarrow> string \<Rightarrow> instant \<Rightarrow> grant list" where
  "GrantsFor v e person now =
     (if \<not> PersonExists v person then []
      else sort_key g_machine (map snd (filter (\<lambda>((p, m), g).
             p = person \<and> g_revokedAt g = None \<and> \<not> grant_expired g now \<and> MachineExists v m)
           (e_grants e))))"

text \<open>One call of the engine's mutating surface, and the step relation of its runs.\<close>

datatype acl_call =
    CallAddGrant grant instant
  | CallRevoke string string instant DenyReason
  | CallOpen acl_view string string instant "callback option"
  | CallClose session_id instant
  | CallSweep instant
  | CallKill session_id instant DenyReason

fun acl_exec :: "engine \<Rightarrow> acl_call \<Rightarrow> engine \<times> kill_note list" where
  "acl_exec e (CallAddGrant g t) = (fst (AddGrant e g t), [])"
| "acl_exec e (CallRevoke p m t why) = (case RevokeBecause e p m t why of (e', notes, _) \<Rightarrow> (e', notes))"
| "acl_exec e (CallOpen v p m t cb) = (fst (OpenSession v e p m t cb), [])"
| "acl_exec e (CallClose i t) = (fst (Close e i t), [])"
| "acl_exec e (CallSweep t) = (case SweepExpired e t of (e', notes, _) \<Rightarrow> (e', notes))"
| "acl_exec e (CallKill i t why) = (case Kill e i t why of (e', notes, _) \<Rightarrow> (e', notes))"

definition acl_init :: "engine \<Rightarrow> bool" where
  "acl_init e \<longleftrightarrow> (\<exists>v lim. NewEngine v lim = Inr e)"

text \<open>
  A step is one call made while the 64-bit session counter has not been exhausted: past
  \<open>2^64 - 1\<close> sessions the counter wraps and a number could be issued twice.
\<close>

definition acl_step :: "engine \<Rightarrow> engine \<Rightarrow> bool" where
  "acl_step e e' \<longleftrightarrow> (\<exists>call notes. acl_exec e call = (e', notes) \<and> e_nextID e \<noteq> - 1)"

section \<open>The invariant\<close>

text \<open>
  \<open>live_by f e k\<close> counts the live sessions whose field \<open>f\<close> (person or machine) is \<open>k\<close>: the
  specification of the two counter maps.
\<close>

definition live_by :: "(session \<Rightarrow> string) \<Rightarrow> engine \<Rightarrow> string \<Rightarrow> nat" where
  "live_by f e k = length (filter (\<lambda>(i, ls). f (ls_session ls) = k) (e_sessions e))"

definition session_ok :: "engine \<Rightarrow> session_id \<Rightarrow> live_session \<Rightarrow> bool" where
  "session_ok e i ls \<longleftrightarrow> s_id (ls_session ls) = i \<and> 0 < i \<and> i \<le> e_nextID e \<and>
     gm_get (e_grants e) (s_person (ls_session ls), s_machine (ls_session ls)) \<noteq> None"

definition acl_inv :: "engine \<Rightarrow> bool" where
  "acl_inv e \<longleftrightarrow>
     gm_wf (e_grants e) \<and> gm_wf (e_sessions e) \<and>
     gm_counts (e_perPerson e) (live_by s_person e) \<and>
     gm_counts (e_perMachine e) (live_by s_machine e) \<and>
     (\<forall>(i, ls) \<in> set (e_sessions e). session_ok e i ls) \<and>
     (\<forall>((p, m), g) \<in> set (e_grants e). g_person g = p \<and> g_machine g = m) \<and>
     (PerPerson (e_limits e) > 0 \<longrightarrow> (\<forall>p. int (live_by s_person e p) \<le> PerPerson (e_limits e))) \<and>
     (PerMachine (e_limits e) > 0 \<longrightarrow> (\<forall>m. int (live_by s_machine e m) \<le> PerMachine (e_limits e)))"

lemma length_filter_del:
  "gm_wf m \<Longrightarrow> gm_get m i = Some v \<Longrightarrow>
   length (filter P m) = length (filter P (gm_del i m)) + (if P (i, v) then 1 else 0)"
proof (induction m)
  case (Cons kv m)
  then show ?case
    by (cases kv) (auto simp: gm_wf_def gm_del_id map_of_eq_None_iff)
qed simp

lemma kill_one_fields [simp]:
  "e_grants (kill_one e i ls) = e_grants e" "e_limits (kill_one e i ls) = e_limits e"
  "e_nextID (kill_one e i ls) = e_nextID e" "e_sessions (kill_one e i ls) = gm_del i (e_sessions e)"
  by (simp_all add: kill_one_def)

lemma session_ok_kill_one [simp]: "session_ok (kill_one e i ls) j l = session_ok e j l"
  by (simp add: session_ok_def)

lemma live_by_kill_one:
  assumes "gm_wf (e_sessions e)" "gm_get (e_sessions e) i = Some ls"
  shows "live_by f (kill_one e i ls) =
    (live_by f e)(f (ls_session ls) := live_by f e (f (ls_session ls)) - 1)"
  using length_filter_del [OF assms] by (auto simp: live_by_def fun_eq_iff)

lemma acl_inv_kill_one:
  assumes "acl_inv e" "gm_get (e_sessions e) i = Some ls"
  shows "acl_inv (kill_one e i ls)"
proof -
  have wf: "gm_wf (e_sessions e)" using assms(1) by (simp add: acl_inv_def)
  have le: "live_by f (kill_one e i ls) k \<le> live_by f e k" for f k
    using length_filter_del [OF wf assms(2)] by (simp add: live_by_def)
  have cnt: "gm_counts (e_perPerson (kill_one e i ls)) (live_by s_person (kill_one e i ls))"
    "gm_counts (e_perMachine (kill_one e i ls)) (live_by s_machine (kill_one e i ls))"
    using assms(1) live_by_kill_one [OF wf assms(2)]
    by (simp_all add: acl_inv_def kill_one_def gm_counts_decr)
  show ?thesis
    using assms(1) cnt order_trans [OF le [THEN of_nat_mono, where ?'a = int]]
    by (auto simp: acl_inv_def AList.delete_eq)
qed

lemma acl_inv_killLocked: "acl_inv e \<Longrightarrow> acl_inv (fst (killLocked e is why))"
  by (induction e "is" why rule: killLocked.induct)
    (auto simp: acl_inv_kill_one split: option.splits prod.splits)

lemma killLocked_fields [simp]:
  "e_grants (fst (killLocked e is why)) = e_grants e"
  "e_limits (fst (killLocked e is why)) = e_limits e"
  "e_nextID (fst (killLocked e is why)) = e_nextID e"
  by (induction e "is" why rule: killLocked.induct) (simp_all add: case_prod_beta split: option.splits)

lemma killLocked_sessions:
  "e_sessions (fst (killLocked e is why)) = filter (\<lambda>(i, ls). i \<notin> set is) (e_sessions e)"
proof (induction e "is" why rule: killLocked.induct)
  case (2 e i "is" why)
  show ?case
  proof (cases "gm_get (e_sessions e) i")
    case None
    then have "\<forall>x \<in> set (e_sessions e). fst x \<noteq> i" by (auto simp: map_of_eq_None_iff)
    with 2 None show ?thesis by (auto intro!: filter_cong)
  next
    case (Some ls)
    then show ?thesis
      using 2(2) by (auto simp: AList.delete_eq split: prod.splits intro!: filter_cong)
  qed
qed auto

definition note_of :: "engine \<Rightarrow> DenyReason \<Rightarrow> session_id \<Rightarrow> kill_note list" where
  "note_of e why i = (case gm_get (e_sessions e) i of None \<Rightarrow> []
     | Some ls \<Rightarrow> (case ls_onRevoke ls of None \<Rightarrow> [] | Some cb \<Rightarrow> [(cb, why)]))"

lemma killLocked_notes:
  "distinct is \<Longrightarrow> snd (killLocked e is why) = concat (map (note_of e why) is)"
proof (induction e "is" why rule: killLocked.induct)
  case (2 e i "is" why)
  have same: "map (note_of (kill_one e i ls) why) is = map (note_of e why) is" for ls
    using 2(3) by (auto simp: note_of_def)
  show ?case
  proof (cases "gm_get (e_sessions e) i")
    case None
    then show ?thesis using 2(1,3) by (simp add: note_of_def [of e why i])
  next
    case (Some ls)
    then show ?thesis using 2(2) [OF Some] 2(3) same [of ls]
      by (simp add: note_of_def [of e why i] case_prod_beta split: option.split)
  qed
qed simp

lemma acl_inv_put_grant:
  assumes "acl_inv e" "g_person g = p" "g_machine g = m"
  shows "acl_inv (e\<lparr>e_grants := gm_put (p, m) g (e_grants e)\<rparr>)"
proof -
  let ?e = "e\<lparr>e_grants := gm_put (p, m) g (e_grants e)\<rparr>"
  have "live_by f ?e = live_by f e" for f by (simp add: live_by_def fun_eq_iff)
  moreover have "session_ok e i ls \<Longrightarrow> session_ok ?e i ls" for i ls
    by (auto simp: session_ok_def)
  moreover have "\<forall>((p, m), g) \<in> set (e_grants ?e). g_person g = p \<and> g_machine g = m"
  proof clarify
    fix p' m' g' assume x: "((p', m'), g') \<in> set (e_grants ?e)"
    have inv: "gm_wf (e_grants e)" "\<forall>((p, m), g) \<in> set (e_grants e). g_person g = p \<and> g_machine g = m"
      using assms(1) by (simp_all add: acl_inv_def)
    have "((p', m'), g') = ((p, m), g) \<or> ((p', m'), g') \<in> set (e_grants e)"
      by (rule gm_put_mem) (use x inv(1) in simp_all)
    with inv(2) assms(2,3) show "g_person g' = p' \<and> g_machine g' = m'" by auto
  qed
  moreover have "gm_wf (e_grants ?e)" using assms(1) by (simp add: acl_inv_def)
  ultimately show ?thesis using assms(1) unfolding acl_inv_def by auto
qed

lemma acl_inv_AddGrant: "acl_inv e \<Longrightarrow> acl_inv (fst (AddGrant e g t))"
  by (simp add: AddGrant_def acl_inv_put_grant split: option.split)

lemma acl_inv_grant_key:
  "acl_inv e \<Longrightarrow> gm_get (e_grants e) (p, m) = Some g \<Longrightarrow> g_person g = p \<and> g_machine g = m"
  by (drule map_of_SomeD) (auto simp: acl_inv_def)

text \<open>
  What an allowed check means, and the one step that adds a session. The next number is
  fresh because every live number is at most the last one issued.
\<close>

lemma check_allows_iff:
  "checkLocked v e p m now = ReasonNone \<longleftrightarrow>
     PersonExists v p \<and> MachineExists v m \<and>
     (\<exists>g. gm_get (e_grants e) (p, m) = Some g \<and> g_revokedAt g = None \<and> \<not> grant_expired g now) \<and>
     MachineVerified v m \<and> MachineOnline v m \<and>
     (PerPerson (e_limits e) > 0 \<longrightarrow> gm_count (e_perPerson e) p < PerPerson (e_limits e)) \<and>
     (PerMachine (e_limits e) > 0 \<longrightarrow> gm_count (e_perMachine e) m < PerMachine (e_limits e))"
  by (auto simp: checkLocked_def split: option.splits)

lemma next_id_fresh:
  assumes "acl_inv e" "e_nextID e \<noteq> - 1"
  shows "next_id (e_nextID e) = e_nextID e + 1" "e_nextID e < next_id (e_nextID e)"
    "gm_get (e_sessions e) (next_id (e_nextID e)) = None"
proof -
  have nz: "e_nextID e + 1 \<noteq> 0" using word_inc_pos [OF assms(2)] by simp
  then show eq: "next_id (e_nextID e) = e_nextID e + 1" by (simp add: next_id_def)
  show lt: "e_nextID e < next_id (e_nextID e)"
    unfolding eq using assms(2) by (rule word_less_inc)
  show "gm_get (e_sessions e) (next_id (e_nextID e)) = None"
    using assms(1) lt by (fastforce simp: acl_inv_def session_ok_def map_of_eq_None_iff)
qed

lemma OpenSession_denied:
  "checkLocked v e p m now \<noteq> ReasonNone \<Longrightarrow>
   OpenSession v e p m now cb = (e, Inl (DenyError (checkLocked v e p m now)))"
  by (simp add: OpenSession_def)

lemma OpenSession_allowed:
  assumes "acl_inv e" "e_nextID e \<noteq> - 1" "checkLocked v e p m now = ReasonNone"
    "gm_get (e_grants e) (p, m) = Some g"
  shows "OpenSession v e p m now cb =
    (e\<lparr>e_nextID := e_nextID e + 1,
       e_sessions := e_sessions e @ [(e_nextID e + 1, \<lparr>ls_session = \<lparr>s_id = e_nextID e + 1, s_person = p,
         s_machine = m, s_openedAt = now, s_execOnly = ExecOnly g\<rparr>, ls_onRevoke = cb\<rparr>)],
       e_perPerson := gm_incr p (e_perPerson e), e_perMachine := gm_incr m (e_perMachine e)\<rparr>,
     Inr \<lparr>s_id = e_nextID e + 1, s_person = p, s_machine = m, s_openedAt = now, s_execOnly = ExecOnly g\<rparr>)"
  using assms next_id_fresh [OF assms(1,2)]
  by (simp add: OpenSession_def Let_def gm_put_fresh)

lemma acl_inv_OpenSession:
  assumes "acl_inv e" "e_nextID e \<noteq> - 1"
  shows "acl_inv (fst (OpenSession v e p m now cb))"
proof (cases "checkLocked v e p m now = ReasonNone")
  case True
  then obtain g where g: "gm_get (e_grants e) (p, m) = Some g"
    by (auto simp: check_allows_iff)
  let ?e = "fst (OpenSession v e p m now cb)"
  note eq = OpenSession_allowed [OF assms True g]
  have cnt: "live_by s_person ?e = (live_by s_person e)(p := Suc (live_by s_person e p))"
    "live_by s_machine ?e = (live_by s_machine e)(m := Suc (live_by s_machine e m))"
    by (auto simp: eq live_by_def fun_eq_iff)
  have full: "PerPerson (e_limits e) > 0 \<Longrightarrow> int (live_by s_person e p) < PerPerson (e_limits e)"
    "PerMachine (e_limits e) > 0 \<Longrightarrow> int (live_by s_machine e m) < PerMachine (e_limits e)"
    using True assms(1) by (auto simp: check_allows_iff acl_inv_def gm_counts_count)
  have ok: "session_ok ?e i ls" if "(i, ls) \<in> set (e_sessions e)" for i ls
    using that assms(1) word_less_inc [OF assms(2)] by (fastforce simp: eq acl_inv_def session_ok_def)
  have new: "session_ok ?e (e_nextID e + 1) ls" if "ls_session ls = \<lparr>s_id = e_nextID e + 1, s_person = p,
      s_machine = m, s_openedAt = now, s_execOnly = ExecOnly g\<rparr>" for ls
    using that g word_inc_pos [OF assms(2)] by (simp add: eq session_ok_def)
  have "e_nextID e + 1 \<notin> fst ` set (e_sessions e)"
    using next_id_fresh [OF assms] by (simp add: map_of_eq_None_iff)
  then have wf: "gm_wf (e_sessions ?e)" using assms(1) by (simp add: eq acl_inv_def gm_wf_def)
  show ?thesis
    unfolding acl_inv_def cnt
    using assms(1) wf ok new full gm_counts_incr by (fastforce simp: acl_inv_def eq)
qed (use assms in \<open>simp add: OpenSession_denied\<close>)

lemma acl_inv_RevokeBecause: "acl_inv e \<Longrightarrow> acl_inv (fst (RevokeBecause e p m now why))"
  by (auto simp: RevokeBecause_def Let_def case_prod_beta intro!: acl_inv_killLocked acl_inv_put_grant
      dest: acl_inv_grant_key split: option.split)

lemma acl_inv_exec:
  assumes "acl_inv e" "e_nextID e \<noteq> - 1"
  shows "acl_inv (fst (acl_exec e call))"
  using assms by (cases call) (auto simp: case_prod_beta acl_inv_AddGrant acl_inv_RevokeBecause
      acl_inv_OpenSession Close_def SweepExpired_def Kill_def Let_def
      intro!: acl_inv_killLocked acl_inv_kill_one)

lemma acl_init_inv: "acl_init e \<Longrightarrow> acl_inv e"
proof -
  assume "acl_init e"
  then have "e_sessions e = []" "e_grants e = []" "e_perPerson e = []" "e_perMachine e = []"
    by (auto simp: acl_init_def NewEngine_def split: if_splits)
  moreover from this have "live_by f e = (\<lambda>k. 0)" for f by (simp add: live_by_def fun_eq_iff)
  ultimately show ?thesis by (simp add: acl_inv_def)
qed

interpretation acl: inv_system acl_init acl_step acl_inv
proof unfold_locales
  show "acl_init e \<Longrightarrow> acl_inv e" for e by (rule acl_init_inv)
  show "acl_inv e \<Longrightarrow> acl_step e e' \<Longrightarrow> acl_inv e'" for e e'
    using acl_inv_exec by (metis acl_step_def fst_conv)
qed

section \<open>Killing by a predicate\<close>

text \<open>
  Revocation and sweep kill the sessions a predicate selects. On a well-formed engine that is
  a filter of the session map, the notifications are the callbacks of the selected sessions in
  order, and the number is their count.
\<close>

lemma filter_not_selected:
  "gm_wf m \<Longrightarrow> filter (\<lambda>(i, v). i \<notin> fst ` {x \<in> set m. P x}) m = filter (\<lambda>x. \<not> P x) m"
  by (rule filter_cong) (force simp: gm_wf_def distinct_map inj_on_def)+

lemma kill_selected_sessions:
  "gm_wf (e_sessions e) \<Longrightarrow>
   e_sessions (fst (killLocked e (map fst (filter P (e_sessions e))) why)) =
     filter (\<lambda>x. \<not> P x) (e_sessions e)"
  by (simp add: killLocked_sessions filter_not_selected)

lemma concat_notes:
  "(\<And>i ls. (i, ls) \<in> set m \<Longrightarrow> gm_get (e_sessions e) i = Some ls) \<Longrightarrow>
   concat (map (\<lambda>x. note_of e why (fst x)) (filter P m)) =
     map (\<lambda>cb. (cb, why)) (List.map_filter (\<lambda>(i, ls). ls_onRevoke ls) (filter P m))"
proof (induction m)
  case (Cons x m)
  obtain i ls where x: "x = (i, ls)" by force
  have "note_of e why i = (case ls_onRevoke ls of None \<Rightarrow> [] | Some cb \<Rightarrow> [(cb, why)])"
    using Cons(2) [of i ls] x by (simp add: note_of_def)
  moreover have "concat (map (\<lambda>x. note_of e why (fst x)) (filter P m)) =
     map (\<lambda>cb. (cb, why)) (List.map_filter (\<lambda>(i, ls). ls_onRevoke ls) (filter P m))"
    using Cons by simp
  ultimately show ?case by (simp add: x split: option.split)
qed simp

lemma kill_selected_notes:
  assumes "gm_wf (e_sessions e)"
  shows "snd (killLocked e (map fst (filter P (e_sessions e))) why) =
    map (\<lambda>cb. (cb, why)) (List.map_filter (\<lambda>(i, ls). ls_onRevoke ls) (filter P (e_sessions e)))"
proof -
  have "distinct (map fst (filter P (e_sessions e)))"
    using assms by (simp add: gm_wf_def distinct_map_filter)
  then show ?thesis
    using concat_notes [of "e_sessions e" e why P] gm_get_iff [OF assms]
    by (simp add: killLocked_notes comp_def)
qed

definition of_pair :: "string \<Rightarrow> string \<Rightarrow> session \<Rightarrow> bool" where
  "of_pair p m s \<longleftrightarrow> s_person s = p \<and> s_machine s = m"

lemma Sessions_filter:
  "e_sessions e' = filter (\<lambda>x. \<not> P (ls_session (snd x))) (e_sessions e) \<Longrightarrow>
   Sessions e' = filter (\<lambda>s. \<not> P s) (Sessions e)"
  by (simp add: Sessions_def filter_map comp_def case_prod_unfold)

lemma acl_inv_wf: "acl_inv e \<Longrightarrow> gm_wf (e_sessions e)"
  by (simp add: acl_inv_def)

text \<open>A pair whose grant is revoked: no call but a new grant for the pair changes that.\<close>

definition revoked_pair :: "engine \<Rightarrow> string \<Rightarrow> string \<Rightarrow> bool" where
  "revoked_pair e p m \<longleftrightarrow> (\<exists>g. gm_get (e_grants e) (p, m) = Some g \<and> g_revokedAt g \<noteq> None)"

definition regrants :: "string \<Rightarrow> string \<Rightarrow> acl_call \<Rightarrow> bool" where
  "regrants p m call = (case call of CallAddGrant g t \<Rightarrow> g_person g = p \<and> g_machine g = m | _ \<Rightarrow> False)"

definition acl_run :: "engine \<Rightarrow> acl_call list \<Rightarrow> engine" where
  "acl_run e calls = foldl (\<lambda>e c. fst (acl_exec e c)) e calls"

lemma revoked_not_allowed: "revoked_pair e p m \<Longrightarrow> checkLocked v e p m now \<noteq> ReasonNone"
  by (auto simp: revoked_pair_def check_allows_iff)

lemma revoked_pair_exec:
  "revoked_pair e p m \<Longrightarrow> \<not> regrants p m call \<Longrightarrow> revoked_pair (fst (acl_exec e call)) p m"
  by (cases call) (auto simp: revoked_pair_def regrants_def AddGrant_def RevokeBecause_def
      OpenSession_def Close_def SweepExpired_def Kill_def Let_def case_prod_beta split: option.splits)

definition no_live :: "string \<Rightarrow> string \<Rightarrow> engine \<Rightarrow> bool" where
  "no_live p m e \<longleftrightarrow> (\<forall>x \<in> set (e_sessions e). \<not> of_pair p m (ls_session (snd x)))"

lemma no_live_killLocked: "no_live p m e \<Longrightarrow> no_live p m (fst (killLocked e is why))"
  by (auto simp: no_live_def killLocked_sessions)

lemma set_gm_put: "set (gm_put k v m) \<subseteq> insert (k, v) (set m)"
  by (induction m) (auto split: if_splits)

lemma no_live_OpenSession:
  assumes "no_live p m e" "revoked_pair e p m"
  shows "no_live p m (fst (OpenSession v e p' m' now cb))"
proof (cases "checkLocked v e p' m' now = ReasonNone")
  case True
  then have "(p', m') \<noteq> (p, m)" using revoked_not_allowed [OF assms(2)] by blast
  then show ?thesis
    using assms(1) True set_gm_put by (fastforce simp: no_live_def of_pair_def OpenSession_def Let_def)
qed (simp add: OpenSession_denied assms)

lemma no_live_exec:
  assumes "no_live p m e" "revoked_pair e p m"
  shows "no_live p m (fst (acl_exec e call))"
proof (cases call)
  case (CallRevoke p' m' t why)
  then show ?thesis
    using assms(1) no_live_killLocked [of p m "e\<lparr>e_grants := x\<rparr>" for x]
    by (auto simp: RevokeBecause_def Let_def case_prod_beta no_live_def split: option.split)
next
  case (CallAddGrant g t)
  then show ?thesis using assms(1) by (simp add: AddGrant_def no_live_def split: option.split)
next
  case (CallOpen v p' m' t cb)
  then show ?thesis using assms by (simp add: no_live_OpenSession)
qed (use no_live_killLocked assms(1) in \<open>simp_all add: Close_def SweepExpired_def Kill_def Let_def
  case_prod_beta del: killLocked.simps\<close>)

lemma revoked_run:
  assumes "revoked_pair e p m" "no_live p m e" "\<forall>c \<in> set calls. \<not> regrants p m c"
  shows "revoked_pair (acl_run e calls) p m \<and> no_live p m (acl_run e calls)"
  using assms by (induction calls arbitrary: e)
    (auto simp: acl_run_def revoked_pair_exec no_live_exec)

section \<open>Properties\<close>

text \<open>
  C2. The live-session counters are exact and the limits are never exceeded: in every
  reachable engine the counter of a person (of a machine) is the number of live sessions of
  that person (on that machine), a zero count has no entry, and under a positive limit the
  number of live sessions never passes it, whatever the interleaving of opens, closes, kills,
  revocations and sweeps.
\<close>

theorem acl_counters_exact:
  assumes "reachable acl_init acl_step e"
  shows "gm_count (e_perPerson e) p = int (length (filter (\<lambda>s. s_person s = p) (Sessions e))) \<and>
         gm_count (e_perMachine e) m = int (length (filter (\<lambda>s. s_machine s = m) (Sessions e))) \<and>
         (PerPerson (e_limits e) > 0 \<longrightarrow>
            int (length (filter (\<lambda>s. s_person s = p) (Sessions e))) \<le> PerPerson (e_limits e)) \<and>
         (PerMachine (e_limits e) > 0 \<longrightarrow>
            int (length (filter (\<lambda>s. s_machine s = m) (Sessions e))) \<le> PerMachine (e_limits e)) \<and>
         (gm_get (e_perPerson e) p = None \<longleftrightarrow> (\<forall>s \<in> set (Sessions e). s_person s \<noteq> p))"
proof -
  have inv: "acl_inv e" using assms by (rule acl.reachable_inv)
  have live: "length (filter (\<lambda>s. f s = k) (Sessions e)) = live_by f e k" for f k
    by (simp add: Sessions_def live_by_def filter_map comp_def case_prod_unfold)
  have "live_by s_person e p = 0 \<longleftrightarrow> (\<forall>s \<in> set (Sessions e). s_person s \<noteq> p)"
    unfolding live [symmetric] by (auto simp: filter_empty_conv)
  moreover have "gm_get (e_perPerson e) p = None \<longleftrightarrow> live_by s_person e p = 0"
    using inv by (simp add: acl_inv_def gm_counts_def)
  ultimately show ?thesis
    using inv unfolding live by (simp add: acl_inv_def gm_counts_count)
qed

definition sample_view :: acl_view where
  "sample_view = \<lparr>PersonExists = (\<lambda>p. p = ''ann''), MachineExists = (\<lambda>m. m \<in> {''win01'', ''mac02''}),
     MachineVerified = (\<lambda>m. True), MachineOnline = (\<lambda>m. True)\<rparr>"

definition sample_grant :: grant where
  "sample_grant = \<lparr>g_person = ''ann'', g_machine = ''win01'',
     g_until = Some \<lparr>d_time = 100, d_local = False\<rparr>, g_caps = [''shell''], g_revokedAt = None\<rparr>"

definition sample_engine :: engine where
  "sample_engine = \<lparr>e_limits = \<lparr>PerPerson = 1, PerMachine = 0\<rparr>, e_grants = [], e_sessions = [],
     e_nextID = 0, e_perPerson = [], e_perMachine = []\<rparr>"

definition granted_engine :: engine where
  "granted_engine = fst (acl_exec sample_engine (CallAddGrant sample_grant 10))"

definition live_engine :: engine where
  "live_engine = fst (acl_exec granted_engine (CallOpen sample_view ''ann'' ''win01'' 20 (Some 5)))"

lemma acl_reach_call:
  "reachable acl_init acl_step e \<Longrightarrow> e_nextID e \<noteq> - 1 \<Longrightarrow> reachable acl_init acl_step (fst (acl_exec e call))"
  by (metis reach_step acl_step_def prod.collapse)

lemmas acl_samples = live_engine_def granted_engine_def sample_engine_def sample_grant_def
  sample_view_def AddGrant_def validateGrant_def IsUntilZero_def isZero_def OpenSession_def
  checkLocked_def grant_expired_def next_id_def ExecOnly_def gm_incr_def gm_count_def Let_def

lemma sample_reachable: "reachable acl_init acl_step sample_engine"
  by (rule reach_init) (auto simp: acl_init_def NewEngine_def sample_engine_def
      intro!: exI [of _ "Some sample_view"] exI [of _ "\<lparr>PerPerson = 1, PerMachine = 0\<rparr>"])

lemma granted_reachable: "reachable acl_init acl_step granted_engine"
  unfolding granted_engine_def
  by (rule acl_reach_call [OF sample_reachable]) (simp add: sample_engine_def)

lemma live_reachable: "reachable acl_init acl_step live_engine"
  unfolding live_engine_def
  by (rule acl_reach_call [OF granted_reachable]) (simp add: acl_samples)

theorem acl_counters_exact_witness:
  "reachable acl_init acl_step live_engine \<and> gm_count (e_perPerson live_engine) ''ann'' = 1 \<and>
   int (length (filter (\<lambda>s. s_person s = ''ann'') (Sessions live_engine))) = 1"
proof -
  have "gm_count (e_perPerson live_engine) ''ann'' = 1" by (simp add: acl_samples)
  then show ?thesis
    using live_reachable acl_counters_exact [OF live_reachable, of "''ann''" "''win01''"] by simp
qed

text \<open>
  C25. A session opens exactly when it may. OpenSession succeeds if and only if the person and
  the machine exist, the pair has a grant that is neither revoked nor past its deadline, the
  machine is verified and online and both limits have room; it then registers one session
  under a number no live session has, with the grant's exec-only mark, and touches no other
  session. Otherwise nothing changes and the error carries the reason Check gives.
\<close>

theorem open_session_exact:
  assumes "reachable acl_init acl_step e" "e_nextID e \<noteq> - 1"
  shows "case OpenSession v e p m now cb of
     (e', Inr s) \<Rightarrow> allowed (Check v e p m now) \<and> PersonExists v p \<and> MachineExists v m \<and>
        MachineVerified v m \<and> MachineOnline v m \<and>
        (\<exists>g. gm_get (e_grants e) (p, m) = Some g \<and> g_revokedAt g = None \<and>
             (\<forall>d. g_until g = Some d \<longrightarrow> now < d_time d) \<and> s_execOnly s = (g_caps g = [''exec''])) \<and>
        s_person s = p \<and> s_machine s = m \<and> SessionID_Valid (s_id s) \<and>
        s_id s \<notin> s_id ` set (Sessions e) \<and> Sessions e' = Sessions e @ [s]
   | (e', Inl err) \<Rightarrow> e' = e \<and> \<not> allowed (Check v e p m now) \<and>
        err = DenyError (dec_reason (Check v e p m now))"
proof (cases "checkLocked v e p m now = ReasonNone")
  case True
  note inv = acl.reachable_inv [OF assms(1)]
  obtain g where g: "gm_get (e_grants e) (p, m) = Some g" "g_revokedAt g = None" "\<not> grant_expired g now"
    using True by (auto simp: check_allows_iff)
  have "e_nextID e + 1 \<notin> s_id ` set (Sessions e)"
    using inv word_less_inc [OF assms(2)]
    by (fastforce simp: acl_inv_def session_ok_def Sessions_def)
  then show ?thesis
    using True g OpenSession_allowed [OF inv assms(2) True g(1)] word_inc_pos [OF assms(2)]
    by (auto simp: check_allows_iff Check_def Sessions_def SessionID_Valid_def ExecOnly_def
        grant_expired_def)
qed (simp add: OpenSession_denied Check_def Let_def)

theorem open_session_exact_witness:
  "\<exists>s. snd (OpenSession sample_view granted_engine ''ann'' ''win01'' 20 (Some 5)) = Inr s \<and>
     s_id s \<notin> s_id ` set (Sessions granted_engine) \<and>
     Sessions (fst (OpenSession sample_view granted_engine ''ann'' ''win01'' 20 (Some 5))) =
       Sessions granted_engine @ [s]"
proof -
  have "\<exists>s. snd (OpenSession sample_view granted_engine ''ann'' ''win01'' 20 (Some 5)) = Inr s"
    and "e_nextID granted_engine \<noteq> - 1"
    by (simp_all add: acl_samples)
  then show ?thesis
    using open_session_exact [OF granted_reachable, of sample_view "''ann''" "''win01''" 20 "Some 5"]
    by (auto simp: case_prod_beta)
qed

text \<open>
  C3. Revocation is immediate and lasting. RevokeBecause ends exactly the live sessions of the
  pair, tells each of their owners the reason once, reports how many there were and leaves
  every other session as it was; after it, whatever calls follow, as long as none of them
  grants the pair again, the pair is never allowed and never has a live session.
\<close>

theorem revoke_immediate_and_lasting:
  assumes "reachable acl_init acl_step e" "RevokeBecause e p m now why = (e', notes, Inr n)"
    and "\<forall>c \<in> set calls. \<not> regrants p m c"
  shows "Sessions e' = filter (\<lambda>s. \<not> of_pair p m s) (Sessions e) \<and>
         n = length (filter (of_pair p m) (Sessions e)) \<and>
         notes = map (\<lambda>cb. (cb, why)) (List.map_filter (\<lambda>(i, ls). ls_onRevoke ls)
                   (filter (\<lambda>x. of_pair p m (ls_session (snd x))) (e_sessions e))) \<and>
         \<not> allowed (Check v (acl_run e' calls) p m t) \<and>
         (\<forall>s \<in> set (Sessions (acl_run e' calls)). \<not> of_pair p m s)"
proof -
  let ?P = "\<lambda>x. of_pair p m (ls_session (snd x))"
  obtain g where g: "gm_get (e_grants e) (p, m) = Some g"
    using assms(2) by (auto simp: RevokeBecause_def split: option.splits)
  define g1 where "g1 = (if g_revokedAt g = None then g\<lparr>g_revokedAt := Some now\<rparr> else g)"
  define e1 where "e1 = e\<lparr>e_grants := gm_put (p, m) g1 (e_grants e)\<rparr>"
  have sel: "(\<lambda>(i, ls). s_person (ls_session ls) = p \<and> s_machine (ls_session ls) = m) = ?P"
    by (auto simp: of_pair_def fun_eq_iff)
  have kill: "killLocked e1 (map fst (filter ?P (e_sessions e1))) why = (e', notes)"
    "n = length (filter ?P (e_sessions e))"
    using assms(2) g unfolding RevokeBecause_def Let_def sel
    by (auto simp: e1_def g1_def split: prod.splits)
  have wf: "gm_wf (e_sessions e1)" "e_sessions e1 = e_sessions e"
    using acl_inv_wf [OF acl.reachable_inv [OF assms(1)]] by (simp_all add: e1_def)
  have sess: "e_sessions e' = filter (\<lambda>x. \<not> ?P x) (e_sessions e)"
    using kill_selected_sessions [OF wf(1), of ?P why] kill(1) wf(2) by simp
  have "e_grants e' = e_grants e1" using killLocked_fields(1) kill(1) by (metis fst_conv)
  then have "revoked_pair e' p m" by (simp add: revoked_pair_def e1_def g1_def)
  then have run: "revoked_pair (acl_run e' calls) p m" "no_live p m (acl_run e' calls)"
    using revoked_run [of e' p m calls] assms(3) by (simp_all add: no_live_def sess)
  show ?thesis
    using kill_selected_notes [OF wf(1), of ?P why] kill wf(2) Sessions_filter [OF sess]
      revoked_not_allowed [OF run(1), of v t] run(2)
    by (auto simp: Sessions_def Check_def Let_def no_live_def filter_map comp_def case_prod_unfold)
qed

theorem revoke_immediate_and_lasting_witness:
  "\<exists>e' notes. RevokeBecause live_engine ''ann'' ''win01'' 30 DenyGrantRevoked = (e', notes, Inr 1) \<and>
     notes = [(5, DenyGrantRevoked)] \<and>
     Sessions (acl_run e' [CallOpen sample_view ''ann'' ''win01'' 31 None]) = [] \<and>
     \<not> allowed (Check sample_view (acl_run e' [CallOpen sample_view ''ann'' ''win01'' 31 None])
                  ''ann'' ''win01'' 40)"
proof -
  have "\<exists>e'. RevokeBecause live_engine ''ann'' ''win01'' 30 DenyGrantRevoked =
      (e', [(5, DenyGrantRevoked)], Inr 1) \<and>
      Sessions (acl_run e' [CallOpen sample_view ''ann'' ''win01'' 31 None]) = []"
    by (simp add: acl_samples RevokeBecause_def kill_one_def gm_decr_def acl_run_def Sessions_def)
  then show ?thesis
    using revoke_immediate_and_lasting [OF live_reachable, of "''ann''" "''win01''" 30 DenyGrantRevoked
        _ "[(5, DenyGrantRevoked)]" 1 "[CallOpen sample_view ''ann'' ''win01'' 31 None]" sample_view 40]
    by (auto simp: regrants_def)
qed

text \<open>
  A grant under which a session may run at a time: not revoked, and before its deadline.
\<close>

definition runs_on :: "engine \<Rightarrow> instant \<Rightarrow> session \<Rightarrow> bool" where
  "runs_on e now s \<longleftrightarrow> (\<exists>g. gm_get (e_grants e) (s_person s, s_machine s) = Some g \<and>
     g_revokedAt g = None \<and> \<not> grant_expired g now)"

lemma filter_Not_swap:
  "filter (\<lambda>x. \<not> Q x) (filter (\<lambda>x. \<not> P x) xs) = filter (\<lambda>x. \<not> (P x \<or> Q x)) xs"
  by (induction xs) auto

lemma length_two_filters:
  "(\<And>x. \<not> (P x \<and> Q x)) \<Longrightarrow>
   length (filter P xs) + length (filter Q xs) = length (filter (\<lambda>x. P x \<or> Q x) xs)"
  by (induction xs) auto

text \<open>
  The sweep leaves no session running on a dead grant: after SweepExpired at a time, the
  live sessions are exactly those whose grant is neither revoked nor past its deadline then,
  the number it reports is the number it ended, and it notifies the owners of the revoked
  ones with the revocation before the owners of the expired ones with the expiry.
\<close>

theorem sweep_leaves_only_valid:
  assumes "reachable acl_init acl_step e" "SweepExpired e now = (e', notes, n)"
  shows "Sessions e' = filter (runs_on e now) (Sessions e) \<and>
         n = length (filter (\<lambda>s. \<not> runs_on e now s) (Sessions e)) \<and>
         (\<exists>cbs1 cbs2. notes = map (\<lambda>cb. (cb, DenyGrantRevoked)) cbs1 @
                              map (\<lambda>cb. (cb, DenyGrantExpired)) cbs2)"
proof -
  note inv = acl.reachable_inv [OF assms(1)]
  let ?g = "\<lambda>ls. gm_get (e_grants e) (s_person (ls_session ls), s_machine (ls_session ls))"
  define R where "R = (\<lambda>(i :: session_id, ls :: live_session). case ?g ls of None \<Rightarrow> False | Some g \<Rightarrow> g_revokedAt g \<noteq> None)"
  define X where "X = (\<lambda>(i :: session_id, ls :: live_session). case ?g ls of None \<Rightarrow> False
    | Some g \<Rightarrow> g_revokedAt g = None \<and> grant_expired g now)"
  let ?k1 = "killLocked e (map fst (filter R (e_sessions e))) DenyGrantRevoked"
  let ?k2 = "killLocked (fst ?k1) (map fst (filter X (e_sessions e))) DenyGrantExpired"
  have parts: "e' = fst ?k2" "notes = snd ?k1 @ snd ?k2"
    "n = length (filter R (e_sessions e)) + length (filter X (e_sessions e))"
    using assms(2) unfolding SweepExpired_def Let_def R_def X_def by (auto simp: case_prod_beta)
  have wf: "gm_wf (e_sessions e)" using inv by (rule acl_inv_wf)
  have s1: "e_sessions (fst ?k1) = filter (\<lambda>x. \<not> R x) (e_sessions e)"
    by (rule kill_selected_sessions [OF wf])
  have X: "filter X (e_sessions e) = filter X (e_sessions (fst ?k1))"
    unfolding s1 filter_filter by (rule filter_cong) (auto simp: R_def X_def split: option.splits)
  have wf1: "gm_wf (e_sessions (fst ?k1))" using wf by (simp add: s1)
  have s2: "e_sessions e' = filter (\<lambda>x. \<not> (R x \<or> X x)) (e_sessions e)"
    using kill_selected_sessions [OF wf1, of X DenyGrantExpired] by (simp add: parts X s1 filter_Not_swap)
  have run: "R x \<or> X x \<longleftrightarrow> \<not> runs_on e now (ls_session (snd x))" if "x \<in> set (e_sessions e)" for x
    using inv that by (cases x) (fastforce simp: acl_inv_def session_ok_def runs_on_def R_def X_def)
  have "filter (\<lambda>x. R x \<or> X x) (e_sessions e) =
      filter (\<lambda>x. \<not> runs_on e now (ls_session (snd x))) (e_sessions e)"
    by (rule filter_cong) (simp_all add: run)
  moreover have "filter (\<lambda>x. \<not> (R x \<or> X x)) (e_sessions e) =
      filter (\<lambda>x. runs_on e now (ls_session (snd x))) (e_sessions e)"
    by (rule filter_cong) (simp_all add: run)
  moreover have "length (filter R (e_sessions e)) + length (filter X (e_sessions e)) =
      length (filter (\<lambda>x. R x \<or> X x) (e_sessions e))"
    by (rule length_two_filters) (auto simp: R_def X_def split: option.splits)
  moreover have "\<exists>c1 c2. notes = map (\<lambda>cb. (cb, DenyGrantRevoked)) c1 @ map (\<lambda>cb. (cb, DenyGrantExpired)) c2"
    using kill_selected_notes [OF wf, of R DenyGrantRevoked]
      kill_selected_notes [OF wf1, of X DenyGrantExpired] X parts(2) by metis
  ultimately show ?thesis
    using s2 parts(3) by (simp add: Sessions_def filter_map comp_def case_prod_unfold)
qed

theorem sweep_leaves_only_valid_witness:
  "\<exists>e'. SweepExpired live_engine 100 = (e', [(5, DenyGrantExpired)], 1) \<and>
     Sessions e' = filter (runs_on live_engine 100) (Sessions live_engine) \<and>
     length (Sessions live_engine) = 1 \<and> Sessions e' = []"
proof -
  have "\<exists>e'. SweepExpired live_engine 100 = (e', [(5, DenyGrantExpired)], 1) \<and> Sessions e' = []"
    "length (Sessions live_engine) = 1"
    by (simp_all add: acl_samples SweepExpired_def kill_one_def gm_decr_def Sessions_def)
  then show ?thesis
    using sweep_leaves_only_valid [OF live_reachable, of 100 _ "[(5, DenyGrantExpired)]" 1] by auto
qed

definition dead :: "session_id \<Rightarrow> engine \<Rightarrow> bool" where
  "dead i e \<longleftrightarrow> i \<notin> fst ` set (e_sessions e) \<and> i \<le> e_nextID e"

lemma dead_killLocked: "dead i e \<Longrightarrow> dead i (fst (killLocked e is why))"
  by (auto simp: dead_def killLocked_sessions)

lemma dead_OpenSession:
  assumes "acl_inv e" "e_nextID e \<noteq> - 1" "dead i e"
  shows "dead i (fst (OpenSession v e p m now cb))"
proof (cases "checkLocked v e p m now = ReasonNone")
  case True
  then obtain g where "gm_get (e_grants e) (p, m) = Some g" by (auto simp: check_allows_iff)
  then show ?thesis
    using OpenSession_allowed [OF assms(1,2) True, of g cb] assms(3) word_less_inc [OF assms(2)]
    by (auto simp: dead_def)
qed (use assms in \<open>simp add: OpenSession_denied\<close>)

lemma dead_step:
  assumes "acl_inv e" "dead i e" "acl_step e e'"
  shows "dead i e'"
proof -
  obtain call where c: "e' = fst (acl_exec e call)" "e_nextID e \<noteq> - 1"
    using assms(3) by (auto simp: acl_step_def) (metis fst_conv)
  show ?thesis
  proof (cases call)
    case (CallRevoke p m t why)
    then show ?thesis
      using assms(2) c dead_killLocked [of i "e\<lparr>e_grants := x\<rparr>" for x]
      by (auto simp: RevokeBecause_def Let_def case_prod_beta dead_def split: option.split)
  next
    case (CallAddGrant g t)
    then show ?thesis using assms(2) c by (simp add: AddGrant_def dead_def split: option.split)
  next
    case (CallOpen v p m t cb)
    then show ?thesis using assms c by (simp add: dead_OpenSession)
  qed (use dead_killLocked assms(2) c in \<open>simp_all add: Close_def SweepExpired_def Kill_def Let_def
    case_prod_beta del: killLocked.simps\<close>)
qed

lemma dead_steps: "acl_step\<^sup>*\<^sup>* e e' \<Longrightarrow> acl_inv e \<Longrightarrow> dead i e \<Longrightarrow> dead i e'"
  by (induction rule: rtranclp_induct) (auto intro: dead_step acl.steps_inv)

lemma session_ids:
  assumes "acl_inv e"
  shows "s_id ` set (Sessions e) = fst ` set (e_sessions e)"
proof -
  have "map s_id (Sessions e) = map fst (e_sessions e)"
    using assms by (auto simp: acl_inv_def session_ok_def Sessions_def)
  then show ?thesis by (metis image_set)
qed

text \<open>
  A session ends once, by whichever way out comes first. Close and Kill on a live number
  end exactly that session and leave the same engine, so the counters converge; on a number
  that is not live both report false and change nothing, and no owner is told twice; and a
  number that has ended never becomes live again in any later step.
\<close>

theorem session_ends_once:
  assumes "reachable acl_init acl_step e"
  shows "fst (Kill e i t r) = fst (Close e i t') \<and>
         Sessions (fst (Close e i t')) = filter (\<lambda>s. s_id s \<noteq> i) (Sessions e) \<and>
         (snd (Close e i t') \<longleftrightarrow> i \<in> s_id ` set (Sessions e)) \<and>
         (i \<notin> s_id ` set (Sessions e) \<longrightarrow> Close e i t' = (e, False) \<and> Kill e i t r = (e, [], False)) \<and>
         length (fst (snd (Kill e i t r))) \<le> 1 \<and>
         (i \<le> e_nextID e \<longrightarrow> acl_step\<^sup>*\<^sup>* (fst (Close e i t')) e' \<longrightarrow> i \<notin> s_id ` set (Sessions e'))"
proof -
  note inv = acl.reachable_inv [OF assms]
  let ?c = "fst (Close e i t')"
  have live: "gm_get (e_sessions e) i = None \<longleftrightarrow> i \<notin> s_id ` set (Sessions e)"
    by (simp add: session_ids [OF inv] map_of_eq_None_iff)
  have zero: "i \<in> s_id ` set (Sessions e) \<Longrightarrow> SessionID_Valid i"
    using inv by (fastforce simp: acl_inv_def session_ok_def Sessions_def SessionID_Valid_def)
  have sess: "e_sessions ?c = filter (\<lambda>x. i \<noteq> fst x) (e_sessions e)"
    using zero live gm_del_id [of "e_sessions e" i]
    by (auto simp: Close_def Let_def AList.delete_eq case_prod_unfold)
  have "filter (\<lambda>x. i \<noteq> fst x) (e_sessions e) = filter (\<lambda>x. s_id (ls_session (snd x)) \<noteq> i) (e_sessions e)"
    using inv by (intro filter_cong) (auto simp: acl_inv_def session_ok_def)
  then have S: "Sessions ?c = filter (\<lambda>s. s_id s \<noteq> i) (Sessions e)"
    by (simp add: Sessions_def sess case_prod_unfold filter_map comp_def)
  have inv': "acl_inv ?c"
    using inv by (auto simp: Close_def Let_def intro: acl_inv_kill_one)
  have "i \<le> e_nextID e \<Longrightarrow> dead i ?c"
    using sess by (auto simp: dead_def Close_def Let_def)
  then have never: "i \<le> e_nextID e \<Longrightarrow> acl_step\<^sup>*\<^sup>* ?c e' \<Longrightarrow> i \<notin> s_id ` set (Sessions e')"
    using dead_steps [of ?c e' i] inv' acl.steps_inv [of ?c e'] session_ids [of e']
    by (simp add: dead_def)
  show ?thesis
    using S never zero live by (auto simp: Close_def Kill_def Let_def split: option.split)
qed

theorem session_ends_once_witness:
  "Sessions (fst (Close live_engine 1 50)) = [] \<and> snd (Close live_engine 1 50) \<and>
   Close (fst (Close live_engine 1 50)) 1 60 = (fst (Close live_engine 1 50), False)"
  using session_ends_once [OF live_reachable, of 1 50 DenyAdminKilled 50]
  by (simp add: acl_samples Close_def SessionID_Valid_def kill_one_def gm_decr_def Sessions_def)

text \<open>
  What is advertised is what is enforced: for a verified, online machine with room under
  both limits, GrantsFor lists a grant for the machine exactly when Check would let the person
  in, and it lists every machine once, in order.
\<close>

theorem grants_for_agrees_with_check:
  assumes "reachable acl_init acl_step e"
    and "MachineVerified v m" "MachineOnline v m"
    and "PerPerson (e_limits e) > 0 \<longrightarrow> gm_count (e_perPerson e) p < PerPerson (e_limits e)"
    and "PerMachine (e_limits e) > 0 \<longrightarrow> gm_count (e_perMachine e) m < PerMachine (e_limits e)"
  shows "(m \<in> g_machine ` set (GrantsFor v e p now) \<longleftrightarrow> allowed (Check v e p m now)) \<and>
         sorted (map g_machine (GrantsFor v e p now)) \<and>
         distinct (map g_machine (GrantsFor v e p now))"
proof -
  note inv = acl.reachable_inv [OF assms(1)]
  have wf: "gm_wf (e_grants e)" using inv by (simp add: acl_inv_def)
  have key: "((p', m'), g) \<in> set (e_grants e) \<Longrightarrow> g_person g = p' \<and> g_machine g = m'" for p' m' g
    using inv by (auto simp: acl_inv_def)
  let ?Q = "\<lambda>((p', m'), g). p' = p \<and> g_revokedAt g = None \<and> \<not> grant_expired g now \<and> MachineExists v m'"
  have "inj_on (g_machine \<circ> snd) (set (filter ?Q (e_grants e)))"
    using wf key by (auto simp: inj_on_def) (metis eq_key_imp_eq_value gm_wf_def)
  moreover have "distinct (filter ?Q (e_grants e))" using wf by (simp add: gm_wf_def distinct_map)
  ultimately have "distinct (map (g_machine \<circ> snd) (filter ?Q (e_grants e)))"
    by (simp add: distinct_map)
  then have "distinct (map g_machine (GrantsFor v e p now))"
    by (simp add: GrantsFor_def distinct_map_sort)
  moreover have "m \<in> g_machine ` set (GrantsFor v e p now) \<longleftrightarrow> PersonExists v p \<and> MachineExists v m \<and>
      (\<exists>g. gm_get (e_grants e) (p, m) = Some g \<and> g_revokedAt g = None \<and> \<not> grant_expired g now)"
  proof (intro iffI)
    assume "m \<in> g_machine ` set (GrantsFor v e p now)"
    then show "PersonExists v p \<and> MachineExists v m \<and>
      (\<exists>g. gm_get (e_grants e) (p, m) = Some g \<and> g_revokedAt g = None \<and> \<not> grant_expired g now)"
      by (auto simp: GrantsFor_def gm_get_iff [OF wf] dest: key split: if_splits) (use key in blast)
  next
    assume a: "PersonExists v p \<and> MachineExists v m \<and>
      (\<exists>g. gm_get (e_grants e) (p, m) = Some g \<and> g_revokedAt g = None \<and> \<not> grant_expired g now)"
    then obtain g where g: "((p, m), g) \<in> set (e_grants e)" "g_revokedAt g = None" "\<not> grant_expired g now"
      by (auto simp: gm_get_iff [OF wf])
    have "g \<in> set (GrantsFor v e p now)" using a g by (force simp: GrantsFor_def)
    then show "m \<in> g_machine ` set (GrantsFor v e p now)" using key [OF g(1)] by blast
  qed
  ultimately show ?thesis
    using assms(2-5) check_allows_iff [of v e p m now]
    by (auto simp: Check_def Let_def GrantsFor_def)
qed

theorem grants_for_agrees_with_check_witness:
  "map g_machine (GrantsFor sample_view granted_engine ''ann'' 20) = [''win01''] \<and>
   allowed (Check sample_view granted_engine ''ann'' ''win01'' 20)"
proof -
  have "map g_machine (GrantsFor sample_view granted_engine ''ann'' 20) = [''win01'']"
    by (simp add: acl_samples GrantsFor_def)
  moreover from this have "''win01'' \<in> g_machine ` set (GrantsFor sample_view granted_engine ''ann'' 20)"
    by (metis list.set_intros(1) list.set_map)
  ultimately show ?thesis
    using grants_for_agrees_with_check [OF granted_reachable, of sample_view "''win01''" "''ann''" 20]
    by (simp add: acl_samples)
qed

text \<open>
  The text form of a session number is a faithful name for it: parsing what String prints
  gives the number back for every number the engine issues, and ParseSessionID accepts no
  other spelling (no sign, no leading zero, no zero), so two texts never name one session.
\<close>

theorem session_id_roundtrip:
  "(i \<noteq> 0 \<longrightarrow> ParseSessionID (SessionID_String i) = Inr i) \<and>
   (ParseSessionID s = Inr i \<longrightarrow> i \<noteq> 0 \<and> SessionID_String i = s)"
proof -
  have "unat i < 2 ^ 64" using unsigned_less [of i, where ?'a = nat] by simp
  then have "i \<noteq> 0 \<Longrightarrow> ParseSessionID (SessionID_String i) = Inr i"
    by (simp add: SessionID_String_def ParseSessionID_def ParseUint64_FormatUint unat_eq_zero)
  moreover have "i \<noteq> 0 \<and> SessionID_String i = s" if p: "ParseSessionID s = Inr i"
  proof -
    obtain n where n: "take 8 s = ''session:''" "ParseUint64 (drop 8 s) = Some n" "n \<noteq> 0"
      "FormatUint n = drop 8 s" "i = of_nat n"
      using p by (auto simp: ParseSessionID_def Let_def split: if_splits option.splits)
    have "n < 2 ^ 64" using n(2) by (simp add: ParseUint64_def split: if_splits)
    then have u: "unat i = n" by (simp add: n(5) unat_of_nat take_bit_nat_eq_self)
    then show ?thesis
      using n append_take_drop_id [of 8 s] by (auto simp: SessionID_String_def)
  qed
  ultimately show ?thesis by blast
qed

theorem session_id_roundtrip_witness:
  "SessionID_String 42 = ''session:42'' \<and> ParseSessionID ''session:42'' = Inr 42"
proof -
  have "SessionID_String 42 = ''session:42''"
    by (simp add: SessionID_String_def) code_simp
  then show ?thesis using session_id_roundtrip [of 42 "''session:42''"] by simp
qed

end
