(* ===== verification/Username.thy ===== *)
theory Username
  imports Prelude
begin

text \<open>
  The login names of the gateway: \<open>internal/gateway/auth/username.go\<close> with the refusal codes of
  \<open>reason.go\<close>. Names are byte strings and the seven refusals are tried in the order of the
  source; the human-readable message of a refusal is not modelled, its code is.
\<close>

section \<open>Definitions\<close>

datatype DenyCode =
    CodeUsernameControl | CodeUsernameNonASCII | CodeUsernameColon | CodeUsernameEmptyPart
  | CodeUsernameLength | CodeNameReserved | CodeUsernameGrammar

primrec deny_code_text :: "DenyCode \<Rightarrow> string" where
  "deny_code_text CodeUsernameControl = ''E_USERNAME_CONTROL''"
| "deny_code_text CodeUsernameNonASCII = ''E_USERNAME_NON_ASCII''"
| "deny_code_text CodeUsernameColon = ''E_USERNAME_COLON''"
| "deny_code_text CodeUsernameEmptyPart = ''E_USERNAME_EMPTY_PART''"
| "deny_code_text CodeUsernameLength = ''E_USERNAME_LENGTH''"
| "deny_code_text CodeNameReserved = ''E_NAME_RESERVED''"
| "deny_code_text CodeUsernameGrammar = ''E_USERNAME_GRAMMAR''"

text \<open>The regular expression \<open>^[a-z0-9][a-z0-9._-]{0,31}$\<close>.\<close>

definition name_first :: "char \<Rightarrow> bool" where
  "name_first c \<longleftrightarrow> CHR ''a'' \<le> c \<and> c \<le> CHR ''z'' \<or> CHR ''0'' \<le> c \<and> c \<le> CHR ''9''"

definition name_char :: "char \<Rightarrow> bool" where
  "name_char c \<longleftrightarrow> name_first c \<or> c \<in> {CHR ''.'', CHR ''_'', CHR ''-''}"

definition nameRe :: "string \<Rightarrow> bool" where
  "nameRe s = (case s of [] \<Rightarrow> False
     | c # cs \<Rightarrow> name_first c \<and> list_all name_char cs \<and> length cs \<le> 31)"

record parsed_name =
  pn_person :: string
  pn_machine :: string

definition reserved_person :: "string \<Rightarrow> bool" where
  "reserved_person s \<longleftrightarrow> s = ''machine'' \<or> s = ''enrol'' \<or> s = ''bootstrap''"

definition ParseUsername :: "string \<Rightarrow> DenyCode + parsed_name" where
  "ParseUsername s =
     (if list_ex (\<lambda>b. of_char b \<le> (0x1f :: nat) \<or> of_char b = (0x7f :: nat)) s then Inl CodeUsernameControl
      else if list_ex (\<lambda>b. of_char b \<ge> (0x80 :: nat)) s then Inl CodeUsernameNonASCII
      else if count_list s (CHR '':'') > 1 then Inl CodeUsernameColon
      else if s = '''' then Inl CodeUsernameEmptyPart
      else let parts = split_char (CHR '':'') s
      in if list_ex (\<lambda>p. p = '''') parts then Inl CodeUsernameEmptyPart
         else if list_ex (\<lambda>p. length p > 32) parts then Inl CodeUsernameLength
         else if length parts = 1 \<and> parts ! 0 = ''machine'' then Inl CodeNameReserved
         else case parts of
             [p] \<Rightarrow>
               if \<not> nameRe p then Inl CodeUsernameGrammar
               else if p = ''enrol'' \<or> p = ''bootstrap'' then Inl CodeUsernameGrammar
               else Inr \<lparr>pn_person = p, pn_machine = ''''\<rparr>
           | [p, q] \<Rightarrow>
               if \<not> nameRe p then Inl CodeUsernameGrammar
               else if p = ''machine'' \<or> p = ''enrol'' \<or> p = ''bootstrap'' then Inl CodeUsernameGrammar
               else if \<not> nameRe q then Inl CodeUsernameGrammar
               else Inr \<lparr>pn_person = p, pn_machine = q\<rparr>
           | _ \<Rightarrow> Inl CodeUsernameGrammar)"

datatype name_error = InvalidName | ReservedName | NotMachineLogin

definition validName :: "string \<Rightarrow> string \<Rightarrow> name_error option" where
  "validName s what =
     (if \<not> nameRe s then Some InvalidName
      else if what = ''person'' \<and> reserved_person s then Some ReservedName
      else None)"

definition MachineUsername :: "string \<Rightarrow> name_error + string" where
  "MachineUsername i = (case validName i ''machine'' of
      Some err \<Rightarrow> Inl err | None \<Rightarrow> Inr (''machine:'' @ i))"

definition ParseMachineUsername :: "string \<Rightarrow> name_error + string" where
  "ParseMachineUsername s =
     (if take 8 s \<noteq> ''machine:'' then Inl NotMachineLogin
      else let rest = drop 8 s
           in case validName rest ''machine'' of Some err \<Rightarrow> Inl err | None \<Rightarrow> Inr rest)"

section \<open>Names\<close>

lemma name_char_byte:
  assumes "name_char c"
  shows "\<not> of_char c \<le> (0x1f :: nat)" "of_char c \<noteq> (0x7f :: nat)" "\<not> of_char c \<ge> (0x80 :: nat)"
  using assms by (auto simp: name_char_def name_first_def less_eq_char_def)

lemma colon_no_name_char: "\<not> name_char (CHR '':'')"
  by (simp add: name_char_def name_first_def less_eq_char_def)

lemma nameRe_chars: "nameRe s \<Longrightarrow> list_all name_char s"
  by (auto simp: nameRe_def name_char_def split: list.splits)

lemma nameRe_bounds: "nameRe s \<Longrightarrow> s \<noteq> '''' \<and> length s \<le> 32"
  by (auto simp: nameRe_def split: list.splits)

lemma nameRe_clean:
  assumes "nameRe s"
  shows "\<not> list_ex (\<lambda>b. of_char b \<le> (0x1f :: nat) \<or> of_char b = (0x7f :: nat)) s"
    "\<not> list_ex (\<lambda>b. of_char b \<ge> (0x80 :: nat)) s" "CHR '':'' \<notin> set s"
  using nameRe_chars [OF assms] name_char_byte colon_no_name_char by (auto simp: list_all_iff list_ex_iff)

lemmas name_facts = nameRe_bounds nameRe_clean

text \<open>The person and machine a login asks for, spelled back.\<close>

definition render :: "parsed_name \<Rightarrow> string" where
  "render pn = (if pn_machine pn = '''' then pn_person pn else pn_person pn @ '':'' @ pn_machine pn)"

definition wf_login :: "parsed_name \<Rightarrow> bool" where
  "wf_login pn \<longleftrightarrow> nameRe (pn_person pn) \<and> \<not> reserved_person (pn_person pn) \<and>
     (pn_machine pn = '''' \<or> nameRe (pn_machine pn))"

lemma ParseUsername_sound:
  assumes "ParseUsername s = Inr pn"
  shows "wf_login pn \<and> render pn = s"
proof -
  have "\<exists>p. split_char (CHR '':'') s = [p] \<and> pn = \<lparr>pn_person = p, pn_machine = ''''\<rparr> \<and> wf_login pn \<or>
      (\<exists>q. split_char (CHR '':'') s = [p, q] \<and> pn = \<lparr>pn_person = p, pn_machine = q\<rparr> \<and> wf_login pn \<and> q \<noteq> '''')"
    using assms by (auto simp: ParseUsername_def Let_def wf_login_def reserved_person_def
        split: if_splits list.splits)
  then show ?thesis using split_char_one split_char_two by (fastforce simp: render_def)
qed

lemma ParseUsername_complete: "wf_login pn \<Longrightarrow> ParseUsername (render pn) = Inr pn"
proof (cases "pn_machine pn = ''''")
  case True
  assume "wf_login pn"
  with True show ?thesis
    using name_facts [of "pn_person pn"]
    by (cases pn) (auto simp: ParseUsername_def render_def wf_login_def reserved_person_def
        split_char_none Let_def)
next
  case False
  assume wf: "wf_login pn"
  obtain p q where pn: "pn = \<lparr>pn_person = p, pn_machine = q\<rparr>" by (cases pn)
  from wf False have names: "nameRe p" "nameRe q" "\<not> reserved_person p"
    by (simp_all add: pn wf_login_def)
  have "split_char (CHR '':'') (p @ CHR '':'' # q) = [p, q]"
    using name_facts [OF names(1)] name_facts [OF names(2)] by (simp add: split_char_append split_char_none)
  then show ?thesis
    using names False name_facts [OF names(1)] name_facts [OF names(2)]
    by (auto simp: ParseUsername_def render_def pn reserved_person_def Let_def)
qed

lemma ParseUsername_person:
  "ParseUsername s = Inr pn \<Longrightarrow>
   pn_person pn = hd (split_char (CHR '':'') s) \<and> \<not> reserved_person (pn_person pn)"
  by (auto simp: ParseUsername_def Let_def reserved_person_def split: if_splits list.splits)

section \<open>Properties\<close>

text \<open>
  ParseUsername accepts exactly the logins of the grammar and loses nothing: it returns
  (person, machine) if and only if the person is a well-formed name that is not one of the
  reserved words, the machine is absent or well-formed, and the login is the person alone or
  the two joined by one colon. So no login has two readings, and every one can be spelled back.
\<close>

theorem parse_username_exact:
  "ParseUsername s = Inr pn \<longleftrightarrow>
     nameRe (pn_person pn) \<and> \<not> reserved_person (pn_person pn) \<and>
     (pn_machine pn = '''' \<and> s = pn_person pn \<or>
      nameRe (pn_machine pn) \<and> s = pn_person pn @ '':'' @ pn_machine pn)"
  using ParseUsername_sound [of s pn] ParseUsername_complete [of pn] nameRe_bounds [of "pn_machine pn"]
  by (auto simp: wf_login_def render_def)

text \<open>
  The login forms of the roles do not overlap. A machine login is exactly "machine:" and a
  well-formed id, the form MachineUsername prints; no text is both a machine login and a
  person login, and the reserved words enrol, bootstrap and machine are never person logins,
  alone or with a machine part, so a person's key can never be used under another role's name.
\<close>

theorem login_forms_disjoint:
  "(ParseMachineUsername s = Inr i \<longleftrightarrow> MachineUsername i = Inr s) \<and>
   (ParseMachineUsername s = Inr i \<longrightarrow> ParseUsername s = Inl CodeUsernameGrammar) \<and>
   (reserved_person p \<longrightarrow> (\<forall>pn. ParseUsername p \<noteq> Inr pn) \<and> (\<forall>q pn. ParseUsername (p @ '':'' @ q) \<noteq> Inr pn))"
proof -
  have m: "MachineUsername i = Inr s \<longleftrightarrow> nameRe i \<and> s = ''machine:'' @ i"
    by (auto simp: MachineUsername_def validName_def)
  have cut: "take 8 s = ''machine:'' \<Longrightarrow> s = ''machine:'' @ drop 8 s" by (metis append_take_drop_id)
  have pm: "ParseMachineUsername s = Inr i \<longleftrightarrow> nameRe i \<and> s = ''machine:'' @ i"
    using cut by (auto simp: ParseMachineUsername_def validName_def Let_def split: if_splits)
  have "nameRe i \<Longrightarrow> ParseUsername (''machine:'' @ i) = Inl CodeUsernameGrammar"
    using name_facts [of i] by (auto simp: ParseUsername_def Let_def split_char_none nameRe_def name_first_def
        less_eq_char_def)
  moreover have "hd (split_char (CHR '':'') p) = p \<and> hd (split_char (CHR '':'') (p @ '':'' @ q)) = p"
    if "reserved_person p" for q
    using that by (auto simp: reserved_person_def split_char_append [of "CHR '':''" "''machine''", simplified])
  ultimately show ?thesis using m pm ParseUsername_person by metis
qed

theorem login_forms_disjoint_witness:
  "ParseMachineUsername ''machine:win01'' = Inr ''win01'' \<and>
   ParseUsername ''machine:win01'' = Inl CodeUsernameGrammar \<and>
   (\<forall>pn. ParseUsername ''enrol'' \<noteq> Inr pn)"
proof -
  have "ParseMachineUsername ''machine:win01'' = Inr ''win01''"
    by (simp add: ParseMachineUsername_def validName_def nameRe_def name_first_def name_char_def less_eq_char_def)
  then show ?thesis
    using login_forms_disjoint [of "''machine:win01''" "''win01''" "''enrol''"]
    by (simp add: reserved_person_def)
qed

end
