(* ===== verification/Auth.thy ===== *)
theory Auth
  imports Username Encoding
begin

text \<open>
  Authentication of gateway connections: \<open>internal/gateway/auth/auth.go\<close> and \<open>policy.go\<close>. The
  state lookup is the interface \<open>Lookup\<close> of the source, here a function argument (the state
  theory provides it); \<open>golang.org/x/crypto/ssh\<close> is a third-party package, so a public key is
  the two views the source takes of it (its wire bytes and its crypto payload) and
  \<open>ssh.NewServerConn\<close> is a function argument. An error is a value: its text is not modelled.
\<close>

section \<open>Data\<close>

datatype crypto_payload = Ed25519 nat | RSA nat | OtherAlgorithm string

record pubkey =
  pk_wire :: "byte list"
  pk_crypto :: "crypto_payload option"

type_synonym role = string

definition RolePerson :: role where "RolePerson = ''person''"
definition RoleMachine :: role where "RoleMachine = ''machine''"
definition RoleEnrol :: role where "RoleEnrol = ''enrol''"
definition RoleBootstrap :: role where "RoleBootstrap = ''bootstrap''"
definition RolePairing :: role where "RolePairing = ''pairing''"

record subject =
  sub_name :: string
  sub_role :: role

record identity =
  id_subject :: subject
  id_fingerprint :: string

datatype key_error = NoPayload | MalformedEd25519 | ShortRSA | RefusedAlgorithm

datatype auth_error =
    ErrBadAlgorithm key_error
  | LookupFailed string
  | ErrUnknownKey string
  | ErrNameMismatch
  | UnknownRole role
  | ErrBadPermissions
  | HandshakeFailed

type_synonym lookup = "string \<Rightarrow> string + subject option"
type_synonym permissions = "(string, string) gomap"

record auth_limits =
  MaxSessionsPerPerson :: int
  MaxSessionsPerMachine :: int
  HandshakeTimeout :: duration

datatype handler_error = LookupRequired | NegativeSessionLimit | BadHandshakeTimeout

section \<open>Key policy\<close>

definition minRSABits :: nat where "minRSABits = 3072"
definition PublicKeySize :: nat where "PublicKeySize = 32"

definition AcceptKey :: "pubkey \<Rightarrow> key_error option" where
  "AcceptKey key = (case pk_crypto key of
      None \<Rightarrow> Some NoPayload
    | Some (Ed25519 n) \<Rightarrow> if n \<noteq> PublicKeySize then Some MalformedEd25519 else None
    | Some (RSA bits) \<Rightarrow> if bits < minRSABits then Some ShortRSA else None
    | Some (OtherAlgorithm _) \<Rightarrow> Some RefusedAlgorithm)"

definition Fingerprint :: "pubkey \<Rightarrow> string" where
  "Fingerprint key = ''SHA256:'' @ b64_raw (sha256 (pk_wire key))"

section \<open>The handler\<close>

definition NewHandler :: "lookup option \<Rightarrow> auth_limits \<Rightarrow> handler_error + (lookup \<times> auth_limits)" where
  "NewHandler lkp lim = (case lkp of
      None \<Rightarrow> Inl LookupRequired
    | Some l \<Rightarrow>
        if MaxSessionsPerPerson lim < 0 \<or> MaxSessionsPerMachine lim < 0 then Inl NegativeSessionLimit
        else if HandshakeTimeout lim \<le> 0 then Inl BadHandshakeTimeout
        else Inr (l, lim))"

definition Resolve :: "lookup \<Rightarrow> string \<Rightarrow> pubkey \<Rightarrow> auth_error + identity" where
  "Resolve lkp username key = (case AcceptKey key of
      Some err \<Rightarrow> Inl (ErrBadAlgorithm err)
    | None \<Rightarrow>
       (let fp = Fingerprint key
        in case lkp fp of
            Inl e \<Rightarrow> Inl (LookupFailed e)
          | Inr None \<Rightarrow> Inl (ErrUnknownKey fp)
          | Inr (Some sub) \<Rightarrow>
             (let ok = Inr \<lparr>id_subject = sub, id_fingerprint = fp\<rparr>
              in if sub_role sub = RolePerson then
                   (case ParseUsername username of
                      Inl _ \<Rightarrow> Inl ErrNameMismatch
                    | Inr parsed \<Rightarrow>
                        if pn_person parsed \<noteq> sub_name sub then Inl ErrNameMismatch else ok)
                 else if sub_role sub = RoleMachine then
                   (case ParseMachineUsername username of
                      Inl _ \<Rightarrow> Inl ErrNameMismatch
                    | Inr i \<Rightarrow> if i \<noteq> sub_name sub then Inl ErrNameMismatch else ok)
                 else if sub_role sub = RoleEnrol then
                   (if username \<noteq> ''enrol'' then Inl ErrNameMismatch else ok)
                 else if sub_role sub = RoleBootstrap then
                   (if username \<noteq> ''bootstrap'' then Inl ErrNameMismatch else ok)
                 else if sub_role sub = RolePairing then
                   (if username \<noteq> ''pairing'' then Inl ErrNameMismatch else ok)
                 else Inl (UnknownRole (sub_role sub)))))"

definition extSubject :: string where "extSubject = ''iamtunnel-subject''"
definition extRole :: string where "extRole = ''iamtunnel-role''"
definition extFingerprint :: string where "extFingerprint = ''iamtunnel-fingerprint''"
definition extPairingWindow :: string where "extPairingWindow = ''iamtunnel-pairing-window''"

type_synonym pk_callback = "string \<Rightarrow> pubkey \<Rightarrow> auth_error + permissions"

definition PublicKeyCallback :: "lookup \<Rightarrow> pk_callback" where
  "PublicKeyCallback lkp user key = (case Resolve lkp user key of
      Inl err \<Rightarrow> Inl err
    | Inr i \<Rightarrow> Inr [(extSubject, sub_name (id_subject i)), (extRole, sub_role (id_subject i)),
                   (extFingerprint, id_fingerprint i)])"

definition PairingPermissions :: "string \<Rightarrow> string \<Rightarrow> permissions" where
  "PairingPermissions fp windowBinding =
     [(extSubject, ''''), (extRole, RolePairing), (extFingerprint, fp), (extPairingWindow, windowBinding)]"

definition PairingWindowBinding :: "permissions option \<Rightarrow> string option" where
  "PairingWindowBinding p = (case p of None \<Rightarrow> None | Some ext \<Rightarrow> gm_get ext extPairingWindow)"

definition ExtractIdentity :: "permissions option \<Rightarrow> auth_error + identity" where
  "ExtractIdentity perm = (case perm of
      None \<Rightarrow> Inl ErrBadPermissions
    | Some ext \<Rightarrow>
       (case (gm_get ext extSubject, gm_get ext extRole, gm_get ext extFingerprint) of
          (Some sub, Some role, Some fp) \<Rightarrow>
            if role \<in> {RolePerson, RoleMachine, RoleEnrol, RoleBootstrap, RolePairing}
            then Inr \<lparr>id_subject = \<lparr>sub_name = sub, sub_role = role\<rparr>, id_fingerprint = fp\<rparr>
            else Inl ErrBadPermissions
        | _ \<Rightarrow> Inl ErrBadPermissions))"

definition VerifyLogin :: "permissions option \<Rightarrow> string \<Rightarrow> auth_error + identity" where
  "VerifyLogin perm username = (case ExtractIdentity perm of
      Inl err \<Rightarrow> Inl err
    | Inr i \<Rightarrow>
       (let sub = id_subject i; mismatch = Inl ErrNameMismatch
        in if sub_role sub = RolePerson then
             (case ParseUsername username of
                Inl _ \<Rightarrow> mismatch
              | Inr parsed \<Rightarrow> if pn_person parsed \<noteq> sub_name sub then mismatch else Inr i)
           else if sub_role sub = RoleMachine then
             (case ParseMachineUsername username of
                Inl _ \<Rightarrow> mismatch
              | Inr mid \<Rightarrow> if mid \<noteq> sub_name sub then mismatch else Inr i)
           else if sub_role sub = RoleEnrol then
             (if username \<noteq> ''enrol'' then mismatch else Inr i)
           else if sub_role sub = RoleBootstrap then
             (if username \<noteq> ''bootstrap'' then mismatch else Inr i)
           else if sub_role sub = RolePairing then
             (if username \<noteq> ''pairing'' then mismatch else Inr i)
           else Inr i))"

definition HandshakeDeadline :: "auth_limits \<Rightarrow> instant \<Rightarrow> instant" where
  "HandshakeDeadline lim now = now + HandshakeTimeout lim"

text \<open>
  \<open>FinishAuth\<close>. The handshake itself is \<open>ssh.NewServerConn\<close>: an argument that receives the
  (recording) callback and returns the (user, key) pairs it asked it about, in order, and the
  connection's user and permissions if it succeeded. The recording wrapper appends one entry
  per refused key. The result is the journal events and the identity or the denial.
\<close>

datatype auth_event =
    AuthAccepted string string string string role
  | AuthDenied string string string auth_error

type_synonym handshake = "pk_callback \<Rightarrow> (string \<times> pubkey) list \<times> (string \<times> permissions option) option"

record err_denied =
  den_addr :: string
  den_user :: string
  den_reason :: auth_error

definition offered_of :: "pk_callback \<Rightarrow> (string \<times> pubkey) list \<Rightarrow> (string \<times> string \<times> auth_error) list" where
  "offered_of cb calls = List.map_filter (\<lambda>(user, key). case cb user key of
      Inl err \<Rightarrow> Some (user, Fingerprint key, err) | Inr _ \<Rightarrow> None) calls"

definition FinishAuth ::
  "lookup \<Rightarrow> pk_callback option \<Rightarrow> handshake \<Rightarrow> string \<Rightarrow> bool \<Rightarrow> auth_event list \<times> (err_denied + identity)" where
  "FinishAuth lkp origCB newServerConn addr sink =
    (let cb = (case origCB of Some f \<Rightarrow> f | None \<Rightarrow> PublicKeyCallback lkp);
         (calls, outcome) = newServerConn cb;
         emit = (\<lambda>evs. if sink then evs else [])
     in case outcome of
          None \<Rightarrow>
            (let attempts = offered_of cb calls
             in if attempts = [] then
                  (emit [AuthDenied addr '''' '''' HandshakeFailed],
                   Inl \<lparr>den_addr = addr, den_user = '''', den_reason = HandshakeFailed\<rparr>)
                else
                  (case last attempts of (user, fp, reason) \<Rightarrow>
                     (emit (map (\<lambda>(u, f, r). AuthDenied addr u f r) attempts),
                      Inl \<lparr>den_addr = addr, den_user = user, den_reason = reason\<rparr>)))
        | Some (user, perms) \<Rightarrow>
            (case ExtractIdentity perms of
               Inl err \<Rightarrow> (emit [AuthDenied addr user '''' err],
                          Inl \<lparr>den_addr = addr, den_user = user, den_reason = err\<rparr>)
             | Inr i \<Rightarrow>
                (case VerifyLogin perms user of
                   Inl err \<Rightarrow> (emit [AuthDenied addr user (id_fingerprint i) err],
                              Inl \<lparr>den_addr = addr, den_user = user, den_reason = err\<rparr>)
                 | Inr _ \<Rightarrow> (emit [AuthAccepted addr user (id_fingerprint i)
                                    (sub_name (id_subject i)) (sub_role (id_subject i))],
                            Inr i))))"

section \<open>The login rule\<close>

lemmas roles = RolePerson_def RoleMachine_def RoleEnrol_def RoleBootstrap_def RolePairing_def
lemmas ext_keys = extSubject_def extRole_def extFingerprint_def extPairingWindow_def

text \<open>
  The rule both lines of defence apply, as one predicate: the login names the owner of the key
  in the form of the owner's role.
\<close>

definition names_owner :: "string \<Rightarrow> subject \<Rightarrow> bool" where
  "names_owner username sub \<longleftrightarrow>
     (sub_role sub = RolePerson \<and> (\<exists>pn. ParseUsername username = Inr pn \<and> pn_person pn = sub_name sub)) \<or>
     (sub_role sub = RoleMachine \<and> ParseMachineUsername username = Inr (sub_name sub)) \<or>
     (sub_role sub = RoleEnrol \<and> username = ''enrol'') \<or>
     (sub_role sub = RoleBootstrap \<and> username = ''bootstrap'') \<or>
     (sub_role sub = RolePairing \<and> username = ''pairing'')"

lemma roles_distinct [simp]:
  "RolePerson \<noteq> RoleMachine" "RolePerson \<noteq> RoleEnrol" "RolePerson \<noteq> RoleBootstrap" "RolePerson \<noteq> RolePairing"
  "RoleMachine \<noteq> RolePerson" "RoleMachine \<noteq> RoleEnrol" "RoleMachine \<noteq> RoleBootstrap" "RoleMachine \<noteq> RolePairing"
  "RoleEnrol \<noteq> RolePerson" "RoleEnrol \<noteq> RoleMachine" "RoleEnrol \<noteq> RoleBootstrap" "RoleEnrol \<noteq> RolePairing"
  "RoleBootstrap \<noteq> RolePerson" "RoleBootstrap \<noteq> RoleMachine" "RoleBootstrap \<noteq> RoleEnrol" "RoleBootstrap \<noteq> RolePairing"
  "RolePairing \<noteq> RolePerson" "RolePairing \<noteq> RoleMachine" "RolePairing \<noteq> RoleEnrol" "RolePairing \<noteq> RoleBootstrap"
  by (simp_all add: roles)

lemma login_switch:
  assumes "mismatch \<noteq> ok"
    and "other \<noteq> ok \<or> sub_role sub \<in> {RolePerson, RoleMachine, RoleEnrol, RoleBootstrap, RolePairing}"
  shows "(if sub_role sub = RolePerson then
            (case ParseUsername username of Inl _ \<Rightarrow> mismatch
             | Inr parsed \<Rightarrow> if pn_person parsed \<noteq> sub_name sub then mismatch else ok)
          else if sub_role sub = RoleMachine then
            (case ParseMachineUsername username of Inl _ \<Rightarrow> mismatch
             | Inr i \<Rightarrow> if i \<noteq> sub_name sub then mismatch else ok)
          else if sub_role sub = RoleEnrol then (if username \<noteq> ''enrol'' then mismatch else ok)
          else if sub_role sub = RoleBootstrap then (if username \<noteq> ''bootstrap'' then mismatch else ok)
          else if sub_role sub = RolePairing then (if username \<noteq> ''pairing'' then mismatch else ok)
          else other) = ok \<longleftrightarrow> names_owner username sub"
proof -
  consider "sub_role sub = RolePerson" | "sub_role sub = RoleMachine" | "sub_role sub = RoleEnrol"
    | "sub_role sub = RoleBootstrap" | "sub_role sub = RolePairing"
    | "sub_role sub \<notin> {RolePerson, RoleMachine, RoleEnrol, RoleBootstrap, RolePairing}" by blast
  then show ?thesis
    using assms by cases (simp_all add: names_owner_def split: sum.split)
qed

lemma Resolve_iff:
  "Resolve lkp username key = Inr i \<longleftrightarrow>
     AcceptKey key = None \<and> lkp (Fingerprint key) = Inr (Some (id_subject i)) \<and>
     id_fingerprint i = Fingerprint key \<and> names_owner username (id_subject i)"
proof (cases "AcceptKey key")
  case None
  then show ?thesis
  proof (cases "lkp (Fingerprint key)")
    case (Inr r)
    show ?thesis
    proof (cases r)
      case (Some sub)
      let ?ok = "\<lparr>id_subject = sub, id_fingerprint = Fingerprint key\<rparr>"
      have "Resolve lkp username key = Inr ?ok \<longleftrightarrow> names_owner username sub"
        unfolding Resolve_def Let_def None Inr Some option.case sum.case
        by (rule login_switch) simp_all
      moreover have "Resolve lkp username key = Inr i \<Longrightarrow> i = ?ok"
        unfolding Resolve_def Let_def None Inr Some option.case sum.case
        by (simp split: if_splits sum.splits)
      ultimately show ?thesis
        using None Inr Some by (cases i) auto
    qed (use None Inr in \<open>simp add: Resolve_def Let_def\<close>)
  qed (use None in \<open>simp add: Resolve_def Let_def\<close>)
qed (simp add: Resolve_def)

lemma ExtractIdentity_callback:
  assumes "PublicKeyCallback lkp user key = Inr perm" "Resolve lkp user key = Inr i"
  shows "ExtractIdentity (Some perm) = Inr i"
proof -
  have "sub_role (id_subject i) \<in> {RolePerson, RoleMachine, RoleEnrol, RoleBootstrap, RolePairing}"
    using assms(2) by (auto simp: Resolve_iff names_owner_def)
  then show ?thesis
    using assms by (auto simp: PublicKeyCallback_def ExtractIdentity_def ext_keys)
qed

lemma VerifyLogin_iff:
  "VerifyLogin perm user = Inr i \<longleftrightarrow> ExtractIdentity perm = Inr i \<and> names_owner user (id_subject i)"
proof (cases "ExtractIdentity perm")
  case (Inr j)
  let ?s = "id_subject j"
  have role: "sub_role ?s \<in> {RolePerson, RoleMachine, RoleEnrol, RoleBootstrap, RolePairing}"
    using Inr by (auto simp: ExtractIdentity_def split: option.splits if_splits)
  have "VerifyLogin perm user = Inr j \<longleftrightarrow> names_owner user ?s"
    unfolding VerifyLogin_def Let_def Inr sum.case by (rule login_switch) (use role in simp_all)
  moreover have "VerifyLogin perm user = Inr i \<Longrightarrow> i = j"
    unfolding VerifyLogin_def Let_def Inr sum.case by (simp split: if_splits sum.splits)
  ultimately show ?thesis using Inr by auto
qed (simp add: VerifyLogin_def)

lemma callback_iff:
  "(\<exists>perm. PublicKeyCallback lkp user key = Inr perm) \<longleftrightarrow> (\<exists>i. Resolve lkp user key = Inr i)"
  by (auto simp: PublicKeyCallback_def split: sum.splits)

section \<open>Properties\<close>

text \<open>
  C4. Resolve grants an identity exactly when the key passes the algorithm policy (a 32-byte
  ed25519 or an RSA of at least 3072 bits), the state knows its fingerprint, and the login names
  the owner of the key in the form of the owner's role; the identity is then the owner the state
  gave and the fingerprint of the key itself, and nothing of it comes from the login.
\<close>

theorem resolve_exact:
  "Resolve lkp username key = Inr i \<longleftrightarrow>
     (pk_crypto key = Some (Ed25519 32) \<or> (\<exists>bits \<ge> 3072. pk_crypto key = Some (RSA bits))) \<and>
     lkp (Fingerprint key) = Inr (Some (id_subject i)) \<and>
     id_fingerprint i = Fingerprint key \<and>
     names_owner username (id_subject i)"
  by (auto simp: Resolve_iff AcceptKey_def PublicKeySize_def minRSABits_def
      split: option.splits crypto_payload.splits)

definition sample_key :: pubkey where
  "sample_key = \<lparr>pk_wire = [1, 2, 3], pk_crypto = Some (Ed25519 32)\<rparr>"

definition sample_lookup :: lookup where
  "sample_lookup fp = (if fp = Fingerprint sample_key
     then Inr (Some \<lparr>sub_name = ''ann'', sub_role = RolePerson\<rparr>) else Inr None)"

definition sample_identity :: identity where
  "sample_identity = \<lparr>id_subject = \<lparr>sub_name = ''ann'', sub_role = RolePerson\<rparr>,
     id_fingerprint = Fingerprint sample_key\<rparr>"

lemma sample_login: "ParseUsername ''ann:win01'' = Inr \<lparr>pn_person = ''ann'', pn_machine = ''win01''\<rparr>"
  by (simp add: ParseUsername_def nameRe_def name_first_def name_char_def less_eq_char_def)

lemma sample_resolves: "Resolve sample_lookup ''ann:win01'' sample_key = Inr sample_identity"
  by (simp add: Resolve_iff AcceptKey_def sample_key_def PublicKeySize_def names_owner_def sample_login
      sample_lookup_def sample_identity_def)

theorem resolve_exact_witness:
  "Resolve sample_lookup ''ann:win01'' sample_key = Inr sample_identity \<and>
   id_fingerprint sample_identity = Fingerprint sample_key \<and>
   names_owner ''ann:win01'' (id_subject sample_identity)"
  using resolve_exact [of sample_lookup "''ann:win01''" sample_key sample_identity] sample_resolves by simp

text \<open>
  C37. The second line of defence agrees with the first. What the public-key callback writes into
  the permissions is read back unchanged by ExtractIdentity; VerifyLogin on the same login accepts
  it with the same identity; and on any other login it accepts only if that login also names the
  owner of the key, never anybody else.
\<close>

theorem callback_identity_roundtrip:
  assumes "PublicKeyCallback lkp user key = Inr perm"
  shows "\<exists>i. Resolve lkp user key = Inr i \<and> ExtractIdentity (Some perm) = Inr i \<and>
     VerifyLogin (Some perm) user = Inr i \<and>
     (\<forall>user' j. VerifyLogin (Some perm) user' = Inr j \<longrightarrow> j = i \<and> names_owner user' (id_subject i))"
proof -
  obtain i where i: "Resolve lkp user key = Inr i" using assms callback_iff [of lkp user key] by blast
  have e: "ExtractIdentity (Some perm) = Inr i" using assms i by (rule ExtractIdentity_callback)
  with i show ?thesis by (auto simp: VerifyLogin_iff Resolve_iff)
qed

theorem callback_identity_roundtrip_witness:
  "\<exists>perm. PublicKeyCallback sample_lookup ''ann:win01'' sample_key = Inr perm \<and>
     VerifyLogin (Some perm) ''ann:win01'' = Inr sample_identity"
proof -
  have "\<exists>perm. PublicKeyCallback sample_lookup ''ann:win01'' sample_key = Inr perm"
    using sample_resolves by (simp add: PublicKeyCallback_def)
  then show ?thesis
    using callback_identity_roundtrip [of sample_lookup "''ann:win01''" sample_key] sample_resolves
    by fastforce
qed

text \<open>
  The contract of \<open>ssh.NewServerConn\<close>: on success the permissions are what the callback
  returned for the connection's user and one of the keys it was asked about.
\<close>

definition honest_handshake :: "handshake \<Rightarrow> bool" where
  "honest_handshake hs \<longleftrightarrow> (\<forall>cb calls user perms. hs cb = (calls, Some (user, perms)) \<longrightarrow>
     (\<exists>key p. (user, key) \<in> set calls \<and> cb user key = Inr p \<and> perms = Some p))"


definition sample_handshake :: handshake where
  "sample_handshake cb = (case cb ''ann:win01'' sample_key of
      Inl _ \<Rightarrow> ([(''ann:win01'', sample_key)], None)
    | Inr p \<Rightarrow> ([(''ann:win01'', sample_key)], Some (''ann:win01'', Some p)))"


text \<open>
  Every failed handshake leaves a trace: when FinishAuth denies, no acceptance is journalled,
  at least one denial is, all of them for the peer's address, and a handshake that failed after
  refusing keys journals one denial per refused key, in the order they were offered.
\<close>

theorem finish_auth_denies_visibly:
  assumes "FinishAuth lkp orig hs addr True = (evs, Inl den)"
  shows "evs \<noteq> [] \<and> den_addr den = addr \<and> (\<forall>ev \<in> set evs. \<exists>u f r. ev = AuthDenied addr u f r) \<and>
     (snd (hs (case orig of Some f \<Rightarrow> f | None \<Rightarrow> PublicKeyCallback lkp)) = None \<longrightarrow>
        evs = [AuthDenied addr '''' '''' HandshakeFailed] \<or>
        evs = map (\<lambda>(u, f, r). AuthDenied addr u f r)
          (offered_of (case orig of Some f \<Rightarrow> f | None \<Rightarrow> PublicKeyCallback lkp)
             (fst (hs (case orig of Some f \<Rightarrow> f | None \<Rightarrow> PublicKeyCallback lkp)))))"
proof -
  define cb where "cb = (case orig of Some f \<Rightarrow> f | None \<Rightarrow> PublicKeyCallback lkp)"
  obtain calls out where hs: "hs cb = (calls, out)" by force
  show ?thesis
  proof (cases out)
    case None
    then show ?thesis
      using assms unfolding FinishAuth_def Let_def cb_def [symmetric] hs
      by (auto simp: hs split: if_splits prod.splits)
  next
    case (Some up)
    then show ?thesis
      using assms unfolding FinishAuth_def Let_def cb_def [symmetric] hs
      by (auto simp: hs split: prod.splits sum.splits)
  qed
qed

theorem finish_auth_denies_visibly_witness:
  "FinishAuth (\<lambda>fp. Inr None) None sample_handshake ''10.0.0.1:22'' True =
     ([AuthDenied ''10.0.0.1:22'' ''ann:win01'' (Fingerprint sample_key) (ErrUnknownKey (Fingerprint sample_key))],
      Inl \<lparr>den_addr = ''10.0.0.1:22'', den_user = ''ann:win01'',
           den_reason = ErrUnknownKey (Fingerprint sample_key)\<rparr>) \<and>
   (\<exists>evs den. FinishAuth (\<lambda>fp. Inr None) None sample_handshake ''10.0.0.1:22'' True = (evs, Inl den) \<and> evs \<noteq> [])"
proof -
  have "Resolve (\<lambda>fp. Inr None) ''ann:win01'' sample_key = Inl (ErrUnknownKey (Fingerprint sample_key))"
    by (simp add: Resolve_def AcceptKey_def sample_key_def PublicKeySize_def)
  then have run: "FinishAuth (\<lambda>fp. Inr None) None sample_handshake ''10.0.0.1:22'' True =
     ([AuthDenied ''10.0.0.1:22'' ''ann:win01'' (Fingerprint sample_key) (ErrUnknownKey (Fingerprint sample_key))],
      Inl \<lparr>den_addr = ''10.0.0.1:22'', den_user = ''ann:win01'',
           den_reason = ErrUnknownKey (Fingerprint sample_key)\<rparr>)"
    by (simp add: FinishAuth_def sample_handshake_def PublicKeyCallback_def offered_of_def)
  show ?thesis using run finish_auth_denies_visibly [OF run] by blast
qed

end
