(* ===== verification/Rate_Limiter.thy ===== *)
theory Rate_Limiter
  imports Prelude
begin

text \<open>
  The failure limiter of the authentication layer: \<open>internal/gateway/auth/ratelimit.go\<close>. One
  mutex covers the two maps, so every operation is atomic; the goroutine of \<open>sweepLoop\<close> is one
  more operation, the sweep at a time of its own clock. Counting drops the failures that fell
  out of the window from the stored state, as in the source.
\<close>

section \<open>Data\<close>

record rate_config =
  MaxKnownFailures :: int
  MaxUnknownFailures :: int
  rWindow :: duration
  PairBanDuration :: duration
  AddrBanDuration :: duration

record rate_decision =
  Allowed :: bool
  Banned :: bool
  Until :: instant
  Failures :: nat
  PerAddress :: bool

record fail_state =
  failures :: "instant list"
  bannedTill :: instant

type_synonym pair_key = "string \<times> string"

record limiter =
  rl_cfg :: rate_config
  rl_pairs :: "(pair_key, fail_state) gomap"
  rl_addrs :: "(string, fail_state) gomap"

datatype rate_error = BadMaxKnown | BadMaxUnknown | BadDurations

datatype rate_event = RateExceeded string string instant

section \<open>Operations\<close>

definition NewRateLimiter :: "rate_config \<Rightarrow> rate_error + limiter" where
  "NewRateLimiter cfg =
     (if MaxKnownFailures cfg \<le> 0 then Inl BadMaxKnown
      else if MaxUnknownFailures cfg \<le> 0 then Inl BadMaxUnknown
      else if rWindow cfg \<le> 0 \<or> PairBanDuration cfg \<le> 0 \<or> AddrBanDuration cfg \<le> 0 then Inl BadDurations
      else Inr \<lparr>rl_cfg = cfg, rl_pairs = [], rl_addrs = []\<rparr>)"

definition liveIn :: "fail_state \<Rightarrow> duration \<Rightarrow> instant \<Rightarrow> fail_state \<times> nat" where
  "liveIn st window now =
     (let cutoff = now - window; live = filter (\<lambda>t. t > cutoff) (failures st)
      in (st\<lparr>failures := live\<rparr>, length live))"

definition allow_plain :: rate_decision where
  "allow_plain = \<lparr>Allowed = True, Banned = False, Until = 0, Failures = 0, PerAddress = False\<rparr>"

definition stateOf ::
  "('k, fail_state) gomap \<Rightarrow> 'k \<Rightarrow> duration \<Rightarrow> instant \<Rightarrow> ('k, fail_state) gomap \<times> rate_decision" where
  "stateOf m k window now = (case gm_get m k of
      None \<Rightarrow> (m, allow_plain)
    | Some st \<Rightarrow>
       (case liveIn st window now of (st1, n) \<Rightarrow>
          if now < bannedTill st1
          then (gm_put k st1 m, \<lparr>Allowed = False, Banned = True, Until = bannedTill st1, Failures = n,
                                  PerAddress = False\<rparr>)
          else if n = 0 then (gm_del k m, allow_plain)
          else (gm_put k st1 m, allow_plain\<lparr>Failures := n\<rparr>)))"

definition Allow :: "limiter \<Rightarrow> string \<Rightarrow> string \<Rightarrow> instant \<Rightarrow> limiter \<times> rate_decision" where
  "Allow l addr fingerprint now =
    (case stateOf (rl_addrs l) addr (rWindow (rl_cfg l)) now of (addrs1, dAddr) \<Rightarrow>
       let l1 = l\<lparr>rl_addrs := addrs1\<rparr>
       in if Banned dAddr
          then (l1, \<lparr>Allowed = False, Banned = True, Until = Until dAddr, Failures = Failures dAddr,
                     PerAddress = True\<rparr>)
          else (case stateOf (rl_pairs l1) (addr, fingerprint) (rWindow (rl_cfg l)) now of (pairs1, dPair) \<Rightarrow>
             let l2 = l1\<lparr>rl_pairs := pairs1\<rparr>
             in if Banned dPair
                then (l2, \<lparr>Allowed = False, Banned = True, Until = Until dPair, Failures = Failures dPair,
                           PerAddress = False\<rparr>)
                else if Failures dPair > 0 then (l2, allow_plain\<lparr>Failures := Failures dPair\<rparr>)
                else if Failures dAddr > 0
                then (l2, allow_plain\<lparr>Failures := Failures dAddr, PerAddress := True\<rparr>)
                else (l2, allow_plain)))"

text \<open>
  The body of \<open>RecordFailure\<close> after it has chosen its scale: the map and key, the threshold and
  the ban duration. The third result is the end of the ban when this failure tripped it, which is
  when the one event is emitted.
\<close>

definition record_on ::
  "('k, fail_state) gomap \<Rightarrow> 'k \<Rightarrow> duration \<Rightarrow> int \<Rightarrow> duration \<Rightarrow> bool \<Rightarrow> instant \<Rightarrow>
     ('k, fail_state) gomap \<times> rate_decision \<times> instant option" where
  "record_on m k window maxF banDur perAddr now =
    (let st = (case gm_get m k of Some st \<Rightarrow> st | None \<Rightarrow> \<lparr>failures = [], bannedTill = 0\<rparr>)
     in if now < bannedTill st
        then (case liveIn st window now of (st1, n) \<Rightarrow>
                (gm_put k st1 m, \<lparr>Allowed = False, Banned = True, Until = bannedTill st, Failures = n,
                                   PerAddress = perAddr\<rparr>, None))
        else (case liveIn (st\<lparr>failures := failures st @ [now]\<rparr>) window now of (st1, n) \<Rightarrow>
                if int n \<ge> maxF
                then (gm_put k \<lparr>failures = [], bannedTill = now + banDur\<rparr> m,
                      \<lparr>Allowed = False, Banned = True, Until = now + banDur, Failures = 0,
                       PerAddress = perAddr\<rparr>, Some (now + banDur))
                else (gm_put k st1 m, \<lparr>Allowed = True, Banned = False, Until = 0, Failures = n,
                                        PerAddress = perAddr\<rparr>, None)))"

definition RecordFailure ::
  "limiter \<Rightarrow> string \<Rightarrow> string \<Rightarrow> bool \<Rightarrow> instant \<Rightarrow> limiter \<times> rate_decision \<times> rate_event list" where
  "RecordFailure l addr fingerprint known now =
    (let cfg = rl_cfg l; ev = (\<lambda>tripped. case tripped of None \<Rightarrow> []
           | Some until \<Rightarrow> [RateExceeded addr fingerprint until])
     in if known
        then (case record_on (rl_pairs l) (addr, fingerprint) (rWindow cfg) (MaxKnownFailures cfg)
                     (PairBanDuration cfg) False now of (m, d, tripped) \<Rightarrow> (l\<lparr>rl_pairs := m\<rparr>, d, ev tripped))
        else (case record_on (rl_addrs l) addr (rWindow cfg) (MaxUnknownFailures cfg)
                     (AddrBanDuration cfg) True now of (m, d, tripped) \<Rightarrow> (l\<lparr>rl_addrs := m\<rparr>, d, ev tripped)))"

definition RecordSuccess :: "limiter \<Rightarrow> string \<Rightarrow> string \<Rightarrow> instant \<Rightarrow> limiter" where
  "RecordSuccess l addr fingerprint now = (case gm_get (rl_pairs l) (addr, fingerprint) of
      None \<Rightarrow> l
    | Some st \<Rightarrow> if \<not> now < bannedTill st
                then l\<lparr>rl_pairs := gm_del (addr, fingerprint) (rl_pairs l)\<rparr> else l)"

text \<open>
  The sweep counts an entry (dropping its stale failures) only when its ban is over, and deletes
  it when the count is zero.
\<close>

definition sweep_map :: "duration \<Rightarrow> instant \<Rightarrow> ('k, fail_state) gomap \<Rightarrow> ('k, fail_state) gomap" where
  "sweep_map window now m =
     map (\<lambda>(k, st). (k, if \<not> now < bannedTill st then fst (liveIn st window now) else st))
       (filter (\<lambda>(k, st). \<not> (\<not> now < bannedTill st \<and> snd (liveIn st window now) = 0)) m)"

definition sweepExpiredLocked :: "limiter \<Rightarrow> instant \<Rightarrow> limiter" where
  "sweepExpiredLocked l now =
     l\<lparr>rl_addrs := sweep_map (rWindow (rl_cfg l)) now (rl_addrs l),
       rl_pairs := sweep_map (rWindow (rl_cfg l)) now (rl_pairs l)\<rparr>"

datatype rl_call =
    CallAllow string string instant
  | CallFailure string string bool instant
  | CallSuccess string string instant
  | CallSweep instant

fun rl_exec :: "limiter \<Rightarrow> rl_call \<Rightarrow> limiter \<times> rate_decision option \<times> rate_event list" where
  "rl_exec l (CallAllow a f t) = (case Allow l a f t of (l', d) \<Rightarrow> (l', Some d, []))"
| "rl_exec l (CallFailure a f known t) = (case RecordFailure l a f known t of (l', d, evs) \<Rightarrow> (l', Some d, evs))"
| "rl_exec l (CallSuccess a f t) = (RecordSuccess l a f t, None, [])"
| "rl_exec l (CallSweep t) = (sweepExpiredLocked l t, None, [])"

fun call_time :: "rl_call \<Rightarrow> instant" where
  "call_time (CallAllow a f t) = t"
| "call_time (CallFailure a f k t) = t"
| "call_time (CallSuccess a f t) = t"
| "call_time (CallSweep t) = t"

section \<open>What can be observed of a counter\<close>

text \<open>
  At a time a counter is worth the failures still in the window and the end of its ban if the
  ban is still running. Every decision is a function of this observation, and a later
  observation is a function of an earlier one; an absent entry observes as no failures and no ban.
\<close>

type_synonym counter_obs = "instant list \<times> instant option"

definition obs_st :: "duration \<Rightarrow> instant \<Rightarrow> fail_state \<Rightarrow> counter_obs" where
  "obs_st w t st = (filter (\<lambda>x. x > t - w) (failures st),
     if t < bannedTill st then Some (bannedTill st) else None)"

definition obs :: "duration \<Rightarrow> instant \<Rightarrow> ('k, fail_state) gomap \<Rightarrow> 'k \<Rightarrow> counter_obs" where
  "obs w t m k = (case gm_get m k of None \<Rightarrow> ([], None) | Some st \<Rightarrow> obs_st w t st)"

definition later :: "duration \<Rightarrow> instant \<Rightarrow> counter_obs \<Rightarrow> counter_obs" where
  "later w t ob = (filter (\<lambda>x. x > t - w) (fst ob),
     case snd ob of Some u \<Rightarrow> (if t < u then Some u else None) | None \<Rightarrow> None)"

definition obs_record :: "duration \<Rightarrow> int \<Rightarrow> duration \<Rightarrow> instant \<Rightarrow> counter_obs \<Rightarrow> counter_obs" where
  "obs_record w maxF banDur now ob = (case snd ob of
      Some u \<Rightarrow> ob
    | None \<Rightarrow> let live = fst ob @ filter (\<lambda>x. x > now - w) [now]
             in if int (length live) \<ge> maxF then later w now ([], Some (now + banDur)) else (live, None))"

lemma obs_later: "now \<le> t \<Longrightarrow> obs w t m k = later w t (obs w now m k)"
proof -
  assume "now \<le> t"
  then have "filter (\<lambda>x. x > t - w) (filter (\<lambda>x. x > now - w) fs) = filter (\<lambda>x. x > t - w) fs" for fs :: "instant list"
    by (induction fs) auto
  then show ?thesis using \<open>now \<le> t\<close> by (auto simp: obs_def obs_st_def later_def split: option.split)
qed

lemma obs_put: "obs w t (gm_put k st m) k' = (if k' = k then obs_st w t st else obs w t m k')"
  by (simp add: obs_def)

lemma obs_del: "obs w t (gm_del k m) k' = (if k' = k then ([], None) else obs w t m k')"
  by (simp add: obs_def)

lemma obs_stateOf: "obs w now (fst (stateOf m k w now)) k' = obs w now m k'"
  by (auto simp: stateOf_def liveIn_def Let_def obs_def obs_st_def filter_empty_conv split: option.split)

lemma decision_stateOf:
  "snd (stateOf m k w now) = (case obs w now m k of (live, ban) \<Rightarrow> (case ban of
      Some u \<Rightarrow> \<lparr>Allowed = False, Banned = True, Until = u, Failures = length live, PerAddress = False\<rparr>
    | None \<Rightarrow> allow_plain\<lparr>Failures := length live\<rparr>))"
  by (auto simp: stateOf_def liveIn_def Let_def obs_def obs_st_def allow_plain_def split: option.split)

lemma obs_record_on:
  "0 \<le> now \<Longrightarrow> obs w now (fst (record_on m k w maxF banDur pa now)) k' =
     (if k' = k then obs_record w maxF banDur now (obs w now m k) else obs w now m k')"
  by (auto simp: record_on_def liveIn_def Let_def obs_def obs_st_def obs_record_def later_def
      split: option.split)

lemma decision_record_on:
  "0 \<le> now \<Longrightarrow> snd (record_on m k w maxF banDur pa now) = (case obs w now m k of (live, ban) \<Rightarrow> (case ban of
      Some u \<Rightarrow> (\<lparr>Allowed = False, Banned = True, Until = u, Failures = length live, PerAddress = pa\<rparr>, None)
    | None \<Rightarrow> let n = length (live @ filter (\<lambda>x. x > now - w) [now])
             in if int n \<ge> maxF
                then (\<lparr>Allowed = False, Banned = True, Until = now + banDur, Failures = 0, PerAddress = pa\<rparr>,
                      Some (now + banDur))
                else (\<lparr>Allowed = True, Banned = False, Until = 0, Failures = n, PerAddress = pa\<rparr>, None)))"
  by (auto simp: record_on_def liveIn_def Let_def obs_def obs_st_def split: option.split)

lemma get_sweep_map:
  "gm_wf m \<Longrightarrow> gm_get (sweep_map w now m) k = (case gm_get m k of None \<Rightarrow> None
     | Some st \<Rightarrow> if now < bannedTill st then Some st
                else if snd (liveIn st w now) = 0 then None else Some (fst (liveIn st w now)))"
proof (induction m)
  case (Cons x m)
  then have "gm_wf m" "gm_get m (fst x) = None" by (auto simp: gm_wf_def map_of_eq_None_iff)
  with Cons.IH show ?case by (cases x) (auto simp: sweep_map_def split: option.splits)
qed (simp add: sweep_map_def)

lemma gm_wf_sweep_map: "gm_wf m \<Longrightarrow> gm_wf (sweep_map w now m)"
proof -
  have "map fst (sweep_map w now m) =
      map fst (filter (\<lambda>(k, st). \<not> (\<not> now < bannedTill st \<and> snd (liveIn st w now) = 0)) m)"
    by (simp add: sweep_map_def comp_def case_prod_unfold)
  then show "gm_wf m \<Longrightarrow> ?thesis" by (simp add: gm_wf_def distinct_map_filter)
qed

lemma obs_sweep_map: "gm_wf m \<Longrightarrow> obs w now (sweep_map w now m) k = obs w now m k"
  by (auto simp: obs_def obs_st_def get_sweep_map liveIn_def Let_def filter_empty_conv split: option.split)

section \<open>The invariant\<close>

text \<open>
  The maps are well formed, the configuration is one the constructor accepts, and no entry ever
  stores as many failures as its threshold: the memory of one counter is bounded.
\<close>

definition small :: "int \<Rightarrow> ('k, fail_state) gomap \<Rightarrow> bool" where
  "small maxF m \<longleftrightarrow> gm_wf m \<and> (\<forall>k st. gm_get m k = Some st \<longrightarrow> int (length (failures st)) < maxF)"

definition rl_inv :: "limiter \<Rightarrow> bool" where
  "rl_inv l \<longleftrightarrow> small (MaxKnownFailures (rl_cfg l)) (rl_pairs l) \<and>
     small (MaxUnknownFailures (rl_cfg l)) (rl_addrs l) \<and>
     0 < MaxKnownFailures (rl_cfg l) \<and> 0 < MaxUnknownFailures (rl_cfg l) \<and> 0 < rWindow (rl_cfg l) \<and>
     0 < PairBanDuration (rl_cfg l) \<and> 0 < AddrBanDuration (rl_cfg l)"

definition rl_init :: "limiter \<Rightarrow> bool" where
  "rl_init l \<longleftrightarrow> (\<exists>cfg. NewRateLimiter cfg = Inr l)"

definition rl_step :: "limiter \<Rightarrow> limiter \<Rightarrow> bool" where
  "rl_step l l' \<longleftrightarrow> (\<exists>call. l' = fst (rl_exec l call))"

lemma small_put: "small n m \<Longrightarrow> int (length (failures st)) < n \<Longrightarrow> small n (gm_put k st m)"
  by (simp add: small_def)

lemma small_del: "small n m \<Longrightarrow> small n (gm_del k m)"
  by (simp add: small_def)

lemma small_get: "small n m \<Longrightarrow> gm_get m k = Some st \<Longrightarrow> int (length (filter P (failures st))) < n"
  unfolding small_def
  by (metis length_filter_le of_nat_mono order_le_less_trans)

lemma small_pruned:
  "small n m \<Longrightarrow> gm_get m k = Some st \<Longrightarrow> small n (gm_put k' (fst (liveIn st w now)) m)"
  by (rule small_put) (auto simp: liveIn_def Let_def intro: small_get)

lemma small_stateOf: "small n m \<Longrightarrow> small n (fst (stateOf m k w now))"
  by (auto simp: stateOf_def case_prod_beta small_del small_pruned split: option.split)

lemma small_record_on: "small n m \<Longrightarrow> 0 < n \<Longrightarrow> small n (fst (record_on m k w n d pa now))"
proof (cases "gm_get m k")
  case (Some st)
  assume "small n m" "0 < n"
  with Some show ?thesis
    using small_pruned [OF _ Some, of n]
    by (auto simp: record_on_def Let_def case_prod_beta liveIn_def intro!: small_put)
qed (auto simp: record_on_def liveIn_def Let_def intro!: small_put)

lemma small_sweep: "small n m \<Longrightarrow> small n (sweep_map w now m)"
proof -
  assume s: "small n m"
  then have wf: "gm_wf m" by (simp add: small_def)
  show ?thesis
    unfolding small_def using gm_wf_sweep_map [OF wf] get_sweep_map [OF wf, of w now] s
    by (auto simp: liveIn_def Let_def intro: small_get dest: small_get [of n m _ _ "\<lambda>_. True"]
        split: option.splits if_splits)
qed

lemma rl_exec_cfg [simp]: "rl_cfg (fst (rl_exec l call)) = rl_cfg l"
  by (cases call) (auto simp: Allow_def RecordFailure_def RecordSuccess_def sweepExpiredLocked_def
      Let_def case_prod_beta split: option.split)

lemma rl_inv_exec: "rl_inv l \<Longrightarrow> rl_inv (fst (rl_exec l call))"
  unfolding rl_inv_def rl_exec_cfg
  by (cases call) (auto simp: Allow_def RecordFailure_def RecordSuccess_def sweepExpiredLocked_def
      Let_def case_prod_beta small_stateOf small_record_on small_del small_sweep split: option.split)

interpretation rate: inv_system rl_init rl_step rl_inv
proof unfold_locales
  show "rl_init l \<Longrightarrow> rl_inv l" for l
    by (auto simp: rl_init_def NewRateLimiter_def rl_inv_def small_def split: if_splits)
  show "rl_inv l \<Longrightarrow> rl_step l l' \<Longrightarrow> rl_inv l'" for l l'
    by (auto simp: rl_step_def rl_inv_exec)
qed

section \<open>Limiters that cannot be told apart\<close>

definition rl_eq :: "instant \<Rightarrow> limiter \<Rightarrow> limiter \<Rightarrow> bool" where
  "rl_eq t l1 l2 \<longleftrightarrow> rl_cfg l1 = rl_cfg l2 \<and>
     obs (rWindow (rl_cfg l1)) t (rl_addrs l1) = obs (rWindow (rl_cfg l1)) t (rl_addrs l2) \<and>
     obs (rWindow (rl_cfg l1)) t (rl_pairs l1) = obs (rWindow (rl_cfg l1)) t (rl_pairs l2)"

lemma obs_later_fun: "now \<le> t \<Longrightarrow> obs w t m = later w t \<circ> obs w now m"
  by (simp add: fun_eq_iff obs_later)

lemma obs_stateOf_fun: "obs w now (fst (stateOf m k w now)) = obs w now m"
  by (rule ext) (rule obs_stateOf)

lemma obs_record_on_fun:
  "0 \<le> now \<Longrightarrow> obs w now (fst (record_on m k w maxF banDur pa now)) =
     (obs w now m)(k := obs_record w maxF banDur now (obs w now m k))"
  by (rule ext) (simp add: obs_record_on)

lemma obs_sweep_fun: "gm_wf m \<Longrightarrow> obs w now (sweep_map w now m) = obs w now m"
  by (rule ext) (rule obs_sweep_map)

lemma rl_eq_later: "rl_eq s l1 l2 \<Longrightarrow> s \<le> t \<Longrightarrow> rl_eq t l1 l2"
  by (auto simp: rl_eq_def obs_later_fun [of s t])

lemma rl_eq_refl [simp]: "rl_eq t l l"
  by (simp add: rl_eq_def)

lemma rl_eq_sweep: "rl_inv l \<Longrightarrow> rl_eq t (sweepExpiredLocked l t) l"
  by (simp add: rl_eq_def sweepExpiredLocked_def rl_inv_def small_def obs_sweep_fun)

lemma rl_eq_trans: "rl_eq t l1 l2 \<Longrightarrow> rl_eq t l2 l3 \<Longrightarrow> rl_eq t l1 l3"
  by (auto simp: rl_eq_def)

lemma rl_eq_sym: "rl_eq t l1 l2 \<Longrightarrow> rl_eq t l2 l1"
  by (auto simp: rl_eq_def)

definition allow_dec :: "counter_obs \<Rightarrow> counter_obs \<Rightarrow> rate_decision" where
  "allow_dec oa op = (case snd oa of
      Some u \<Rightarrow> \<lparr>Allowed = False, Banned = True, Until = u, Failures = length (fst oa), PerAddress = True\<rparr>
    | None \<Rightarrow> (case snd op of
        Some u \<Rightarrow> \<lparr>Allowed = False, Banned = True, Until = u, Failures = length (fst op), PerAddress = False\<rparr>
      | None \<Rightarrow> if fst op \<noteq> [] then allow_plain\<lparr>Failures := length (fst op)\<rparr>
               else if fst oa \<noteq> [] then allow_plain\<lparr>Failures := length (fst oa), PerAddress := True\<rparr>
               else allow_plain))"

lemma Allow_decision:
  "snd (Allow l a f t) = allow_dec (obs (rWindow (rl_cfg l)) t (rl_addrs l) a)
     (obs (rWindow (rl_cfg l)) t (rl_pairs l) (a, f))"
  by (auto simp: Allow_def Let_def case_prod_beta decision_stateOf allow_dec_def allow_plain_def
      split: option.split)

lemma Allow_unchanged: "rl_eq t (fst (Allow l a f t)) l"
  by (simp add: Allow_def Let_def rl_eq_def case_prod_beta obs_stateOf_fun)

lemma Allow_obs:
  assumes "rl_eq t l1 l2"
  shows "snd (Allow l1 a f t) = snd (Allow l2 a f t)" "rl_eq t (fst (Allow l1 a f t)) (fst (Allow l2 a f t))"
proof -
  show "snd (Allow l1 a f t) = snd (Allow l2 a f t)"
    using assms by (auto simp: Allow_decision rl_eq_def)
  show "rl_eq t (fst (Allow l1 a f t)) (fst (Allow l2 a f t))"
    using assms Allow_unchanged rl_eq_trans rl_eq_sym by meson
qed

lemma RecordFailure_obs:
  assumes "rl_eq t l1 l2" "0 \<le> t"
  shows "snd (RecordFailure l1 a f known t) = snd (RecordFailure l2 a f known t)"
    "rl_eq t (fst (RecordFailure l1 a f known t)) (fst (RecordFailure l2 a f known t))"
proof -
  define w where "w = rWindow (rl_cfg l2)"
  have eq: "rl_cfg l1 = rl_cfg l2" "obs w t (rl_addrs l1) = obs w t (rl_addrs l2)"
    "obs w t (rl_pairs l1) = obs w t (rl_pairs l2)"
    using assms(1) by (auto simp: rl_eq_def w_def)
  have dec: "snd (record_on (rl_pairs l1) k w n d pa t) = snd (record_on (rl_pairs l2) k w n d pa t)"
    "snd (record_on (rl_addrs l1) k' w n d pa t) = snd (record_on (rl_addrs l2) k' w n d pa t)" for k k' n d pa
    unfolding decision_record_on [OF assms(2)] eq by (rule refl)+
  show "snd (RecordFailure l1 a f known t) = snd (RecordFailure l2 a f known t)"
    by (cases known) (simp_all add: RecordFailure_def Let_def case_prod_beta eq(1) w_def [symmetric] dec)
  show "rl_eq t (fst (RecordFailure l1 a f known t)) (fst (RecordFailure l2 a f known t))"
    by (cases known) (simp_all add: RecordFailure_def Let_def case_prod_beta rl_eq_def eq w_def [symmetric]
        obs_record_on_fun [OF assms(2)])
qed

lemma obs_success:
  "obs w t (rl_pairs (RecordSuccess l a f t)) =
     (if snd (obs w t (rl_pairs l) (a, f)) = None then (obs w t (rl_pairs l))((a, f) := ([], None))
      else obs w t (rl_pairs l))"
  by (auto simp: RecordSuccess_def obs_def obs_st_def fun_eq_iff split: option.split)

lemma RecordSuccess_obs:
  "rl_eq t l1 l2 \<Longrightarrow> rl_eq t (RecordSuccess l1 a f t) (RecordSuccess l2 a f t)"
proof -
  have "rl_cfg (RecordSuccess l a f t) = rl_cfg l" "rl_addrs (RecordSuccess l a f t) = rl_addrs l" for l
    by (auto simp: RecordSuccess_def split: option.split)
  then show "rl_eq t l1 l2 \<Longrightarrow> ?thesis" by (auto simp: rl_eq_def obs_success)
qed

definition is_sweep :: "rl_call \<Rightarrow> bool" where
  "is_sweep c = (case c of CallSweep t \<Rightarrow> True | _ \<Rightarrow> False)"

lemma exec_obs:
  assumes "rl_eq (call_time c) l1 l2" "0 \<le> call_time c" "\<not> is_sweep c"
  shows "snd (rl_exec l1 c) = snd (rl_exec l2 c) \<and> rl_eq (call_time c) (fst (rl_exec l1 c)) (fst (rl_exec l2 c))"
proof (cases c)
  case (CallAllow a f t)
  then show ?thesis using Allow_obs [of t l1 l2 a f] assms by (simp add: case_prod_beta)
next
  case (CallFailure a f k t)
  then show ?thesis using RecordFailure_obs [of t l1 l2 a f k] assms by (simp add: case_prod_beta)
next
  case (CallSuccess a f t)
  then show ?thesis using RecordSuccess_obs [of t l1 l2 a f] assms by simp
qed (use assms in \<open>simp add: is_sweep_def\<close>)

text \<open>The decisions and events of a run, the sweeps of which say nothing.\<close>

fun rl_outputs :: "limiter \<Rightarrow> rl_call list \<Rightarrow> (rate_decision \<times> rate_event list) list" where
  "rl_outputs l [] = []"
| "rl_outputs l (c # cs) = (case rl_exec l c of (l', d, evs) \<Rightarrow>
     (case d of None \<Rightarrow> rl_outputs l' cs | Some x \<Rightarrow> (x, evs) # rl_outputs l' cs))"

lemma outputs_without_sweeps:
  "rl_eq s l1 l2 \<Longrightarrow> rl_inv l1 \<Longrightarrow> 0 \<le> s \<Longrightarrow> \<forall>c \<in> set calls. s \<le> call_time c \<Longrightarrow>
   sorted (map call_time calls) \<Longrightarrow>
   rl_outputs l1 calls = rl_outputs l2 (filter (\<lambda>c. \<not> is_sweep c) calls)"
proof (induction calls arbitrary: s l1 l2)
  case (Cons c cs)
  let ?t = "call_time c"
  have eq: "rl_eq ?t l1 l2" using Cons.prems by (auto intro: rl_eq_later)
  have inv: "rl_inv (fst (rl_exec l1 c))" using Cons.prems(2) by (rule rl_inv_exec)
  have t: "0 \<le> ?t" "\<forall>c' \<in> set cs. ?t \<le> call_time c'" "sorted (map call_time cs)"
    using Cons.prems by auto
  show ?case
  proof (cases "is_sweep c")
    case True
    then obtain t' where c: "c = CallSweep t'" by (cases c) (auto simp: is_sweep_def)
    then have "rl_eq ?t (sweepExpiredLocked l1 ?t) l2"
      using rl_eq_sweep [OF Cons.prems(2)] eq by (blast intro: rl_eq_trans)
    then show ?thesis using Cons.IH [of ?t "fst (rl_exec l1 c)" l2] inv t True c by simp
  next
    case False
    with exec_obs [OF eq t(1) False] Cons.IH [of ?t "fst (rl_exec l1 c)" "fst (rl_exec l2 c)"] inv t
    show ?thesis by (auto simp: case_prod_beta split: option.split)
  qed
qed simp

section \<open>Bans\<close>

definition banned_until :: "('k, fail_state) gomap \<Rightarrow> 'k \<Rightarrow> instant \<Rightarrow> bool" where
  "banned_until m k u \<longleftrightarrow> (\<exists>st. gm_get m k = Some st \<and> bannedTill st = u)"

lemma banned_stateOf: "banned_until m k u \<Longrightarrow> t < u \<Longrightarrow> banned_until (fst (stateOf m k' w t)) k u"
  by (auto simp: banned_until_def stateOf_def liveIn_def Let_def split: option.split)

lemma banned_record_on:
  "banned_until m k u \<Longrightarrow> t < u \<Longrightarrow> banned_until (fst (record_on m k' w n d pa t)) k u"
  by (auto simp: banned_until_def record_on_def liveIn_def Let_def split: option.split)

lemma banned_sweep: "banned_until m k u \<Longrightarrow> t < u \<Longrightarrow> gm_wf m \<Longrightarrow> banned_until (sweep_map w t m) k u"
  by (auto simp: banned_until_def get_sweep_map)

lemma banned_exec:
  assumes "rl_inv l" "call_time c < u"
  shows "banned_until (rl_pairs l) k u \<Longrightarrow> banned_until (rl_pairs (fst (rl_exec l c))) k u"
    and "banned_until (rl_addrs l) k' u \<Longrightarrow> banned_until (rl_addrs (fst (rl_exec l c))) k' u"
  using assms
  by (cases c; auto simp: Allow_def RecordFailure_def RecordSuccess_def sweepExpiredLocked_def Let_def
      case_prod_beta banned_stateOf banned_record_on banned_sweep rl_inv_def small_def
      split: option.split; auto simp: banned_until_def)+

definition rl_run :: "limiter \<Rightarrow> rl_call list \<Rightarrow> limiter" where
  "rl_run l calls = foldl (\<lambda>l c. fst (rl_exec l c)) l calls"

lemma banned_run:
  assumes "rl_inv l" "\<forall>c \<in> set calls. call_time c < u"
  shows "rl_inv (rl_run l calls) \<and>
     (banned_until (rl_pairs l) k u \<longrightarrow> banned_until (rl_pairs (rl_run l calls)) k u) \<and>
     (banned_until (rl_addrs l) k' u \<longrightarrow> banned_until (rl_addrs (rl_run l calls)) k' u)"
  using assms by (induction calls arbitrary: l) (auto simp: rl_run_def rl_inv_exec banned_exec)

lemma banned_decision:
  "banned_until m k u \<Longrightarrow> t < u \<Longrightarrow> Banned (snd (stateOf m k w t)) \<and> Until (snd (stateOf m k w t)) = u"
  by (auto simp: banned_until_def decision_stateOf obs_def obs_st_def)

section \<open>Properties\<close>

text \<open>
  C27. A ban is firm: once a failure has tripped a threshold, then whatever attempts, failures,
  successes and sweeps follow before the end of the ban, in any order, every attempt in that time
  is refused: of the pair if the key was known, of the whole address with the ban's own end if it
  was not. No success lifts the ban and no further failure prolongs it.
\<close>

theorem ban_is_firm:
  assumes "reachable rl_init rl_step l" "RecordFailure l a f known now = (l', d, evs)" "Banned d"
    and "\<forall>c \<in> set calls. call_time c < Until d" "t < Until d"
  shows "(known \<longrightarrow> \<not> Allowed (snd (Allow (rl_run l' calls) a f t)) \<and>
              (\<not> PerAddress (snd (Allow (rl_run l' calls) a f t)) \<longrightarrow>
                 Until (snd (Allow (rl_run l' calls) a f t)) = Until d)) \<and>
         (\<not> known \<longrightarrow> (\<forall>g. \<not> Allowed (snd (Allow (rl_run l' calls) a g t)) \<and>
              PerAddress (snd (Allow (rl_run l' calls) a g t)) \<and>
              Until (snd (Allow (rl_run l' calls) a g t)) = Until d))"
proof -
  have inv: "rl_inv l" using assms(1) by (rule rate.reachable_inv)
  have l': "rl_inv l'" using rl_inv_exec [OF inv, of "CallFailure a f known now"] assms(2) by simp
  have tripped: "record_on m k w n dur pa now = (m', d, e) \<Longrightarrow> banned_until m' k (Until d)"
    for m :: "('k, fail_state) gomap" and k w n dur pa m' e
    using assms(3) by (auto simp: record_on_def liveIn_def Let_def banned_until_def split: if_splits option.splits)
  note run = banned_run [OF l' assms(4)]
  show ?thesis
  proof (cases known)
    case True
    then have "banned_until (rl_pairs l') (a, f) (Until d)"
      using assms(2) tripped by (auto simp: RecordFailure_def Let_def split: prod.splits)
    then have "banned_until (rl_pairs (rl_run l' calls)) (a, f) (Until d)" using run by blast
    from banned_decision [OF this assms(5)] True show ?thesis
      by (auto simp: Allow_def Let_def case_prod_beta)
  next
    case False
    then have "banned_until (rl_addrs l') a (Until d)"
      using assms(2) tripped by (auto simp: RecordFailure_def Let_def split: prod.splits)
    then have "banned_until (rl_addrs (rl_run l' calls)) a (Until d)" using run by blast
    from banned_decision [OF this assms(5)] False show ?thesis
      by (auto simp: Allow_def Let_def case_prod_beta)
  qed
qed

text \<open>
  The sweeper cannot be noticed: from any reachable limiter, for calls whose times do not go
  back, leaving the sweeps out of the run changes no decision and no event.
\<close>

theorem sweeps_are_invisible:
  assumes "reachable rl_init rl_step l" "sorted (map call_time calls)" "\<forall>c \<in> set calls. 0 \<le> call_time c"
  shows "rl_outputs l calls = rl_outputs l (filter (\<lambda>c. \<not> is_sweep c) calls)"
  using outputs_without_sweeps [of 0 l l calls] rate.reachable_inv [OF assms(1)] assms(2,3) by simp

lemma stored_bound: "small n m \<Longrightarrow> gm_get m k = Some st \<Longrightarrow> int (length (failures st)) < n"
  unfolding small_def by blast

lemma stale_gone:
  "small n m \<Longrightarrow> gm_get (sweep_map w now m) k = Some st \<Longrightarrow>
   now < bannedTill st \<or> (\<exists>t \<in> set (failures st). now - w < t)"
  by (auto simp: small_def get_sweep_map liveIn_def Let_def filter_empty_conv
      split: option.splits if_splits)

text \<open>
  The memory of the limiter is bounded: no counter ever stores as many failures as its
  threshold, and right after a sweep every remaining counter is banned or has a failure in the
  window, so nothing stale survives it.
\<close>

theorem limiter_memory_bounded:
  assumes "reachable rl_init rl_step l"
  shows "(gm_get (rl_pairs l) k = Some st \<longrightarrow> int (length (failures st)) < MaxKnownFailures (rl_cfg l)) \<and>
         (gm_get (rl_addrs l) a = Some st \<longrightarrow> int (length (failures st)) < MaxUnknownFailures (rl_cfg l)) \<and>
         (gm_get (rl_pairs (sweepExpiredLocked l now)) k = Some st \<or>
          gm_get (rl_addrs (sweepExpiredLocked l now)) a = Some st \<longrightarrow>
            now < bannedTill st \<or> (\<exists>t \<in> set (failures st). now - rWindow (rl_cfg l) < t))"
proof -
  have inv: "small (MaxKnownFailures (rl_cfg l)) (rl_pairs l)" "small (MaxUnknownFailures (rl_cfg l)) (rl_addrs l)"
    using rate.reachable_inv [OF assms] by (simp_all add: rl_inv_def)
  show ?thesis
    using stored_bound [OF inv(1), of k st] stored_bound [OF inv(2), of a st]
      stale_gone [OF inv(1), of "rWindow (rl_cfg l)" now k st] stale_gone [OF inv(2), of "rWindow (rl_cfg l)" now a st]
    by (auto simp: sweepExpiredLocked_def)
qed

definition sample_cfg :: rate_config where
  "sample_cfg = \<lparr>MaxKnownFailures = 2, MaxUnknownFailures = 3, rWindow = 60, PairBanDuration = 100,
     AddrBanDuration = 200\<rparr>"

definition sample_limiter :: limiter where
  "sample_limiter = \<lparr>rl_cfg = sample_cfg, rl_pairs = [], rl_addrs = []\<rparr>"

lemma sample_limiter_reachable: "reachable rl_init rl_step sample_limiter"
  by (rule reach_init) (auto simp: rl_init_def NewRateLimiter_def sample_limiter_def sample_cfg_def
      intro!: exI [of _ sample_cfg])

definition failed_once :: limiter where
  "failed_once = fst (RecordFailure sample_limiter ''a'' ''k'' True 10)"

lemma failed_once_reachable: "reachable rl_init rl_step failed_once"
proof (rule reach_step [OF sample_limiter_reachable])
  show "rl_step sample_limiter failed_once"
    unfolding rl_step_def failed_once_def
    by (rule exI [of _ "CallFailure ''a'' ''k'' True 10"]) (simp add: case_prod_beta)
qed

lemmas rl_samples = failed_once_def sample_limiter_def sample_cfg_def RecordFailure_def record_on_def
  liveIn_def Let_def

theorem ban_is_firm_witness:
  "\<exists>l' d. RecordFailure failed_once ''a'' ''k'' True 20 = (l', d, [RateExceeded ''a'' ''k'' 120]) \<and>
     Banned d \<and> Until d = 120 \<and>
     \<not> Allowed (snd (Allow (rl_run l' [CallSuccess ''a'' ''k'' 30, CallSweep 110]) ''a'' ''k'' 119))"
proof -
  let ?r = "RecordFailure failed_once ''a'' ''k'' True 20"
  have r: "?r = (fst ?r, fst (snd ?r), [RateExceeded ''a'' ''k'' 120])" "Banned (fst (snd ?r))" "Until (fst (snd ?r)) = 120"
    by (simp_all add: rl_samples)
  show ?thesis
    using r ban_is_firm [OF failed_once_reachable r(1) r(2), of "[CallSuccess ''a'' ''k'' 30, CallSweep 110]" 119]
    by auto
qed

theorem sweeps_are_invisible_witness:
  "rl_outputs failed_once [CallSweep 15, CallFailure ''a'' ''k'' True 20, CallSweep 90, CallAllow ''a'' ''k'' 119] =
   rl_outputs failed_once [CallFailure ''a'' ''k'' True 20, CallAllow ''a'' ''k'' 119] \<and>
   length (rl_outputs failed_once [CallFailure ''a'' ''k'' True 20, CallAllow ''a'' ''k'' 119]) = 2"
  using sweeps_are_invisible [OF failed_once_reachable, of "[CallSweep 15, CallFailure ''a'' ''k'' True 20, CallSweep 90,
      CallAllow ''a'' ''k'' 119]"]
  by (simp add: is_sweep_def case_prod_beta)

theorem limiter_memory_bounded_witness:
  "\<exists>st. gm_get (rl_pairs failed_once) (''a'', ''k'') = Some st \<and> int (length (failures st)) < 2 \<and> failures st = [10]"
proof -
  have "\<exists>st. gm_get (rl_pairs failed_once) (''a'', ''k'') = Some st \<and> failures st = [10]"
    "MaxKnownFailures (rl_cfg failed_once) = 2"
    by (simp_all add: rl_samples)
  then show ?thesis
    using limiter_memory_bounded [OF failed_once_reachable, of "(''a'', ''k'')" _ "''a''" 0] by auto
qed

section \<open>The threshold\<close>

text \<open>The observation, threshold and ban duration of the scale a failure counts on.\<close>

definition scale_obs :: "limiter \<Rightarrow> string \<Rightarrow> string \<Rightarrow> bool \<Rightarrow> instant \<Rightarrow> counter_obs" where
  "scale_obs l a f known t = (if known then obs (rWindow (rl_cfg l)) t (rl_pairs l) (a, f)
     else obs (rWindow (rl_cfg l)) t (rl_addrs l) a)"

definition scale_max :: "rate_config \<Rightarrow> bool \<Rightarrow> int" where
  "scale_max cfg known = (if known then MaxKnownFailures cfg else MaxUnknownFailures cfg)"

definition scale_ban :: "rate_config \<Rightarrow> bool \<Rightarrow> duration" where
  "scale_ban cfg known = (if known then PairBanDuration cfg else AddrBanDuration cfg)"

lemma RecordFailure_step:
  assumes "0 \<le> t" "scale_obs l a f known t = (live, None)" "0 < rWindow (rl_cfg l)"
  shows "snd (RecordFailure l a f known t) =
      (if int (length live) + 1 \<ge> scale_max (rl_cfg l) known
       then (\<lparr>Allowed = False, Banned = True, Until = t + scale_ban (rl_cfg l) known, Failures = 0,
              PerAddress = (\<not> known)\<rparr>, [RateExceeded a f (t + scale_ban (rl_cfg l) known)])
       else (\<lparr>Allowed = True, Banned = False, Until = 0, Failures = length live + 1, PerAddress = (\<not> known)\<rparr>, []))"
    and "int (length live) + 1 < scale_max (rl_cfg l) known \<Longrightarrow>
      scale_obs (fst (RecordFailure l a f known t)) a f known t = (live @ [t], None)"
  using assms
  by (cases known; simp add: RecordFailure_def Let_def case_prod_beta scale_obs_def scale_max_def scale_ban_def
      decision_record_on obs_record_on obs_record_def)+

lemma scale_later: "s \<le> t \<Longrightarrow> scale_obs l a f known t = later (rWindow (rl_cfg l)) t (scale_obs l a f known s)"
  by (simp add: scale_obs_def obs_later [of s t])

lemma sorted_le_last:
  assumes "sorted ts" "t \<in> set ts"
  shows "t \<le> last ts"
proof -
  from assms(2) have ts: "ts = butlast ts @ [last ts]" by (cases ts) auto
  then have "\<forall>x \<in> set (butlast ts). x \<le> last ts" using assms(1) by (metis sorted_append list.set_intros(1))
  with assms(2) ts show ?thesis by (metis UnE set_append empty_iff list.set(1) order_refl set_ConsD)
qed

lemma threshold_run:
  assumes "0 \<le> s" "scale_obs l a f known s = (live, None)" "0 < rWindow (rl_cfg l)" "ts \<noteq> []"
    and "sorted ts" "\<forall>t \<in> set ts. s \<le> t \<and> (\<forall>x \<in> set live \<union> set ts. t - rWindow (rl_cfg l) < x)"
    and "int (length live) + int (length ts) = scale_max (rl_cfg l) known"
  shows "\<exists>ds. rl_outputs l (map (CallFailure a f known) ts) = map (\<lambda>d. (d, [])) ds @
      [(\<lparr>Allowed = False, Banned = True, Until = last ts + scale_ban (rl_cfg l) known, Failures = 0,
        PerAddress = (\<not> known)\<rparr>, [RateExceeded a f (last ts + scale_ban (rl_cfg l) known)])] \<and>
      length ds = length ts - 1 \<and> list_all Allowed ds"
  using assms
proof (induction ts arbitrary: s l live)
  case (Cons t ts)
  let ?w = "rWindow (rl_cfg l)" and ?l = "fst (RecordFailure l a f known t)"
  have "scale_obs l a f known t = later ?w t (live, None)"
    using Cons.prems(2,6) scale_later [of s t] by simp
  moreover have "filter (\<lambda>x. x > t - ?w) live = live" using Cons.prems(6) by (auto simp: filter_id_conv)
  ultimately have o: "scale_obs l a f known t = (live, None)" by (simp add: later_def)
  have t0: "0 \<le> t" using Cons.prems(1,6) by auto
  note step = RecordFailure_step [OF t0 o Cons.prems(3)]
  have cfg: "rl_cfg ?l = rl_cfg l" using rl_exec_cfg [of l "CallFailure a f known t"] by (simp add: case_prod_beta)
  show ?case
  proof (cases "ts = []")
    case True
    then show ?thesis using step(1) Cons.prems(7) by (auto simp: case_prod_beta)
  next
    case False
    then have more: "int (length live) + 1 < scale_max (rl_cfg l) known" using Cons.prems(7) by (cases ts) auto
    have "\<exists>ds. rl_outputs ?l (map (CallFailure a f known) ts) = map (\<lambda>d. (d, [])) ds @
      [(\<lparr>Allowed = False, Banned = True, Until = last ts + scale_ban (rl_cfg ?l) known, Failures = 0,
        PerAddress = (\<not> known)\<rparr>, [RateExceeded a f (last ts + scale_ban (rl_cfg ?l) known)])] \<and>
      length ds = length ts - 1 \<and> list_all Allowed ds"
      by (rule Cons.IH [of t ?l "live @ [t]"]) (use Cons.prems t0 step(2) [OF more] False cfg in auto)
    then obtain ds where ds: "rl_outputs ?l (map (CallFailure a f known) ts) = map (\<lambda>d. (d, [])) ds @
      [(\<lparr>Allowed = False, Banned = True, Until = last ts + scale_ban (rl_cfg l) known, Failures = 0,
        PerAddress = (\<not> known)\<rparr>, [RateExceeded a f (last ts + scale_ban (rl_cfg l) known)])]"
      "length ds = length ts - 1" "list_all Allowed ds" by (auto simp: cfg)
    let ?d = "fst (snd (RecordFailure l a f known t))"
    have "snd (RecordFailure l a f known t) = (?d, [])" "Allowed ?d" using step(1) more by simp_all
    then show ?thesis
      using ds False by (intro exI [of _ "?d # ds"]) (auto simp: case_prod_beta prod_eq_iff Suc_diff_le)
  qed
qed simp

text \<open>
  The threshold trips exactly when it should: on a scale (a known key's pair, or an address for
  unknown keys) with no failure in the window and no ban, the configured number of failures inside
  one window are all answered "allowed" without an event except the last, which starts a ban of the
  configured length and emits exactly one RateExceeded naming its end.
\<close>

theorem threshold_trips_once:
  assumes "reachable rl_init rl_step l" "ts \<noteq> []" "sorted ts" "0 \<le> hd ts" "last ts < hd ts + rWindow (rl_cfg l)"
    and "scale_obs l a f known (hd ts) = ([], None)" "int (length ts) = scale_max (rl_cfg l) known"
  shows "\<exists>ds. rl_outputs l (map (CallFailure a f known) ts) = map (\<lambda>d. (d, [])) ds @
      [(\<lparr>Allowed = False, Banned = True, Until = last ts + scale_ban (rl_cfg l) known, Failures = 0,
        PerAddress = (\<not> known)\<rparr>, [RateExceeded a f (last ts + scale_ban (rl_cfg l) known)])] \<and>
      length ds = length ts - 1 \<and> list_all Allowed ds"
proof -
  have w: "0 < rWindow (rl_cfg l)" using rate.reachable_inv [OF assms(1)] by (simp add: rl_inv_def)
  have range: "hd ts \<le> t \<and> t \<le> last ts" if "t \<in> set ts" for t
    using that assms(2,3) sorted_le_last [of ts t] by (cases ts) auto
  have near: "\<forall>t \<in> set ts. hd ts \<le> t \<and> (\<forall>x \<in> set [] \<union> set ts. t - rWindow (rl_cfg l) < x)"
  proof (intro ballI conjI)
    fix t x assume t: "t \<in> set ts"
    show "hd ts \<le> t" using range [OF t] by simp
    assume "x \<in> set [] \<union> set ts"
    then show "t - rWindow (rl_cfg l) < x" using range [OF t] range [of x] assms(5) by auto
  qed
  show ?thesis
    using near threshold_run [OF assms(4,6) w assms(2,3)] assms(7) by simp
qed

theorem threshold_trips_once_witness:
  "\<exists>ds. rl_outputs sample_limiter (map (CallFailure ''a'' ''k'' False) [10, 20, 30]) = map (\<lambda>d. (d, [])) ds @
      [(\<lparr>Allowed = False, Banned = True, Until = 230, Failures = 0, PerAddress = True\<rparr>,
        [RateExceeded ''a'' ''k'' 230])] \<and> length ds = 2 \<and> list_all Allowed ds"
  using threshold_trips_once [OF sample_limiter_reachable, of "[10, 20, 30]" "''a''" "''k''" False]
  by (simp add: scale_obs_def obs_def scale_max_def scale_ban_def sample_limiter_def sample_cfg_def
      numeral_2_eq_2 del: rl_outputs.simps)

lemma obs_record_other:
  "k' \<noteq> k \<Longrightarrow> obs w t (fst (record_on m k w' n d pa now)) k' = obs w t m k'"
  by (auto simp: record_on_def Let_def obs_def case_prod_beta)

text \<open>
  Failures stay where they belong. A failure with a known key changes no decision for any other
  pair, not even one behind the same address; a failure with an unknown key changes no decision for
  any other address; and a success changes no decision for any other pair and never clears the
  address's own spray counter or ban.
\<close>

theorem failures_isolated:
  "((a', f') \<noteq> (a, f) \<longrightarrow> snd (Allow (fst (RecordFailure l a f True now)) a' f' t) = snd (Allow l a' f' t)) \<and>
     (a' \<noteq> a \<longrightarrow> snd (Allow (fst (RecordFailure l a f False now)) a' f' t) = snd (Allow l a' f' t)) \<and>
     ((a', f') \<noteq> (a, f) \<longrightarrow> snd (Allow (RecordSuccess l a f now) a' f' t) = snd (Allow l a' f' t)) \<and>
     rl_addrs (RecordSuccess l a f now) = rl_addrs l"
  by (auto simp: obs_record_other Allow_decision RecordFailure_def RecordSuccess_def Let_def
      case_prod_beta obs_del split: option.split)

theorem failures_isolated_witness:
  "snd (Allow (fst (RecordFailure failed_once ''a'' ''k'' True 20)) ''a'' ''other'' 30) =
     snd (Allow failed_once ''a'' ''other'' 30) \<and>
   Banned (fst (snd (RecordFailure failed_once ''a'' ''k'' True 20)))"
  using failures_isolated [of "''a''" "''other''" "''a''" "''k''" failed_once 20 30]
  by (simp add: rl_samples)

end
