(* ===== verification/Ssh_Payload.thy ===== *)
theory Ssh_Payload
  imports Encoding
begin

text \<open>
  The payloads of SSH channel requests: \<open>internal/sshx/payload.go\<close>. The parsers of the source
  move an offset through the payload; here a reader takes the bytes from the offset on and
  returns the rest, so \<open>off != len(b)\<close> is "the rest is not empty". \<open>writeString\<close> panics on a
  string whose length does not fit a uint32, which is \<open>None\<close> here.
\<close>

section \<open>Data\<close>

record pty_request =
  pty_term :: string
  pty_columns :: "32 word"
  pty_rows :: "32 word"
  pty_width :: "32 word"
  pty_height :: "32 word"
  pty_modes :: string

record window_change =
  win_columns :: "32 word"
  win_rows :: "32 word"
  win_width :: "32 word"
  win_height :: "32 word"

record exec_req =
  ex_command :: string

record subsystem_req =
  sys_name :: string

record env_req =
  env_name :: string
  env_value :: string

record signal_req =
  sig_name :: string

record exit_status =
  es_status :: "32 word"

record exit_signal =
  xs_signal :: string
  xs_core :: bool
  xs_message :: string
  xs_language :: string

datatype payload_error = ErrShortPayload | TrailingBytes nat

section \<open>Writers\<close>

definition writeString :: "byte list \<Rightarrow> string \<Rightarrow> byte list option" where
  "writeString b s = (if length s > 2 ^ 32 - 1 then None
     else Some (b @ be_put32 (of_nat (length s)) @ bytes_of s))"

definition writeUint32 :: "byte list \<Rightarrow> 32 word \<Rightarrow> byte list" where
  "writeUint32 b v = b @ be_put32 v"

definition MarshalPTY :: "pty_request \<Rightarrow> byte list option" where
  "MarshalPTY p = do {
     out \<leftarrow> writeString [] (pty_term p);
     let out = writeUint32 out (pty_columns p);
     let out = writeUint32 out (pty_rows p);
     let out = writeUint32 out (pty_width p);
     let out = writeUint32 out (pty_height p);
     writeString out (pty_modes p)
   }"

definition MarshalWindow :: "window_change \<Rightarrow> byte list" where
  "MarshalWindow w = writeUint32 (writeUint32 (writeUint32 (writeUint32 []
     (win_columns w)) (win_rows w)) (win_width w)) (win_height w)"

definition MarshalExec :: "exec_req \<Rightarrow> byte list option" where
  "MarshalExec e = writeString [] (ex_command e)"

definition MarshalSubsystem :: "subsystem_req \<Rightarrow> byte list option" where
  "MarshalSubsystem s = writeString [] (sys_name s)"

definition MarshalEnv :: "env_req \<Rightarrow> byte list option" where
  "MarshalEnv e = do { out \<leftarrow> writeString [] (env_name e); writeString out (env_value e) }"

definition MarshalSignal :: "signal_req \<Rightarrow> byte list option" where
  "MarshalSignal s = writeString [] (sig_name s)"

definition MarshalExitStatus :: "exit_status \<Rightarrow> byte list" where
  "MarshalExitStatus e = writeUint32 [] (es_status e)"

definition boolByte :: "bool \<Rightarrow> byte" where
  "boolByte v = (if v then 1 else 0)"

definition MarshalExitSignal :: "exit_signal \<Rightarrow> byte list option" where
  "MarshalExitSignal e = do {
     out \<leftarrow> writeString [] (xs_signal e);
     let out = out @ [boolByte (xs_core e)];
     out \<leftarrow> writeString out (xs_message e);
     writeString out (xs_language e)
   }"

section \<open>Readers\<close>

definition readUint32 :: "byte list \<Rightarrow> (32 word \<times> byte list) option" where
  "readUint32 b = (if length b < 4 then None
     else Some (be_get32 (b ! 0) (b ! 1) (b ! 2) (b ! 3), drop 4 b))"

definition readString :: "byte list \<Rightarrow> (string \<times> byte list) option" where
  "readString b = do {
     (n, rest) \<leftarrow> readUint32 b;
     if unat n > length rest then None
     else Some (string_of (take (unat n) rest), drop (unat n) rest)
   }"

definition readBool :: "byte list \<Rightarrow> (bool \<times> byte list) option" where
  "readBool b = (if length b < 1 then None else Some (b ! 0 \<noteq> 0, drop 1 b))"

text \<open>The common end of a parser: a short payload, bytes left over, or the value.\<close>

definition finish :: "('a \<times> byte list) option \<Rightarrow> payload_error + 'a" where
  "finish r = (case r of None \<Rightarrow> Inl ErrShortPayload
     | Some (x, rest) \<Rightarrow> if rest \<noteq> [] then Inl (TrailingBytes (length rest)) else Inr x)"

definition ParsePTY :: "byte list \<Rightarrow> payload_error + pty_request" where
  "ParsePTY b = finish (do {
     (term, b) \<leftarrow> readString b;
     (cols, b) \<leftarrow> readUint32 b;
     (rows, b) \<leftarrow> readUint32 b;
     (width, b) \<leftarrow> readUint32 b;
     (height, b) \<leftarrow> readUint32 b;
     (modes, b) \<leftarrow> readString b;
     Some (\<lparr>pty_term = term, pty_columns = cols, pty_rows = rows, pty_width = width,
            pty_height = height, pty_modes = modes\<rparr>, b)
   })"

definition ParseWindow :: "byte list \<Rightarrow> payload_error + window_change" where
  "ParseWindow b =
     (if length b < 16 then Inl ErrShortPayload
      else if length b > 16 then Inl (TrailingBytes (length b - 16))
      else Inr \<lparr>win_columns = be_get32 (b ! 0) (b ! 1) (b ! 2) (b ! 3),
                 win_rows = be_get32 (b ! 4) (b ! 5) (b ! 6) (b ! 7),
                 win_width = be_get32 (b ! 8) (b ! 9) (b ! 10) (b ! 11),
                 win_height = be_get32 (b ! 12) (b ! 13) (b ! 14) (b ! 15)\<rparr>)"

definition ParseExec :: "byte list \<Rightarrow> payload_error + exec_req" where
  "ParseExec b = finish (do { (s, b) \<leftarrow> readString b; Some (\<lparr>ex_command = s\<rparr>, b) })"

definition ParseSubsystem :: "byte list \<Rightarrow> payload_error + subsystem_req" where
  "ParseSubsystem b = finish (do { (s, b) \<leftarrow> readString b; Some (\<lparr>sys_name = s\<rparr>, b) })"

definition ParseEnv :: "byte list \<Rightarrow> payload_error + env_req" where
  "ParseEnv b = finish (do {
     (name, b) \<leftarrow> readString b;
     (v, b) \<leftarrow> readString b;
     Some (\<lparr>env_name = name, env_value = v\<rparr>, b)
   })"

definition ParseSignal :: "byte list \<Rightarrow> payload_error + signal_req" where
  "ParseSignal b = finish (do { (s, b) \<leftarrow> readString b; Some (\<lparr>sig_name = s\<rparr>, b) })"

definition ParseExitStatus :: "byte list \<Rightarrow> payload_error + exit_status" where
  "ParseExitStatus b =
     (if length b < 4 then Inl ErrShortPayload
      else if length b > 4 then Inl (TrailingBytes (length b - 4))
      else Inr \<lparr>es_status = be_get32 (b ! 0) (b ! 1) (b ! 2) (b ! 3)\<rparr>)"

definition ParseExitSignal :: "byte list \<Rightarrow> payload_error + exit_signal" where
  "ParseExitSignal b = finish (do {
     (sg, b) \<leftarrow> readString b;
     (core, b) \<leftarrow> readBool b;
     (msg, b) \<leftarrow> readString b;
     (lang, b) \<leftarrow> readString b;
     Some (\<lparr>xs_signal = sg, xs_core = core, xs_message = msg, xs_language = lang\<rparr>, b)
   })"

section \<open>The readers are codecs\<close>

lemma payload_readUint32_eq: "readUint32 = read_u32"
  by (rule ext) (simp add: readUint32_def read_u32_def)

lemma payload_readString_eq: "readString = read_str"
  by (rule ext) (auto simp: readString_def read_str_def payload_readUint32_eq split: Option.bind_splits option.splits)

interpretation pu32: wire_codec be_put32 readUint32 "\<lambda>_. True"
  unfolding payload_readUint32_eq by (rule u32.wire_codec_axioms)

interpretation pstr: wire_codec put_str readString "\<lambda>s. length s < 2 ^ 32"
  unfolding payload_readString_eq by (rule str.wire_codec_axioms)

lemma readBool_iff: "readBool b = Some (v, rest) \<longleftrightarrow> (\<exists>x. b = x # rest \<and> v = (x \<noteq> 0))"
  by (cases b) (auto simp: readBool_def)

lemma writeString_iff: "writeString b s = Some out \<longleftrightarrow> length s < 2 ^ 32 \<and> out = b @ put_str s"
  by (auto simp: writeString_def put_str_def)

lemma finish_iff: "finish r = Inr x \<longleftrightarrow> r = Some (x, [])"
  by (auto simp: finish_def split: option.splits)

lemmas payload_iffs = finish_iff writeString_iff readBool_iff pu32.dec_iff pstr.dec_iff
  bind_eq_Some_conv writeUint32_def

text \<open>The two fixed-size parsers read their words in place; they agree with the reader chain.\<close>

lemma window_exact: "ParseWindow b = Inr w \<longleftrightarrow> MarshalWindow w = b"
proof
  assume p: "ParseWindow b = Inr w"
  then have "length b = 16" by (auto simp: ParseWindow_def split: if_splits)
  then obtain b0 b1 b2 b3 b4 b5 b6 b7 b8 b9 b10 b11 b12 b13 b14 b15 where
    "b = [b0, b1, b2, b3, b4, b5, b6, b7, b8, b9, b10, b11, b12, b13, b14, b15]"
    by (auto simp: length_Suc_conv numeral_eq_Suc)
  with p show "MarshalWindow w = b"
    by (auto simp: ParseWindow_def MarshalWindow_def writeUint32_def nth_Cons')
next
  assume "MarshalWindow w = b"
  then have b: "b = be_put32 (win_columns w) @ be_put32 (win_rows w) @ be_put32 (win_width w) @ be_put32 (win_height w)"
    by (simp add: MarshalWindow_def writeUint32_def)
  show "ParseWindow b = Inr w"
    by (cases w) (simp add: b ParseWindow_def be_put32_def nth_Cons')
qed

lemma exit_status_exact: "ParseExitStatus b = Inr x \<longleftrightarrow> MarshalExitStatus x = b"
proof -
  have "ParseExitStatus b = Inr x \<longleftrightarrow> readUint32 b = Some (es_status x, [])"
    by (cases x) (auto simp: ParseExitStatus_def readUint32_def)
  then show ?thesis by (auto simp: pu32.dec_iff MarshalExitStatus_def writeUint32_def)
qed

lemma exit_signal_shape:
  "ParseExitSignal b = Inr e \<longleftrightarrow> (\<exists>x. xs_core e = (x \<noteq> 0) \<and> length (xs_signal e) < 2 ^ 32 \<and>
     length (xs_message e) < 2 ^ 32 \<and> length (xs_language e) < 2 ^ 32 \<and>
     b = put_str (xs_signal e) @ x # put_str (xs_message e) @ put_str (xs_language e))"
  by (cases e) (auto simp: ParseExitSignal_def payload_iffs)

section \<open>Properties\<close>

text \<open>
  The layouts are exact in both directions: for every request type, parsing accepts a byte
  string if and only if it is what marshalling the result writes, so nothing is lost, no byte is
  ignored, and no two byte strings mean the same request.
\<close>

theorem payload_exact:
  "(ParsePTY b = Inr p \<longleftrightarrow> MarshalPTY p = Some b) \<and>
   (ParseWindow b = Inr w \<longleftrightarrow> MarshalWindow w = b) \<and>
   (ParseExec b = Inr e \<longleftrightarrow> MarshalExec e = Some b) \<and>
   (ParseSubsystem b = Inr s \<longleftrightarrow> MarshalSubsystem s = Some b) \<and>
   (ParseEnv b = Inr v \<longleftrightarrow> MarshalEnv v = Some b) \<and>
   (ParseSignal b = Inr g \<longleftrightarrow> MarshalSignal g = Some b) \<and>
   (ParseExitStatus b = Inr x \<longleftrightarrow> MarshalExitStatus x = b)"
proof (intro conjI)
  show "ParsePTY b = Inr p \<longleftrightarrow> MarshalPTY p = Some b"
    by (cases p) (auto simp: ParsePTY_def MarshalPTY_def payload_iffs)
  show "ParseWindow b = Inr w \<longleftrightarrow> MarshalWindow w = b"
    by (rule window_exact)
  show "ParseExec b = Inr e \<longleftrightarrow> MarshalExec e = Some b"
    by (cases e) (auto simp: ParseExec_def MarshalExec_def payload_iffs)
  show "ParseSubsystem b = Inr s \<longleftrightarrow> MarshalSubsystem s = Some b"
    by (cases s) (auto simp: ParseSubsystem_def MarshalSubsystem_def payload_iffs)
  show "ParseEnv b = Inr v \<longleftrightarrow> MarshalEnv v = Some b"
    by (cases v) (auto simp: ParseEnv_def MarshalEnv_def payload_iffs)
  show "ParseSignal b = Inr g \<longleftrightarrow> MarshalSignal g = Some b"
    by (cases g) (auto simp: ParseSignal_def MarshalSignal_def payload_iffs)
  show "ParseExitStatus b = Inr x \<longleftrightarrow> MarshalExitStatus x = b"
    by (rule exit_status_exact)
qed

text \<open>
  An exit-signal survives the wire: whatever MarshalExitSignal writes is parsed back to the
  same value; and parsing fails, never misreads, on every proper prefix of it.
\<close>

theorem exit_signal_roundtrip:
  assumes "MarshalExitSignal e = Some b"
  shows "ParseExitSignal b = Inr e \<and> (\<forall>n < length b. \<exists>err. ParseExitSignal (take n b) = Inl err)"
proof -
  have e: "length (xs_signal e) < 2 ^ 32" "length (xs_message e) < 2 ^ 32" "length (xs_language e) < 2 ^ 32"
    "b = put_str (xs_signal e) @ boolByte (xs_core e) # put_str (xs_message e) @ put_str (xs_language e)"
    using assms by (auto simp: MarshalExitSignal_def payload_iffs)
  then have "ParseExitSignal b = Inr e"
    by (auto simp: exit_signal_shape boolByte_def)
  moreover have "\<exists>err. ParseExitSignal (take n b) = Inl err" if "n < length b" for n
  proof (rule ccontr)
    assume "\<nexists>err. ParseExitSignal (take n b) = Inl err"
    then obtain f where "ParseExitSignal (take n b) = Inr f" by (cases "ParseExitSignal (take n b)") auto
    then obtain x where f: "length (xs_signal f) < 2 ^ 32" "length (xs_message f) < 2 ^ 32"
      "length (xs_language f) < 2 ^ 32"
      "take n b = put_str (xs_signal f) @ x # put_str (xs_message f) @ put_str (xs_language f)"
      by (auto simp: exit_signal_shape)
    have "put_str (xs_signal f) @ x # put_str (xs_message f) @ put_str (xs_language f) @ drop n b =
        put_str (xs_signal e) @ boolByte (xs_core e) # put_str (xs_message e) @ put_str (xs_language e)"
      using f(4) e(4) append_take_drop_id [of n b] by (metis append.assoc append_Cons)
    then have "x = boolByte (xs_core e)" and
      "put_str (xs_message f) @ put_str (xs_language f) @ drop n b =
        put_str (xs_message e) @ put_str (xs_language e)"
      using pstr.enc_unique [OF f(1) e(1)] by auto
    then have "put_str (xs_language f) @ drop n b = put_str (xs_language e) @ []"
      using pstr.enc_unique [OF f(2) e(2)] by auto
    then have "drop n b = []" using pstr.enc_unique [OF f(3) e(3)] by blast
    with that show False by simp
  qed
  ultimately show ?thesis by blast
qed

theorem exit_signal_roundtrip_witness:
  "\<exists>b. MarshalExitSignal \<lparr>xs_signal = ''KILL'', xs_core = True, xs_message = ''bye'', xs_language = ''''\<rparr> = Some b \<and>
     ParseExitSignal b = Inr \<lparr>xs_signal = ''KILL'', xs_core = True, xs_message = ''bye'', xs_language = ''''\<rparr> \<and>
     (\<exists>err. ParseExitSignal (take 5 b) = Inl err)"
proof -
  let ?e = "\<lparr>xs_signal = ''KILL'', xs_core = True, xs_message = ''bye'', xs_language = ''''\<rparr>"
  have "\<exists>b. MarshalExitSignal ?e = Some b \<and> 5 < length b"
    by (simp add: MarshalExitSignal_def writeString_def)
  then show ?thesis using exit_signal_roundtrip [of ?e] by blast
qed

end
