(* ===== verification/Sftp_Wire.thy ===== *)
theory Sftp_Wire
  imports Encoding
begin

text \<open>
  The read-only SFTP v3 parser: \<open>internal/sshx/sftpwire/sftpwire.go\<close>. As in the payload theory a
  reader takes the bytes from the offset on. The framer's buffer is explicit: \<open>Feed\<close> takes the
  buffer and the new bytes and returns the packets, the error and the buffer it leaves.
\<close>

section \<open>Constants\<close>

definition TypeInit :: byte where "TypeInit = 1"
definition TypeVersion :: byte where "TypeVersion = 2"
definition TypeOpen :: byte where "TypeOpen = 3"
definition TypeClose :: byte where "TypeClose = 4"
definition TypeRead :: byte where "TypeRead = 5"
definition TypeWrite :: byte where "TypeWrite = 6"
definition TypeLstat :: byte where "TypeLstat = 7"
definition TypeFstat :: byte where "TypeFstat = 8"
definition TypeSetstat :: byte where "TypeSetstat = 9"
definition TypeFsetstat :: byte where "TypeFsetstat = 10"
definition TypeOpendir :: byte where "TypeOpendir = 11"
definition TypeReaddir :: byte where "TypeReaddir = 12"
definition TypeRemove :: byte where "TypeRemove = 13"
definition TypeMkdir :: byte where "TypeMkdir = 14"
definition TypeRmdir :: byte where "TypeRmdir = 15"
definition TypeRealpath :: byte where "TypeRealpath = 16"
definition TypeStat :: byte where "TypeStat = 17"
definition TypeRename :: byte where "TypeRename = 18"
definition TypeReadlink :: byte where "TypeReadlink = 19"
definition TypeSymlink :: byte where "TypeSymlink = 20"
definition TypeStatus :: byte where "TypeStatus = 101"
definition TypeHandle :: byte where "TypeHandle = 102"
definition TypeData :: byte where "TypeData = 103"
definition TypeName :: byte where "TypeName = 104"
definition TypeAttrs :: byte where "TypeAttrs = 105"
definition TypeExtended :: byte where "TypeExtended = 200"
definition TypeExtendedReply :: byte where "TypeExtendedReply = 201"

definition FlagRead :: "32 word" where "FlagRead = 0x00000001"
definition FlagWrite :: "32 word" where "FlagWrite = 0x00000002"
definition FlagAppend :: "32 word" where "FlagAppend = 0x00000004"
definition FlagCreat :: "32 word" where "FlagCreat = 0x00000008"
definition FlagTrunc :: "32 word" where "FlagTrunc = 0x00000010"
definition FlagExcl :: "32 word" where "FlagExcl = 0x00000020"

definition StatusOK :: "32 word" where "StatusOK = 0"
definition StatusEOF :: "32 word" where "StatusEOF = 1"
definition StatusNoSuchFile :: "32 word" where "StatusNoSuchFile = 2"
definition StatusPermissionDenied :: "32 word" where "StatusPermissionDenied = 3"
definition StatusFailure :: "32 word" where "StatusFailure = 4"
definition StatusBadMessage :: "32 word" where "StatusBadMessage = 5"
definition StatusNoConnection :: "32 word" where "StatusNoConnection = 6"
definition StatusConnectionLost :: "32 word" where "StatusConnectionLost = 7"
definition StatusOpUnsupported :: "32 word" where "StatusOpUnsupported = 8"

lemmas type_codes = TypeInit_def TypeVersion_def TypeOpen_def TypeClose_def TypeRead_def TypeWrite_def 
  TypeLstat_def TypeFstat_def TypeSetstat_def TypeFsetstat_def TypeOpendir_def 
  TypeReaddir_def TypeRemove_def TypeMkdir_def TypeRmdir_def TypeRealpath_def 
  TypeStat_def TypeRename_def TypeReadlink_def TypeSymlink_def TypeStatus_def 
  TypeHandle_def TypeData_def TypeName_def TypeAttrs_def TypeExtended_def 
  TypeExtendedReply_def

definition MaxPacketSize :: nat where "MaxPacketSize = 2 ^ 20"

datatype wire_error = ErrPacketTooLarge | ErrZeroLength | ErrShortPacket

section \<open>Packets and the framer\<close>

record packet =
  PayloadLen :: "32 word"
  PType :: byte
  Raw :: "byte list"

definition Packet_ID :: "packet \<Rightarrow> 32 word option" where
  "Packet_ID p = (if length (Raw p) < 9 then None
     else Some (be_get32 (Raw p ! 5) (Raw p ! 6) (Raw p ! 7) (Raw p ! 8)))"

definition Packet_Data :: "packet \<Rightarrow> byte list" where
  "Packet_Data p = (if length (Raw p) < 9 then [] else drop 9 (Raw p))"

function feed_loop :: "byte list \<Rightarrow> packet list \<times> wire_error option \<times> byte list" where
  "feed_loop buf =
     (if length buf < 4 then ([], None, buf)
      else let n = be_get32 (buf ! 0) (buf ! 1) (buf ! 2) (buf ! 3)
      in if n = 0 then ([], Some ErrZeroLength, buf)
         else if unat n > MaxPacketSize then ([], Some ErrPacketTooLarge, buf)
         else let total = 4 + unat n
         in if length buf < total then ([], None, buf)
            else let raw = take total buf;
                     (out, err, buf') = feed_loop (drop total buf)
                 in (\<lparr>PayloadLen = n, PType = raw ! 4, Raw = raw\<rparr> # out, err, buf'))"
  by pat_completeness auto
termination by (relation "measure length") auto

declare feed_loop.simps [simp del]

definition Feed :: "byte list \<Rightarrow> byte list \<Rightarrow> packet list \<times> wire_error option \<times> byte list" where
  "Feed buf p = feed_loop (buf @ p)"

definition Pending :: "byte list \<Rightarrow> byte list" where
  "Pending buf = buf"

section \<open>Field readers\<close>

definition readUint32 :: "byte list \<Rightarrow> (32 word \<times> byte list) option" where
  "readUint32 b = (if length b < 4 then None
     else Some (be_get32 (b ! 0) (b ! 1) (b ! 2) (b ! 3), drop 4 b))"

definition readUint64 :: "byte list \<Rightarrow> (64 word \<times> byte list) option" where
  "readUint64 b = (if length b < 8 then None
     else Some (be_get64 (be_get32 (b ! 0) (b ! 1) (b ! 2) (b ! 3))
                         (be_get32 (b ! 4) (b ! 5) (b ! 6) (b ! 7)), drop 8 b))"

definition readString :: "byte list \<Rightarrow> (string \<times> byte list) option" where
  "readString b = do {
     (n, rest) \<leftarrow> readUint32 b;
     if unat n > length rest then None
     else Some (string_of (take (unat n) rest), drop (unat n) rest)
   }"

section \<open>Requests and responses\<close>

record open_request =
  or_path :: string
  or_pflags :: "32 word"

definition ParseOpen :: "byte list \<Rightarrow> open_request option" where
  "ParseOpen data = do {
     (path, data) \<leftarrow> readString data;
     (pflags, data) \<leftarrow> readUint32 data;
     Some \<lparr>or_path = path, or_pflags = pflags\<rparr>
   }"

definition Mutating :: "open_request \<Rightarrow> bool" where
  "Mutating r \<longleftrightarrow> or_pflags r AND (FlagWrite OR FlagCreat OR FlagTrunc OR FlagAppend) \<noteq> 0"

definition ParsePath :: "byte list \<Rightarrow> string option" where
  "ParsePath data = map_option fst (readString data)"

definition ParseMkdir :: "byte list \<Rightarrow> string option" where
  "ParseMkdir data = map_option fst (readString data)"

definition ParseHandleRequest :: "byte list \<Rightarrow> string option" where
  "ParseHandleRequest data = map_option fst (readString data)"

definition ParseRename :: "byte list \<Rightarrow> (string \<times> string) option" where
  "ParseRename data = do {
     (oldPath, data) \<leftarrow> readString data;
     (newPath, data) \<leftarrow> readString data;
     Some (oldPath, newPath)
   }"

definition ParseTwoPaths :: "byte list \<Rightarrow> (string \<times> string) option" where
  "ParseTwoPaths data = do {
     (a, data) \<leftarrow> readString data;
     (b, data) \<leftarrow> readString data;
     Some (a, b)
   }"

definition ParseExtended :: "byte list \<Rightarrow> (string \<times> byte list) option" where
  "ParseExtended data = readString data"

record copy_data_request =
  cd_readHandle :: string
  cd_readOffset :: "64 word"
  cd_length :: "64 word"
  cd_writeHandle :: string
  cd_writeOffset :: "64 word"

definition ParseCopyData :: "byte list \<Rightarrow> copy_data_request option" where
  "ParseCopyData data = do {
     (rh, data) \<leftarrow> readString data;
     (ro, data) \<leftarrow> readUint64 data;
     (len, data) \<leftarrow> readUint64 data;
     (wh, data) \<leftarrow> readString data;
     (wo, data) \<leftarrow> readUint64 data;
     Some \<lparr>cd_readHandle = rh, cd_readOffset = ro, cd_length = len, cd_writeHandle = wh,
           cd_writeOffset = wo\<rparr>
   }"

record read_write_request =
  rw_handle :: string
  rw_offset :: "64 word"
  rw_length :: "32 word"
  rw_data :: "byte list"

definition ParseRead :: "byte list \<Rightarrow> read_write_request option" where
  "ParseRead data = do {
     (h, data) \<leftarrow> readString data;
     (offset, data) \<leftarrow> readUint64 data;
     (len, data) \<leftarrow> readUint32 data;
     Some \<lparr>rw_handle = h, rw_offset = offset, rw_length = len, rw_data = []\<rparr>
   }"

definition ParseWrite :: "byte list \<Rightarrow> read_write_request option" where
  "ParseWrite data = do {
     (h, data) \<leftarrow> readString data;
     (offset, data) \<leftarrow> readUint64 data;
     (len, data) \<leftarrow> readUint32 data;
     if unat len > length data then None
     else Some \<lparr>rw_handle = h, rw_offset = offset, rw_length = len, rw_data = take (unat len) data\<rparr>
   }"

record status_response =
  sr_code :: "32 word"
  sr_message :: string

definition ParseStatus :: "byte list \<Rightarrow> status_response option" where
  "ParseStatus data = do {
     (code, data) \<leftarrow> readUint32 data;
     (msg, data) \<leftarrow> readString data;
     Some \<lparr>sr_code = code, sr_message = msg\<rparr>
   }"

definition ParseHandleResponse :: "byte list \<Rightarrow> string option" where
  "ParseHandleResponse data = map_option fst (readString data)"

definition ParseDataResponse :: "byte list \<Rightarrow> byte list option" where
  "ParseDataResponse data = do {
     (n, data) \<leftarrow> readUint32 data;
     if unat n > length data then None else Some (take (unat n) data)
   }"

section \<open>The one packet the gateway writes\<close>

definition writeUint32 :: "byte list \<Rightarrow> 32 word \<Rightarrow> byte list" where
  "writeUint32 b v = b @ be_put32 v"

definition writeString :: "byte list \<Rightarrow> string \<Rightarrow> byte list" where
  "writeString b s = writeUint32 b (of_nat (length s)) @ bytes_of s"

definition MarshalStatus :: "32 word \<Rightarrow> 32 word \<Rightarrow> string \<Rightarrow> byte list" where
  "MarshalStatus i code message =
     (let payload = [TypeStatus];
          payload = writeUint32 payload i;
          payload = writeUint32 payload code;
          payload = writeString payload message;
          payload = writeString payload '''';
          out = writeUint32 [] (of_nat (length payload))
      in out @ payload)"

section \<open>The readers are codecs\<close>

lemma readUint32_eq: "readUint32 = read_u32"
  by (rule ext) (simp add: readUint32_def read_u32_def)

lemma readUint64_eq: "readUint64 = read_u64"
  by (rule ext) (simp add: readUint64_def read_u64_def)

lemma readString_eq: "readString = read_str"
  by (rule ext) (auto simp: readString_def read_str_def readUint32_eq split: Option.bind_splits option.splits)

interpretation wu32: wire_codec be_put32 readUint32 "\<lambda>_. True"
  unfolding readUint32_eq by (rule u32.wire_codec_axioms)

interpretation wu64: wire_codec be_put64 readUint64 "\<lambda>_. True"
  unfolding readUint64_eq by (rule u64.wire_codec_axioms)

interpretation wstr: wire_codec put_str readString "\<lambda>s. length s < 2 ^ 32"
  unfolding readString_eq by (rule str.wire_codec_axioms)

section \<open>The framer\<close>

definition wf_packet :: "packet \<Rightarrow> bool" where
  "wf_packet p \<longleftrightarrow> 0 < PayloadLen p \<and> unat (PayloadLen p) \<le> MaxPacketSize \<and>
     length (Raw p) = 4 + unat (PayloadLen p) \<and> take 4 (Raw p) = be_put32 (PayloadLen p) \<and>
     PType p = Raw p ! 4"

lemma packet_fields:
  "Raw p = be_put32 n @ t # be_put32 i @ rest \<Longrightarrow> Packet_ID p = Some i \<and> Packet_Data p = rest"
  by (simp add: Packet_ID_def Packet_Data_def be_put32_def nth_Cons')

lemma unat_of_nat_small: "k < 2 ^ 32 \<Longrightarrow> unat (of_nat k :: 32 word) = k"
  by (simp add: unat_of_nat take_bit_nat_eq_self)

text \<open>The declared length of a buffer, which bytes added behind do not change.\<close>

definition head_len :: "byte list \<Rightarrow> 32 word" where
  "head_len buf = be_get32 (buf ! 0) (buf ! 1) (buf ! 2) (buf ! 3)"

lemma head_len_append [simp]: "4 \<le> length buf \<Longrightarrow> head_len (buf @ extra) = head_len buf"
  by (auto simp: head_len_def nth_append)

lemma head_len_put: "4 \<le> length buf \<Longrightarrow> take 4 buf = be_put32 (head_len buf)"
  using four_bytes [of buf] by (auto simp: head_len_def numeral_3_eq_3 numeral_2_eq_2)

lemma feed_loop_unfold:
  "feed_loop buf =
     (if length buf < 4 then ([], None, buf)
      else if head_len buf = 0 then ([], Some ErrZeroLength, buf)
      else if unat (head_len buf) > MaxPacketSize then ([], Some ErrPacketTooLarge, buf)
      else if length buf < 4 + unat (head_len buf) then ([], None, buf)
      else (case feed_loop (drop (4 + unat (head_len buf)) buf) of (out, err, buf') \<Rightarrow>
        (\<lparr>PayloadLen = head_len buf, PType = take (4 + unat (head_len buf)) buf ! 4,
          Raw = take (4 + unat (head_len buf)) buf\<rparr> # out, err, buf')))"
  by (subst feed_loop.simps) (simp add: head_len_def Let_def)

lemma feed_loop_packet:
  assumes "wf_packet p"
  shows "feed_loop (Raw p @ rest) = (case feed_loop rest of (out, err, buf) \<Rightarrow> (p # out, err, buf))"
proof -
  have len: "length (Raw p) = 4 + unat (PayloadLen p)" using assms by (simp add: wf_packet_def)
  have "be_put32 (head_len (Raw p)) = be_put32 (PayloadLen p)"
    using assms head_len_put [of "Raw p"] len by (simp add: wf_packet_def)
  then have n: "head_len (Raw p) = PayloadLen p" by (rule u32.enc_inj [OF TrueI TrueI])
  then show ?thesis
    using assms len by (subst feed_loop_unfold) (auto simp: wf_packet_def word_gt_0 split: prod.split)
qed

text \<open>
  A buffer is of one of three kinds: it starts with a whole packet, it is unfinished and within
  the bound, or it is malformed, and then more bytes do not mend it.
\<close>

lemma feed_loop_kinds:
  obtains (packet) p rest where "wf_packet p" "buf = Raw p @ rest"
  | (partial) "feed_loop buf = ([], None, buf)" "length buf < 4 + MaxPacketSize"
  | (bad) err where "\<And>extra. feed_loop (buf @ extra) = ([], Some err, buf @ extra)"
proof (cases "length buf < 4")
  case True
  then have "feed_loop buf = ([], None, buf)" by (subst feed_loop_unfold) simp
  with True show ?thesis by (intro partial) simp_all
next
  case False
  let ?n = "head_len buf"
  consider "?n = 0" | "?n \<noteq> 0" "unat ?n > MaxPacketSize"
    | "?n \<noteq> 0" "unat ?n \<le> MaxPacketSize" "length buf < 4 + unat ?n"
    | "?n \<noteq> 0" "unat ?n \<le> MaxPacketSize" "4 + unat ?n \<le> length buf" by linarith
  then show ?thesis
  proof cases
    case 4
    let ?p = "\<lparr>PayloadLen = ?n, PType = take (4 + unat ?n) buf ! 4, Raw = take (4 + unat ?n) buf\<rparr>"
    have "take 4 (take (4 + unat ?n) buf) = be_put32 ?n" using head_len_put [of buf] False by (simp add: min_def)
    then have "wf_packet ?p" using 4 by (simp add: wf_packet_def word_gt_0)
    then show ?thesis by (rule packet [of _ "drop (4 + unat ?n) buf"]) simp
  next
    case 1
    then show ?thesis
      by (intro bad [of ErrZeroLength]) (use False in \<open>subst feed_loop_unfold, simp\<close>)
  next
    case 2
    then show ?thesis
      by (intro bad [of ErrPacketTooLarge]) (use False in \<open>subst feed_loop_unfold, simp\<close>)
  next
    case 3
    then have "feed_loop buf = ([], None, buf)" using False by (subst feed_loop_unfold) simp
    with 3 show ?thesis by (intro partial) simp_all
  qed
qed

lemma feed_loop_lossless:
  "feed_loop buf = (out, err, rest) \<Longrightarrow>
   concat (map Raw out) @ rest = buf \<and> list_all wf_packet out \<and>
   (err = None \<longrightarrow> length rest < 4 + MaxPacketSize \<and> feed_loop rest = ([], None, rest))"
proof (induction "length buf" arbitrary: buf out rule: less_induct)
  case less
  show ?case
  proof (cases buf rule: feed_loop_kinds)
    case (packet p tail)
    obtain out' where out: "feed_loop tail = (out', err, rest)" "out = p # out'"
      using less.prems feed_loop_packet [OF packet(1), of tail] packet(2) by (auto split: prod.splits)
    have "length tail < length buf" using packet by (auto simp: wf_packet_def)
    from less.hyps [OF this out(1)] show ?thesis using packet out(2) by simp
  next
    case partial
    then show ?thesis using less.prems by auto
  next
    case (bad e)
    then show ?thesis using less.prems bad [of "[]"] by auto
  qed
qed

lemma feed_loop_append:
  "feed_loop buf = (out, None, rest) \<Longrightarrow>
   feed_loop (buf @ extra) = (case feed_loop (rest @ extra) of (out', err, rest') \<Rightarrow> (out @ out', err, rest'))"
proof (induction "length buf" arbitrary: buf out rule: less_induct)
  case less
  show ?case
  proof (cases buf rule: feed_loop_kinds)
    case (packet p tail)
    obtain out' where out: "feed_loop tail = (out', None, rest)" "out = p # out'"
      using less.prems feed_loop_packet [OF packet(1), of tail] packet(2) by (auto split: prod.splits)
    have "length tail < length buf" using packet by (auto simp: wf_packet_def)
    from less.hyps [OF this out(1)] show ?thesis
      using packet out(2) feed_loop_packet [OF packet(1), of "tail @ extra"] by (auto split: prod.splits)
  next
    case partial
    then show ?thesis using less.prems by auto
  next
    case (bad e)
    then show ?thesis using less.prems bad [of "[]"] by auto
  qed
qed

section \<open>Properties\<close>

text \<open>
  The framer loses and invents nothing: the raw bytes of the packets it returns, followed by
  what it keeps pending, are exactly the bytes it had and was given; every packet it returns is
  well formed (its length field is the length of what follows, between 1 and the limit, and its
  type is the byte after it); and as long as there is no error what stays pending is less than one
  packet of the largest size, so a hostile length field cannot grow the buffer.
\<close>

theorem framer_lossless:
  assumes "Feed buf p = (out, err, rest)"
  shows "concat (map Raw out) @ Pending rest = buf @ p \<and>
         (\<forall>q \<in> set out. 0 < PayloadLen q \<and> unat (PayloadLen q) \<le> 2 ^ 20 \<and>
            length (Raw q) = 4 + unat (PayloadLen q) \<and> take 4 (Raw q) = be_put32 (PayloadLen q) \<and>
            PType q = Raw q ! 4) \<and>
         (err = None \<longrightarrow> length rest < 4 + 2 ^ 20)"
  using feed_loop_lossless [of "buf @ p" out err rest] assms
  by (auto simp: Feed_def Pending_def list_all_iff wf_packet_def MaxPacketSize_def)

theorem framer_lossless_witness:
  "\<exists>out rest. Feed [0, 0, 0] [2, 4, 9, 0, 0] = (out, None, rest) \<and>
     concat (map Raw out) @ Pending rest = [0, 0, 0, 2, 4, 9, 0, 0] \<and> length out = 1 \<and> rest = [0, 0]"
proof -
  have "Feed [0, 0, 0] [2, 4, 9, 0, 0] =
      ([\<lparr>PayloadLen = 2, PType = 4, Raw = [0, 0, 0, 2, 4, 9]\<rparr>], None, [0, 0])"
    using feed_loop_packet [of "\<lparr>PayloadLen = 2, PType = 4, Raw = [0, 0, 0, 2, 4, 9]\<rparr>" "[0, 0]"]
    by (simp add: Feed_def wf_packet_def be_put32_def MaxPacketSize_def feed_loop_unfold [of "[0, 0]"])
  then show ?thesis using framer_lossless [of "[0, 0, 0]" "[2, 4, 9, 0, 0]"] by fastforce
qed

text \<open>
  How the transport cuts the stream does not matter: feeding two pieces one after the other
  returns the same packets, in the same order, the same error and the same pending bytes as
  feeding them joined.
\<close>

theorem framer_chunking:
  assumes "Feed buf p = (out1, None, rest1)" "Feed rest1 q = (out2, err, rest2)"
  shows "Feed buf (p @ q) = (out1 @ out2, err, rest2)"
  using feed_loop_append [of "buf @ p" out1 rest1 q] assms by (simp add: Feed_def)

theorem framer_chunking_witness:
  "Feed [] [0, 0] = ([], None, [0, 0]) \<and>
   Feed [0, 0] [0, 1, 5] = ([\<lparr>PayloadLen = 1, PType = 5, Raw = [0, 0, 0, 1, 5]\<rparr>], None, []) \<and>
   Feed [] ([0, 0] @ [0, 1, 5]) = ([\<lparr>PayloadLen = 1, PType = 5, Raw = [0, 0, 0, 1, 5]\<rparr>], None, [])"
proof -
  have f: "Feed [] [0, 0] = ([], None, [0, 0])"
    "Feed [0, 0] [0, 1, 5] = ([\<lparr>PayloadLen = 1, PType = 5, Raw = [0, 0, 0, 1, 5]\<rparr>], None, [])"
    using feed_loop_packet [of "\<lparr>PayloadLen = 1, PType = 5, Raw = [0, 0, 0, 1, 5]\<rparr>" "[]"]
    by (simp_all add: Feed_def wf_packet_def be_put32_def MaxPacketSize_def feed_loop_unfold [of "[0, 0]"]
        feed_loop_unfold [of "[]"])
  show ?thesis using f framer_chunking [OF f] by simp
qed

text \<open>
  The refusal the gateway writes is one well-formed STATUS packet for the request it answers:
  fed to a framer on a packet boundary it is exactly one packet of type STATUS carrying the same
  request id, and its fields parse back to the code and message, for every message that leaves the
  packet within the size limit.
\<close>

theorem status_reply_roundtrip:
  assumes "length message + 17 \<le> 2 ^ 20"
  shows "\<exists>p. Feed [] (MarshalStatus i code message) = ([p], None, []) \<and> PType p = TypeStatus \<and>
     Packet_ID p = Some i \<and> ParseStatus (Packet_Data p) = Some \<lparr>sr_code = code, sr_message = message\<rparr>"
proof -
  let ?payload = "TypeStatus # be_put32 i @ be_put32 code @ put_str message @ put_str ''''"
  let ?n = "of_nat (length ?payload) :: 32 word"
  let ?p = "\<lparr>PayloadLen = ?n, PType = TypeStatus, Raw = MarshalStatus i code message\<rparr>"
  have raw: "MarshalStatus i code message = be_put32 ?n @ ?payload"
    by (simp add: MarshalStatus_def Let_def writeUint32_def writeString_def put_str_def)
  have len: "length ?payload = 17 + length message" by (simp add: put_str_def)
  have n: "unat ?n = 17 + length message"
    unfolding len using assms by (intro unat_of_nat_small) simp
  then have "?n \<noteq> 0" by (metis add_is_0 unat_0 zero_neq_numeral)
  then have "wf_packet ?p"
    using n assms unfolding wf_packet_def MaxPacketSize_def packet.select_convs raw
    by (simp add: word_gt_0 put_str_def nth_append)
  from feed_loop_packet [OF this, of "[]"] have "Feed [] (MarshalStatus i code message) = ([?p], None, [])"
    by (simp add: Feed_def feed_loop_unfold [of "[]"])
  moreover have "Packet_ID ?p = Some i \<and> Packet_Data ?p = be_put32 code @ put_str message @ put_str ''''"
    by (rule packet_fields) (simp only: packet.select_convs raw append_Cons)
  moreover have "length message < 2 ^ 32" using assms by simp
  ultimately show ?thesis
    by (intro exI [of _ ?p]) (simp add: ParseStatus_def wu32.dec_enc wstr.dec_enc)
qed

theorem status_reply_roundtrip_witness:
  "\<exists>p. Feed [] (MarshalStatus 7 StatusPermissionDenied ''no'') = ([p], None, []) \<and>
     Packet_ID p = Some 7 \<and>
     ParseStatus (Packet_Data p) = Some \<lparr>sr_code = StatusPermissionDenied, sr_message = ''no''\<rparr>"
  using status_reply_roundtrip [of "''no''" 7 StatusPermissionDenied] by auto

end
