(* ===== verification/Risk.thy ===== *)
theory Risk
  imports Encoding
begin

text \<open>
  The risk barrier and its one-time approvals: \<open>internal/gateway/risk_approval.go\<close>,
  \<open>risk_judge.go\<close>, \<open>risk_classifier.go\<close>, the mode of \<open>risk_mode.go\<close> and the policy functions of
  \<open>human_role.go\<close>. The local rule engine (\<open>risk.Classify\<close>), the scrubber and the external
  classifier are arguments: the theorems hold whatever they answer. Events keep the fields the
  theorems speak of; the telemetry of a verdict (latencies, scores) is not modelled.
\<close>

section \<open>Verdicts, modes and classifiers\<close>

datatype level = Green | Yellow | Red

primrec level_rank :: "level \<Rightarrow> nat" where
  "level_rank Green = 0" | "level_rank Yellow = 1" | "level_rank Red = 2"

primrec level_String :: "level \<Rightarrow> string" where
  "level_String Green = ''green''" | "level_String Yellow = ''yellow''" | "level_String Red = ''red''"

record verdict =
  v_level :: level
  v_rule :: string
  v_reason :: string
  v_matched :: bool

datatype RiskAction = RiskActionNone | RiskActionLog | RiskActionWarn | RiskActionAsk | RiskActionBlock

datatype RiskClassifier = RiskClassifierRules | RiskClassifierAI | RiskClassifierBoth

datatype mode_source = FromConfig | FromLive

record riskModeState =
  rm_mode :: RiskAction
  rm_source :: mode_source

type_synonym ext_error = string
type_synonym history = "(string \<times> string \<times> string) list"

record riskClassification =
  rc_classifier :: RiskClassifier
  rc_local :: verdict
  rc_external :: "verdict option"
  rc_verdict :: verdict
  rc_externalCalled :: bool
  rc_externalAsync :: bool
  rc_externalError :: "ext_error option"
  rc_goal :: string
  rc_goalApplied :: bool

text \<open>
  What the judge depends on: the local rules, the scrubber, and the external classifier if one is
  configured (a verdict or an error, and whether it takes a goal).
\<close>

record ext_classifier =
  ec_classify :: "string \<Rightarrow> string \<Rightarrow> history \<Rightarrow> ext_error + verdict"
  ec_takes_goal :: bool

record judge_env =
  je_rules :: "string \<Rightarrow> verdict"
  je_scrub :: "string \<Rightarrow> string"
  je_external :: "ext_classifier option"
  je_failure_reason :: "ext_error \<Rightarrow> string"

definition failsClosed :: "riskClassification \<Rightarrow> bool" where
  "failsClosed c = (case rc_externalError c of None \<Rightarrow> False
     | Some _ \<Rightarrow> rc_classifier c = RiskClassifierAI \<or> rc_classifier c = RiskClassifierBoth)"

text \<open>A goal of white space only (\<open>strings.TrimSpace\<close> on ASCII white space) is no goal.\<close>

definition blank :: "string \<Rightarrow> bool" where
  "blank s \<longleftrightarrow> list_all (\<lambda>c. c \<in> {CHR '' '', CHR 0x09, CHR 0x0A, CHR 0x0B, CHR 0x0C, CHR 0x0D}) s"

definition externalClassifierCanReceiveGoal :: "ext_classifier option \<Rightarrow> string \<Rightarrow> bool" where
  "externalClassifierCanReceiveGoal ec goal =
     (if blank goal then False else case ec of None \<Rightarrow> False | Some c \<Rightarrow> ec_takes_goal c)"

definition worseRiskVerdict :: "verdict \<Rightarrow> verdict \<Rightarrow> verdict" where
  "worseRiskVerdict local external =
     (if level_rank (v_level external) > level_rank (v_level local) then external else local)"

definition green_unmatched :: verdict where
  "green_unmatched = \<lparr>v_level = Green, v_rule = '''', v_reason = '''', v_matched = False\<rparr>"

definition classifyWithExternal ::
  "judge_env \<Rightarrow> riskClassification \<Rightarrow> string \<Rightarrow> string \<Rightarrow> history \<Rightarrow> riskClassification" where
  "classifyWithExternal env result0 command goal hist =
    (let result = result0\<lparr>rc_externalCalled := True\<rparr>
     in case je_external env of
          None \<Rightarrow>
            (let result = result\<lparr>rc_externalError := Some ''external classifier is not configured''\<rparr>
             in if rc_classifier result = RiskClassifierAI
                then result\<lparr>rc_verdict := green_unmatched\<rparr> else result)
        | Some ec \<Rightarrow>
            (let answer = ec_classify ec (je_scrub env command) (je_scrub env goal) hist;
                 result = result\<lparr>rc_goalApplied := externalClassifierCanReceiveGoal (Some ec) goal\<rparr>
             in case answer of
                  Inl err \<Rightarrow>
                    (let result = result\<lparr>rc_externalError := Some err\<rparr>
                     in if rc_classifier result = RiskClassifierAI
                        then result\<lparr>rc_verdict := green_unmatched\<rparr> else result)
                | Inr ext \<Rightarrow>
                    (let result = result\<lparr>rc_external := Some ext\<rparr>
                     in if rc_classifier result = RiskClassifierAI
                        then result\<lparr>rc_verdict := ext\<rparr>
                        else result\<lparr>rc_verdict := worseRiskVerdict (rc_local result) ext\<rparr>)))"

definition classifyExec ::
  "judge_env \<Rightarrow> RiskClassifier \<Rightarrow> string \<Rightarrow> string \<Rightarrow> history \<Rightarrow> riskClassification" where
  "classifyExec env classifier command goal hist =
    (let local = je_rules env command;
         result = \<lparr>rc_classifier = classifier, rc_local = local, rc_external = None, rc_verdict = local,
           rc_externalCalled = False, rc_externalAsync = False, rc_externalError = None,
           rc_goal = je_scrub env goal, rc_goalApplied = False\<rparr>
     in case classifier of
          RiskClassifierRules \<Rightarrow> result
        | RiskClassifierAI \<Rightarrow> classifyWithExternal env result command goal hist
        | RiskClassifierBoth \<Rightarrow>
            if v_level local = Red
            then result\<lparr>rc_externalAsync := True,
                   rc_goalApplied := externalClassifierCanReceiveGoal (je_external env) goal\<rparr>
            else classifyWithExternal env result command goal hist)"

section \<open>Policy\<close>

definition riskAction :: "riskModeState \<Rightarrow> level \<Rightarrow> RiskAction" where
  "riskAction rm l = (case rm_mode rm of
      RiskActionAsk \<Rightarrow> if l = Red then RiskActionAsk else RiskActionWarn
    | RiskActionBlock \<Rightarrow> if l = Red then RiskActionBlock else RiskActionWarn
    | other \<Rightarrow> other)"

definition riskClassifierFailurePolicy :: "riskModeState \<Rightarrow> riskClassification \<Rightarrow> RiskAction \<times> bool" where
  "riskClassifierFailurePolicy rm c =
     (if \<not> failsClosed c then (RiskActionWarn, False)
      else if rm_source rm = FromLive \<and> (rm_mode rm = RiskActionLog \<or> rm_mode rm = RiskActionWarn)
      then (rm_mode rm, False)
      else if rm_mode rm = RiskActionBlock then (RiskActionBlock, True)
      else (RiskActionAsk, False))"

definition riskClassifierFailureVerdict :: "judge_env \<Rightarrow> ext_error \<Rightarrow> verdict" where
  "riskClassifierFailureVerdict env err = \<lparr>v_level = Red, v_rule = ''risk-classifier-unavailable'',
     v_reason = je_failure_reason env err, v_matched = True\<rparr>"

definition failedClassifierVerdict ::
  "judge_env \<Rightarrow> riskClassification \<Rightarrow> RiskAction \<Rightarrow> verdict \<Rightarrow> verdict" where
  "failedClassifierVerdict env c failureAction v =
     (if \<not> failsClosed c \<or> failureAction \<noteq> RiskActionAsk then v
      else case rc_externalError c of None \<Rightarrow> v | Some err \<Rightarrow> riskClassifierFailureVerdict env err)"

section \<open>Approvals\<close>

definition riskApprovalTTL :: duration where "riskApprovalTTL = 5 * minute"

record riskApproval =
  ra_ID :: string
  ra_Person :: string
  ra_Machine :: string
  ra_Command :: string
  ra_Verdict :: verdict
  ra_RequestedAt :: instant
  ra_SessionID :: string
  ra_Expires :: instant
  ra_ApprovedAt :: instant

datatype approval_status = StMissing | StPending | StApproved | StConsumed | StExpired | StDenied | StOk

datatype risk_event =
    ApprovalEvent riskApproval string approval_status string
  | SessionRisk string string string RiskAction string

type_synonym approvals = "(string, riskApproval) gomap"

definition hex_char :: "char \<Rightarrow> bool" where
  "hex_char c \<longleftrightarrow> CHR ''0'' \<le> c \<and> c \<le> CHR ''9'' \<or> CHR ''a'' \<le> c \<and> c \<le> CHR ''f'' \<or>
     CHR ''A'' \<le> c \<and> c \<le> CHR ''F''"

text \<open>\<open>encoding/hex.DecodeString\<close> succeeds on an even number of hexadecimal digits of either case.\<close>

definition riskApprovalIDValid :: "string \<Rightarrow> bool" where
  "riskApprovalIDValid i \<longleftrightarrow> length i = 20 \<and> take 4 i = ''apr-'' \<and> list_all hex_char (drop 4 i)"

text \<open>
  \<open>nextRiskApprovalID\<close>: eight random bytes if the system gave them, else the clock xored with a
  sequence number, printed with \<open>%016x\<close>.
\<close>

definition nextRiskApprovalID :: "byte list option \<Rightarrow> instant \<Rightarrow> 64 word \<Rightarrow> string \<times> 64 word" where
  "nextRiskApprovalID draw now sq = (case draw of
      Some raw \<Rightarrow> (''apr-'' @ hex_encode raw, sq)
    | None \<Rightarrow> (''apr-'' @ hex_encode (be_put64 (of_int now XOR (sq + 1))), sq + 1))"

text \<open>
  The loop of \<open>createRiskApproval\<close> draws until the identifier is new. The draws are a list; running
  out of them (\<open>None\<close>) stands for a loop that has not ended yet.
\<close>

fun fresh_id :: "approvals \<Rightarrow> byte list option list \<Rightarrow> instant \<Rightarrow> 64 word \<Rightarrow> (string \<times> 64 word) option" where
  "fresh_id m [] now sq = None"
| "fresh_id m (d # ds) now sq =
     (case nextRiskApprovalID d now sq of (i, sq') \<Rightarrow>
        if gm_get m i \<noteq> None then fresh_id m ds now sq' else Some (i, sq'))"

definition reusable :: "string \<Rightarrow> string \<Rightarrow> string \<Rightarrow> instant \<Rightarrow> riskApproval \<Rightarrow> bool" where
  "reusable person mach command now a \<longleftrightarrow>
     ra_Person a = person \<and> ra_Machine a = mach \<and> ra_Command a = command \<and>
     now < ra_Expires a \<and> isZero (ra_ApprovedAt a)"

definition createRiskApproval ::
  "approvals \<Rightarrow> 64 word \<Rightarrow> byte list option list \<Rightarrow> string \<Rightarrow> string \<Rightarrow> string \<Rightarrow> string \<Rightarrow> verdict \<Rightarrow> instant \<Rightarrow>
     (approvals \<times> 64 word \<times> riskApproval) option" where
  "createRiskApproval m sq draws person mach sessionID command v now =
    (case find (\<lambda>(i, a). reusable person mach command now a) m of
       Some (i, a) \<Rightarrow>
         (let a' = a\<lparr>ra_Expires := now + riskApprovalTTL, ra_SessionID := sessionID\<rparr>
          in Some (gm_put i a' m, sq, a'))
     | None \<Rightarrow>
         (case fresh_id m draws now sq of
            None \<Rightarrow> None
          | Some (i, sq') \<Rightarrow>
              (let a = \<lparr>ra_ID = i, ra_Person = person, ra_Machine = mach, ra_Command = command,
                 ra_Verdict = v, ra_RequestedAt = now, ra_SessionID = sessionID,
                 ra_Expires = now + riskApprovalTTL, ra_ApprovedAt = 0\<rparr>
               in Some (gm_put i a m, sq', a))))"

definition approveRiskApproval ::
  "approvals \<Rightarrow> string \<Rightarrow> string \<Rightarrow> instant \<Rightarrow> approvals \<times> riskApproval option \<times> approval_status \<times> bool" where
  "approveRiskApproval m person i now = (case gm_get m i of
      None \<Rightarrow> (m, None, StMissing, False)
    | Some a \<Rightarrow>
        if \<not> now < ra_Expires a then (gm_del i m, Some a, StExpired, False)
        else if ra_Person a \<noteq> person then (m, Some a, StDenied, False)
        else if isZero (ra_ApprovedAt a)
        then (let a' = a\<lparr>ra_ApprovedAt := now\<rparr> in (gm_put i a' m, Some a', StApproved, True))
        else (m, Some a, StApproved, False))"

definition spendable :: "string \<Rightarrow> string \<Rightarrow> string \<Rightarrow> riskApproval \<Rightarrow> bool" where
  "spendable person mach command a \<longleftrightarrow>
     \<not> (ra_Person a \<noteq> person \<or> ra_Machine a \<noteq> mach \<or> ra_Command a \<noteq> command \<or> isZero (ra_ApprovedAt a))"

definition consumeRiskApproval ::
  "approvals \<Rightarrow> string \<Rightarrow> string \<Rightarrow> string \<Rightarrow> instant \<Rightarrow> approvals \<times> riskApproval list \<times> riskApproval option" where
  "consumeRiskApproval m person mach command now =
    (let expired = map snd (filter (\<lambda>(i, a). \<not> now < ra_Expires a) m);
         m1 = filter (\<lambda>(i, a). now < ra_Expires a) m
     in case find (\<lambda>(i, a). spendable person mach command a) m1 of
          Some (i, a) \<Rightarrow> (gm_del i m1, expired, Some a)
        | None \<Rightarrow> (m1, expired, None))"

definition pendingRiskApprovals :: "approvals \<Rightarrow> string \<Rightarrow> instant \<Rightarrow> approvals \<times> riskApproval list" where
  "pendingRiskApprovals m person now =
    (let m1 = filter (\<lambda>(i, a). now < ra_Expires a) m
     in (m1, sort_key ra_RequestedAt
           (filter (\<lambda>a. ra_Person a = person \<and> isZero (ra_ApprovedAt a)) (map snd m1))))"

definition denyRiskApproval ::
  "approvals \<Rightarrow> string \<Rightarrow> string \<Rightarrow> instant \<Rightarrow> approvals \<times> riskApproval option \<times> approval_status" where
  "denyRiskApproval m person i now = (case gm_get m i of
      None \<Rightarrow> (m, None, StMissing)
    | Some a \<Rightarrow>
        if \<not> now < ra_Expires a then (gm_del i m, Some a, StExpired)
        else if ra_Person a \<noteq> person then (m, Some a, StDenied)
        else (gm_del i m, Some a, StOk))"

section \<open>The judge\<close>

record risk_gw =
  rg_approvals :: approvals
  rg_seq :: "64 word"
  rg_live :: "riskModeState option"
  rg_cfg_mode :: RiskAction
  rg_classifier :: RiskClassifier

definition currentRiskMode :: "risk_gw \<Rightarrow> riskModeState" where
  "currentRiskMode g = (case rg_live g of
      Some current \<Rightarrow> current
    | None \<Rightarrow> \<lparr>rm_mode = (if rg_cfg_mode g = RiskActionNone then RiskActionWarn else rg_cfg_mode g),
               rm_source = FromConfig\<rparr>)"

definition prepareRiskActionWithPolicy ::
  "risk_gw \<Rightarrow> byte list option list \<Rightarrow> instant \<Rightarrow> RiskAction \<Rightarrow> string \<Rightarrow> string \<Rightarrow> string \<Rightarrow> string \<Rightarrow> verdict \<Rightarrow>
     (risk_gw \<times> risk_event list \<times> RiskAction \<times> RiskAction \<times> string) option" where
  "prepareRiskActionWithPolicy g draws now policy person mach sessionID command v =
    (if policy \<noteq> RiskActionAsk then Some (g, [], policy, policy, '''')
     else (case consumeRiskApproval (rg_approvals g) person mach command now of (m1, expired, found) \<Rightarrow>
       (let gone = map (\<lambda>a. ApprovalEvent a (ra_Person a) StExpired '''') expired
        in case found of
             Some a \<Rightarrow> Some (g\<lparr>rg_approvals := m1\<rparr>, gone @ [ApprovalEvent a person StConsumed sessionID],
                            policy, RiskActionLog, ra_ID a)
           | None \<Rightarrow>
               (case createRiskApproval m1 (rg_seq g) draws person mach sessionID command v now of
                  None \<Rightarrow> None
                | Some (m2, sq, a) \<Rightarrow>
                    Some (g\<lparr>rg_approvals := m2, rg_seq := sq\<rparr>,
                          gone @ [ApprovalEvent a person StPending sessionID], policy, policy, ra_ID a)))))"

definition prepareRiskAction ::
  "risk_gw \<Rightarrow> byte list option list \<Rightarrow> instant \<Rightarrow> string \<Rightarrow> string \<Rightarrow> string \<Rightarrow> string \<Rightarrow> verdict \<Rightarrow>
     (risk_gw \<times> risk_event list \<times> RiskAction \<times> RiskAction \<times> string) option" where
  "prepareRiskAction g draws now person mach sessionID command v =
     prepareRiskActionWithPolicy g draws now (riskAction (currentRiskMode g) (v_level v)) person mach sessionID command v"

record riskDecision =
  rd_classification :: riskClassification
  rd_verdict :: verdict
  rd_action :: RiskAction
  rd_policyAction :: RiskAction
  rd_approvalID :: string
  rd_failureAction :: RiskAction
  rd_failureStops :: bool
  rd_stdinRefused :: bool

definition judgeRisk ::
  "judge_env \<Rightarrow> risk_gw \<Rightarrow> byte list option list \<Rightarrow> instant \<Rightarrow> string \<Rightarrow> string \<Rightarrow> string \<Rightarrow> string \<Rightarrow> string \<Rightarrow>
     history \<Rightarrow> verdict option \<Rightarrow> (risk_gw \<times> risk_event list \<times> riskDecision) option" where
  "judgeRisk env g draws now sessionID person mach text goal hist forced =
    (let c = classifyExec env (rg_classifier g) text goal hist;
         (failureAction, failureStops) = riskClassifierFailurePolicy (currentRiskMode g) c;
         v = (case forced of Some f \<Rightarrow> f | None \<Rightarrow> failedClassifierVerdict env c failureAction (rc_verdict c));
         d = \<lparr>rd_classification = c, rd_verdict = v, rd_action = RiskActionNone, rd_policyAction = RiskActionNone,
           rd_approvalID = '''', rd_failureAction = failureAction, rd_failureStops = failureStops,
           rd_stdinRefused = False\<rparr>
     in if v_level v = Green \<and> rc_externalError c = None then Some (g, [], d)
        else
         (case
           (if forced \<noteq> None then
              (let policy = riskAction (currentRiskMode g) Red;
                   policy = (if failureStops \<or> failsClosed c \<and> failureAction = RiskActionAsk
                             then RiskActionBlock else policy)
               in if policy = RiskActionAsk \<or> policy = RiskActionBlock
                  then Some (g, [], d\<lparr>rd_stdinRefused := True, rd_failureStops := False,
                         rd_policyAction := RiskActionBlock, rd_action := RiskActionBlock\<rparr>)
                  else Some (g, [], d\<lparr>rd_policyAction := policy, rd_action := policy\<rparr>))
            else if failureStops then Some (g, [], d\<lparr>rd_action := RiskActionBlock\<rparr>)
            else if v_level v = Green \<and> rc_externalError c \<noteq> None
            then Some (g, [], d\<lparr>rd_action := failureAction\<rparr>)
            else
              (case (if failsClosed c \<and> failureAction = RiskActionAsk
                     then prepareRiskActionWithPolicy g draws now RiskActionAsk person mach sessionID text v
                     else prepareRiskAction g draws now person mach sessionID text v) of
                 None \<Rightarrow> None
               | Some (g', evs, policy, effective, aid) \<Rightarrow>
                   Some (g', evs, d\<lparr>rd_policyAction := policy, rd_action := effective, rd_approvalID := aid\<rparr>)))
          of None \<Rightarrow> None
           | Some (g', evs, d') \<Rightarrow>
               (let eventAction = (if v_level v \<noteq> Green then rd_policyAction d' else rd_action d');
                    result = (if v_level v = Green \<and> rc_externalError c \<noteq> None then ''external-error''
                              else level_String (v_level v))
                in Some (g', evs @ [SessionRisk person mach result eventAction (rd_approvalID d')], d'))))"

definition approvalUsed :: "riskDecision \<Rightarrow> bool" where
  "approvalUsed d \<longleftrightarrow> rd_policyAction d = RiskActionAsk \<and> rd_action d = RiskActionLog \<and> rd_approvalID d \<noteq> ''''"

definition noticeNeeded :: "riskDecision \<Rightarrow> bool" where
  "noticeNeeded d \<longleftrightarrow> v_level (rd_verdict d) \<noteq> Green \<and> rd_action d \<noteq> RiskActionLog \<or>
     rc_externalError (rd_classification d) \<noteq> None \<or> approvalUsed d"

definition refused :: "riskDecision \<Rightarrow> bool" where
  "refused d \<longleftrightarrow> rd_failureStops d \<or> rd_policyAction d = RiskActionAsk \<and> rd_action d = RiskActionAsk \<or>
     rd_action d = RiskActionBlock"


section \<open>The administrative commands, after their JSON was decoded\<close>

datatype cmd_error = E_JSON_INVALID | E_INTERNAL | E_APPROVAL_NOT_FOUND | E_APPROVAL_FORBIDDEN

definition cmdRiskPending :: "risk_gw \<Rightarrow> string \<Rightarrow> instant \<Rightarrow> risk_gw \<times> riskApproval list" where
  "cmdRiskPending g person now =
    (case pendingRiskApprovals (rg_approvals g) person now of (m, held) \<Rightarrow> (g\<lparr>rg_approvals := m\<rparr>, held))"

definition cmdRiskDeny ::
  "risk_gw \<Rightarrow> string \<Rightarrow> instant \<Rightarrow> string \<Rightarrow> risk_gw \<times> risk_event list \<times> (cmd_error + string)" where
  "cmdRiskDeny g person now i =
    (if \<not> riskApprovalIDValid i then (g, [], Inl E_JSON_INVALID)
     else case denyRiskApproval (rg_approvals g) person i now of (m, a, st) \<Rightarrow>
       (let g' = g\<lparr>rg_approvals := m\<rparr>
        in case (st, a) of
             (StOk, Some a) \<Rightarrow> (g', [ApprovalEvent a person StDenied ''''], Inr (ra_ID a))
           | (StDenied, _) \<Rightarrow> (g', [], Inl E_APPROVAL_FORBIDDEN)
           | _ \<Rightarrow> (g', [], Inl E_APPROVAL_NOT_FOUND)))"

definition cmdRiskApprove ::
  "risk_gw \<Rightarrow> string \<Rightarrow> instant \<Rightarrow> string \<Rightarrow> risk_gw \<times> risk_event list \<times> (cmd_error + string \<times> bool)" where
  "cmdRiskApprove g person now i =
    (if \<not> riskApprovalIDValid i then (g, [], Inl E_JSON_INVALID)
     else case approveRiskApproval (rg_approvals g) person i now of (m, a, st, changed) \<Rightarrow>
       (let g' = g\<lparr>rg_approvals := m\<rparr>
        in case (st, a) of
             (StExpired, Some a) \<Rightarrow> (g', [ApprovalEvent a person StExpired ''''], Inl E_APPROVAL_NOT_FOUND)
           | (StDenied, Some a) \<Rightarrow> (g', [ApprovalEvent a person StDenied ''''], Inl E_APPROVAL_FORBIDDEN)
           | (StApproved, Some a) \<Rightarrow>
               (g', if changed then [ApprovalEvent a person StApproved ''''] else [], Inr (ra_ID a, changed))
           | _ \<Rightarrow> (g', [], Inl E_APPROVAL_NOT_FOUND)))"

text \<open>
  \<open>cmdRiskMode\<close>: an empty mode reads; the write to the data file may fail, and then the live mode
  stays. The result is the mode, whether it changed, and the mode before.
\<close>

definition cmdRiskMode ::
  "risk_gw \<Rightarrow> bool \<Rightarrow> bool \<Rightarrow> RiskAction option \<Rightarrow> risk_gw \<times> (cmd_error + RiskAction \<times> bool \<times> RiskAction)" where
  "cmdRiskMode g has_dir write_ok req = (case req of
      None \<Rightarrow> (g, Inl E_JSON_INVALID)
    | Some RiskActionNone \<Rightarrow>
        (let current = rm_mode (currentRiskMode g) in (g, Inr (current, False, current)))
    | Some mode \<Rightarrow>
        if \<not> has_dir then (g, Inl E_INTERNAL)
        else (let previous = rm_mode (currentRiskMode g)
              in if \<not> write_ok then (g, Inl E_INTERNAL)
                 else (g\<lparr>rg_live := Some \<lparr>rm_mode = mode, rm_source = FromLive\<rparr>\<rparr>,
                       Inr (mode, previous \<noteq> mode, previous))))"

section \<open>The invariant of the approval table\<close>

definition triple :: "riskApproval \<Rightarrow> string \<times> string \<times> string" where
  "triple a = (ra_Person a, ra_Machine a, ra_Command a)"

text \<open>
  The table is a map from identifiers to records that carry them, and holds at most one record per
  (person, machine, command): one held command is one entry, however often it is retried.
\<close>

definition approvals_inv :: "approvals \<Rightarrow> bool" where
  "approvals_inv m \<longleftrightarrow> gm_wf m \<and> (\<forall>(i, a) \<in> set m. ra_ID a = i) \<and> distinct (map (triple \<circ> snd) m)"

datatype risk_call =
    CallPrepare "byte list option list" instant string string string string verdict
  | CallApprove string string instant
  | CallDeny string string instant
  | CallPending string instant
  | CallMode RiskAction

fun risk_exec :: "risk_gw \<Rightarrow> risk_call \<Rightarrow> risk_gw" where
  "risk_exec g (CallPrepare draws now p m sid cmd v) =
     (case prepareRiskActionWithPolicy g draws now RiskActionAsk p m sid cmd v of
        None \<Rightarrow> g | Some (g', _) \<Rightarrow> g')"
| "risk_exec g (CallApprove p i now) = fst (cmdRiskApprove g p now i)"
| "risk_exec g (CallDeny p i now) = fst (cmdRiskDeny g p now i)"
| "risk_exec g (CallPending p now) = fst (cmdRiskPending g p now)"
| "risk_exec g (CallMode md) = fst (cmdRiskMode g True True (Some md))"

definition risk_init :: "risk_gw \<Rightarrow> bool" where
  "risk_init g \<longleftrightarrow> rg_approvals g = []"

definition risk_step :: "risk_gw \<Rightarrow> risk_gw \<Rightarrow> bool" where
  "risk_step g g' \<longleftrightarrow> (\<exists>call. g' = risk_exec g call)"

lemma inv_filter: "approvals_inv m \<Longrightarrow> approvals_inv (filter P m)"
  by (auto simp: approvals_inv_def distinct_map_filter)

lemma inv_del: "approvals_inv m \<Longrightarrow> approvals_inv (gm_del i m)"
  by (simp add: AList.delete_eq inv_filter)

lemma map_put_present:
  "(\<And>v'. gm_get m k = Some v' \<Longrightarrow> f v' = f v) \<Longrightarrow> gm_get m k \<noteq> None \<Longrightarrow>
   map (f \<circ> snd) (gm_put k v m) = map (f \<circ> snd) m"
  by (induction m) (auto split: if_splits)

lemma inv_put_same:
  assumes "approvals_inv m" "gm_get m i = Some a" "triple a' = triple a" "ra_ID a' = ra_ID a"
  shows "approvals_inv (gm_put i a' m)"
proof -
  have "ra_ID a = i" using assms(1,2) by (auto simp: approvals_inv_def gm_get_iff)
  moreover have "map (triple \<circ> snd) (gm_put i a' m) = map (triple \<circ> snd) m"
    by (rule map_put_present) (use assms in auto)
  ultimately show ?thesis
    using assms(1,4) gm_put_mem [of _ i a' m] by (fastforce simp: approvals_inv_def)
qed

lemma fresh_id_new: "fresh_id m ds now sq = Some (i, sq') \<Longrightarrow> gm_get m i = None"
  by (induction ds arbitrary: sq) (auto split: prod.splits if_splits)

lemma inv_put_new:
  assumes "approvals_inv m" "gm_get m (ra_ID a) = None" "triple a \<notin> (triple \<circ> snd) ` set m"
  shows "approvals_inv (gm_put (ra_ID a) a m)"
  using assms gm_wf_put [of m "ra_ID a" a] by (auto simp: approvals_inv_def gm_put_fresh)

lemma find_gm: "gm_wf m \<Longrightarrow> find P m = Some (i, a) \<Longrightarrow> gm_get m i = Some a \<and> P (i, a)"
  by (auto simp: find_Some_iff gm_get_iff in_set_conv_nth)

lemma create_inv:
  assumes inv: "approvals_inv m"
    and held: "\<And>i a. (i, a) \<in> set m \<Longrightarrow> triple a = (p, mc, cmd) \<Longrightarrow> now < ra_Expires a \<and> isZero (ra_ApprovedAt a)"
    and c: "createRiskApproval m sq draws p mc sid cmd v now = Some (m', sq', a)"
  shows "approvals_inv m'"
proof (cases "find (\<lambda>(i, a). reusable p mc cmd now a) m")
  case None
  then obtain i where i: "fresh_id m draws now sq = Some (i, sq')" "m' = gm_put i a m" "ra_ID a = i"
      "triple a = (p, mc, cmd)"
    using c by (auto simp: createRiskApproval_def Let_def triple_def split: option.splits)
  have "triple a \<notin> (triple \<circ> snd) ` set m"
    using None held i(4) by (fastforce simp: find_None_iff reusable_def triple_def)
  with inv i fresh_id_new [OF i(1)] show ?thesis using inv_put_new [of m a] by simp
next
  case (Some x)
  then obtain i b where x: "x = (i, b)" by (cases x)
  have b: "gm_get m i = Some b" using find_gm Some x inv by (fastforce simp: approvals_inv_def)
  show ?thesis
    by (rule subst [where P = approvals_inv, OF _ inv_put_same [OF inv b, of a]])
      (use c Some x in \<open>auto simp: createRiskApproval_def Let_def triple_def\<close>)
qed

text \<open>What \<open>consumeRiskApproval\<close> leaves when it finds nothing, and what it takes when it does.\<close>

lemma consume_none:
  assumes "consumeRiskApproval m p mc cmd now = (m1, ex, None)" "(i, a) \<in> set m1" "triple a = (p, mc, cmd)"
  shows "now < ra_Expires a \<and> isZero (ra_ApprovedAt a)"
  using assms
  by (auto simp: consumeRiskApproval_def Let_def find_None_iff spendable_def triple_def split: option.splits)

lemma consume_inv: "approvals_inv m \<Longrightarrow> consumeRiskApproval m p mc cmd now = (m1, ex, r) \<Longrightarrow> approvals_inv m1"
  by (auto simp: consumeRiskApproval_def Let_def inv_filter inv_del split: option.splits)

lemma consume_some:
  assumes inv: "approvals_inv m" and c: "consumeRiskApproval m p mc cmd now = (m1, ex, Some a)"
  shows "gm_get m (ra_ID a) = Some a" "triple a = (p, mc, cmd)" "\<not> isZero (ra_ApprovedAt a)" "now < ra_Expires a"
    "gm_get m1 (ra_ID a) = None" "(p, mc, cmd) \<notin> (triple \<circ> snd) ` set m1"
proof -
  let ?m = "filter (\<lambda>(i, a). now < ra_Expires a) m"
  obtain i where f: "find (\<lambda>(i, a). spendable p mc cmd a) ?m = Some (i, a)" and m1: "m1 = gm_del i ?m"
    using c by (auto simp: consumeRiskApproval_def Let_def split: option.splits)
  have wf: "gm_wf m" and inv': "approvals_inv ?m" using inv inv_filter by (auto simp: approvals_inv_def)
  have g: "gm_get ?m i = Some a" "spendable p mc cmd a"
    using find_gm [OF _ f] wf by auto
  have mem: "(i, a) \<in> set m" "now < ra_Expires a"
    using g(1) wf gm_get_filter [OF wf] by (auto simp: gm_get_iff)
  have i: "ra_ID a = i" using inv mem(1) by (auto simp: approvals_inv_def)
  show "gm_get m (ra_ID a) = Some a" using mem(1) i wf by (simp add: gm_get_iff)
  show t: "triple a = (p, mc, cmd)" and "\<not> isZero (ra_ApprovedAt a)"
    using g(2) by (auto simp: spendable_def triple_def)
  show "now < ra_Expires a" by (rule mem(2))
  show "gm_get m1 (ra_ID a) = None" by (simp add: m1 i)
  have "(i, a) \<in> set ?m" "distinct (map (triple \<circ> snd) ?m)"
    using g(1) inv' by (auto simp: approvals_inv_def gm_get_iff)
  then have "\<And>j b. (j, b) \<in> set ?m \<Longrightarrow> triple b = triple a \<Longrightarrow> j = i"
    unfolding distinct_map inj_on_def by (metis comp_apply fst_conv snd_conv)
  then show "(p, mc, cmd) \<notin> (triple \<circ> snd) ` set m1"
    using t unfolding m1 by (auto simp: AList.delete_eq)
qed

lemma prepare_inv:
  assumes inv: "approvals_inv (rg_approvals g)"
    and p: "prepareRiskActionWithPolicy g draws now pol p mc sid cmd v = Some (g', rest)"
  shows "approvals_inv (rg_approvals g')"
proof (cases "pol = RiskActionAsk")
  case True
  obtain m1 ex r where c: "consumeRiskApproval (rg_approvals g) p mc cmd now = (m1, ex, r)" by (metis prod_cases3)
  note m1 = consume_inv [OF inv c]
  show ?thesis
  proof (cases r)
    case None
    with p c True obtain m2 sq a where "createRiskApproval m1 (rg_seq g) draws p mc sid cmd v now = Some (m2, sq, a)"
        "rg_approvals g' = m2"
      by (auto simp: prepareRiskActionWithPolicy_def Let_def split: option.splits)
    then show ?thesis using create_inv [OF m1] consume_none c None by metis
  qed (use p c True m1 in \<open>auto simp: prepareRiskActionWithPolicy_def Let_def\<close>)
qed (use assms in \<open>auto simp: prepareRiskActionWithPolicy_def\<close>)

lemma exec_inv: "approvals_inv (rg_approvals g) \<Longrightarrow> approvals_inv (rg_approvals (risk_exec g call))"
proof (cases call)
  case (CallPrepare draws now p mc sid cmd v)
  then show "approvals_inv (rg_approvals g) \<Longrightarrow> ?thesis"
    using prepare_inv [of g draws now RiskActionAsk p mc sid cmd v] by (auto split: option.splits)
next
  case (CallApprove p i now)
  then show "approvals_inv (rg_approvals g) \<Longrightarrow> ?thesis"
    by (auto simp: cmdRiskApprove_def approveRiskApproval_def Let_def triple_def inv_del intro: inv_put_same
        split: option.splits)
next
  case (CallDeny p i now)
  then show "approvals_inv (rg_approvals g) \<Longrightarrow> ?thesis"
    by (auto simp: cmdRiskDeny_def denyRiskApproval_def Let_def inv_del split: option.splits)
next
  case (CallPending p now)
  then show "approvals_inv (rg_approvals g) \<Longrightarrow> ?thesis"
    by (auto simp: cmdRiskPending_def pendingRiskApprovals_def Let_def inv_filter)
next
  case (CallMode md)
  then show "approvals_inv (rg_approvals g) \<Longrightarrow> ?thesis"
    by (cases md) (auto simp: cmdRiskMode_def Let_def)
qed

interpretation risk: inv_system risk_init risk_step "\<lambda>g. approvals_inv (rg_approvals g)"
proof unfold_locales
  fix s t
  show "risk_init s \<Longrightarrow> approvals_inv (rg_approvals s)" by (simp add: risk_init_def approvals_inv_def)
  show "approvals_inv (rg_approvals s) \<Longrightarrow> risk_step s t \<Longrightarrow> approvals_inv (rg_approvals t)"
    using exec_inv by (auto simp: risk_step_def simp del: risk_exec.simps)
qed

section \<open>The judge lets nothing risky through\<close>

definition answers_for :: "risk_gw \<Rightarrow> verdict \<Rightarrow> riskClassification \<Rightarrow> bool" where
  "answers_for g v c \<longleftrightarrow>
     v_level v = Red \<and> rm_mode (currentRiskMode g) \<in> {RiskActionAsk, RiskActionBlock} \<or>
     failsClosed c \<and> \<not> (rm_source (currentRiskMode g) = FromLive \<and>
       rm_mode (currentRiskMode g) \<in> {RiskActionLog, RiskActionWarn})"

lemma judge_unforced:
  assumes j: "judgeRisk env g draws now sid p mc cmd goal hist None = Some (g', evs, d)"
    and nr: "\<not> refused d" and ans: "answers_for g (rd_verdict d) (rd_classification d)"
  shows "\<exists>evs1 e. prepareRiskActionWithPolicy g draws now RiskActionAsk p mc sid cmd (rd_verdict d) =
      Some (g', evs1, RiskActionAsk, rd_action d, rd_approvalID d) \<and> evs = evs1 @ [e] \<and> rd_action d \<noteq> RiskActionAsk"
proof -
  let ?c = "classifyExec env (rg_classifier g) cmd goal hist"
  let ?rm = "currentRiskMode g"
  have c: "rd_classification d = ?c"
    using j by (auto simp: judgeRisk_def Let_def split: if_splits option.splits prod.splits)
  show ?thesis
  proof (cases "failsClosed ?c")
    case True
    then obtain err where err: "rc_externalError ?c = Some err" by (auto simp: failsClosed_def split: option.splits)
    have "rm_mode ?rm \<noteq> RiskActionBlock"
    proof
      assume "rm_mode ?rm = RiskActionBlock"
      then have "riskClassifierFailurePolicy ?rm ?c = (RiskActionBlock, True)"
        using True by (simp add: riskClassifierFailurePolicy_def)
      then show False using j nr err by (auto simp: judgeRisk_def Let_def refused_def)
    qed
    then have "riskClassifierFailurePolicy ?rm ?c = (RiskActionAsk, False)"
      using True ans c by (auto simp: riskClassifierFailurePolicy_def answers_for_def)
    then show ?thesis using j nr err True
      by (auto simp: judgeRisk_def Let_def refused_def failedClassifierVerdict_def riskClassifierFailureVerdict_def
        prepareRiskActionWithPolicy_def split: option.splits prod.splits)
  next
    case False
    then have pol: "riskClassifierFailurePolicy ?rm ?c = (RiskActionWarn, False)"
      by (simp add: riskClassifierFailurePolicy_def)
    have v: "rd_verdict d = rc_verdict ?c"
      using j pol False
      by (auto simp: judgeRisk_def Let_def failedClassifierVerdict_def split: if_splits option.splits prod.splits)
    then have red: "v_level (rc_verdict ?c) = Red" "rm_mode ?rm \<in> {RiskActionAsk, RiskActionBlock}"
      using ans c False by (auto simp: answers_for_def)
    then show ?thesis using j nr pol False v
      by (auto simp: judgeRisk_def Let_def refused_def failedClassifierVerdict_def prepareRiskAction_def riskAction_def
        prepareRiskActionWithPolicy_def split: option.splits prod.splits)
  qed
qed

lemma prepare_spent:
  assumes inv: "approvals_inv (rg_approvals g)"
    and p: "prepareRiskActionWithPolicy g draws now RiskActionAsk p mc sid cmd v = Some (g', evs, pol, eff, aid)"
    and eff: "eff \<noteq> RiskActionAsk"
  obtains a where "gm_get (rg_approvals g) aid = Some a" "triple a = (p, mc, cmd)" "\<not> isZero (ra_ApprovedAt a)"
    "now < ra_Expires a" "(p, mc, cmd) \<notin> (triple \<circ> snd) ` set (rg_approvals g')"
    "gm_get (rg_approvals g') aid = None" "ApprovalEvent a p StConsumed sid \<in> set evs"
proof -
  obtain m1 ex r where c: "consumeRiskApproval (rg_approvals g) p mc cmd now = (m1, ex, r)" by (metis prod_cases3)
  with p eff obtain a where r: "r = Some a" "g' = g\<lparr>rg_approvals := m1\<rparr>" "aid = ra_ID a"
      "ApprovalEvent a p StConsumed sid \<in> set evs"
    by (auto simp: prepareRiskActionWithPolicy_def Let_def split: option.splits prod.splits)
  show thesis using that [of a] consume_some [OF inv c [unfolded r(1)]] r by simp
qed

lemma unforced_needs_approval:
  assumes "reachable risk_init risk_step g"
    and j: "judgeRisk env g draws now sid p mc cmd goal hist None = Some (g', evs, d)"
    and a: "\<not> refused d" "answers_for g (rd_verdict d) (rd_classification d)"
  shows "\<exists>a. gm_get (rg_approvals g) (rd_approvalID d) = Some a \<and> triple a = (p, mc, cmd) \<and>
        \<not> isZero (ra_ApprovedAt a) \<and> now < ra_Expires a \<and>
        gm_get (rg_approvals g') (rd_approvalID d) = None \<and> ApprovalEvent a p StConsumed sid \<in> set evs"
proof -
  obtain evs1 e where pr: "prepareRiskActionWithPolicy g draws now RiskActionAsk p mc sid cmd (rd_verdict d) =
      Some (g', evs1, RiskActionAsk, rd_action d, rd_approvalID d)" "evs = evs1 @ [e]" "rd_action d \<noteq> RiskActionAsk"
    using judge_unforced [OF j a] by blast
  show ?thesis
    by (rule prepare_spent [OF risk.reachable_inv [OF assms(1)] pr(1,3)]) (auto simp: pr(2))
qed

lemma forced_refused:
  assumes "judgeRisk env g draws now sid p mc cmd goal hist (Some f) = Some (g', evs, d)" "v_level f \<noteq> Green"
    "rm_mode (currentRiskMode g) \<in> {RiskActionAsk, RiskActionBlock}"
  shows "refused d \<and> g' = g"
  using assms by (auto simp: judgeRisk_def Let_def riskAction_def refused_def split: prod.splits if_splits)

text \<open>
  C6. Nothing risky runs unapproved. In every reachable state, whatever the rules, the scrubber and the
  external classifier answer: when the judge does not refuse a command whose verdict is red under
  \<open>ask\<close> or \<open>block\<close>, or whose classifier failed closed (unless an operator switched the live mode to
  \<open>log\<close> or \<open>warn\<close>), then that person had an approved, unexpired record for exactly this command text on
  this machine; the record is consumed, and the consumption is journalled. A verdict forced by the
  transport (a program streamed on standard input) is never let through by an approval: under
  \<open>ask\<close> or \<open>block\<close> it is refused.
\<close>

theorem risky_command_needs_approval:
  assumes "reachable risk_init risk_step g"
  shows "(judgeRisk env g draws now sid p mc cmd goal hist None = Some (g', evs, d) \<and> \<not> refused d \<and>
      answers_for g (rd_verdict d) (rd_classification d) \<longrightarrow>
      (\<exists>a. gm_get (rg_approvals g) (rd_approvalID d) = Some a \<and> triple a = (p, mc, cmd) \<and>
        \<not> isZero (ra_ApprovedAt a) \<and> now < ra_Expires a \<and>
        gm_get (rg_approvals g') (rd_approvalID d) = None \<and> ApprovalEvent a p StConsumed sid \<in> set evs)) \<and>
    (judgeRisk env g draws now sid p mc cmd goal hist (Some f) = Some (g', evs, d) \<and> v_level f \<noteq> Green \<and>
      rm_mode (currentRiskMode g) \<in> {RiskActionAsk, RiskActionBlock} \<longrightarrow> refused d \<and> g' = g)"
  by (intro conjI [OF impI impI]; elim conjE; (rule unforced_needs_approval [OF assms] | rule forced_refused); assumption)

lemma judge_state:
  assumes "judgeRisk env g draws now sid p mc cmd goal hist forced = Some (g', evs, d)"
  shows "g' = g \<and> (rd_action d = rd_policyAction d \<or> rd_policyAction d = RiskActionNone) \<or> (\<exists>evs1 pol.
      prepareRiskActionWithPolicy g draws now pol p mc sid cmd (rd_verdict d) =
        Some (g', evs1, rd_policyAction d, rd_action d, rd_approvalID d))"
  using assms unfolding judgeRisk_def Let_def prepareRiskAction_def
  by (auto split: prod.splits if_splits option.splits)

lemma prepare_policy:
  "prepareRiskActionWithPolicy g draws now pol p mc sid cmd v = Some (g', evs, pa, eff, aid) \<Longrightarrow> pa = pol"
  by (auto simp: prepareRiskActionWithPolicy_def Let_def split: if_splits prod.splits option.splits)

lemma used_is_prepared:
  assumes "judgeRisk env g draws now sid p mc cmd goal hist forced = Some (g', evs, d)" "approvalUsed d"
  obtains evs1 where "prepareRiskActionWithPolicy g draws now RiskActionAsk p mc sid cmd (rd_verdict d) =
    Some (g', evs1, RiskActionAsk, rd_action d, rd_approvalID d)" "rd_action d \<noteq> RiskActionAsk"
proof -
  have u: "rd_policyAction d = RiskActionAsk" "rd_action d = RiskActionLog"
    using assms(2) by (auto simp: approvalUsed_def)
  with judge_state [OF assms(1)] prepare_policy show thesis using that by fastforce
qed


text \<open>
  C32. Only the person a command is held for can decide it. Approving or denying another person's live
  record leaves the whole table as it was and answers \<open>E_APPROVAL_FORBIDDEN\<close>; a decision that succeeds
  is for an unexpired record of the caller, which afterwards is approved (marked at the given time if
  it was not already) or gone.
\<close>

theorem only_owner_decides:
  assumes "gm_get (rg_approvals g) i = Some a" "riskApprovalIDValid i" "now < ra_Expires a"
  shows "if ra_Person a \<noteq> p
    then fst (cmdRiskApprove g p now i) = g \<and> snd (snd (cmdRiskApprove g p now i)) = Inl E_APPROVAL_FORBIDDEN \<and>
      cmdRiskDeny g p now i = (g, [], Inl E_APPROVAL_FORBIDDEN)
    else gm_get (rg_approvals (fst (cmdRiskApprove g p now i))) i =
        Some (if isZero (ra_ApprovedAt a) then a\<lparr>ra_ApprovedAt := now\<rparr> else a) \<and>
      gm_get (rg_approvals (fst (cmdRiskDeny g p now i))) i = None \<and>
      snd (snd (cmdRiskApprove g p now i)) = Inr (ra_ID a, isZero (ra_ApprovedAt a)) \<and>
      snd (snd (cmdRiskDeny g p now i)) = Inr (ra_ID a)"
  using assms
  by (auto simp: cmdRiskApprove_def cmdRiskDeny_def approveRiskApproval_def denyRiskApproval_def Let_def)

lemma run_reachable:
  "reachable risk_init risk_step g \<Longrightarrow> reachable risk_init risk_step (fold (\<lambda>c g. risk_exec g c) cs g)"
proof (induction cs arbitrary: g)
  case (Cons c cs)
  have "reachable risk_init risk_step (risk_exec g c)"
    by (rule reachable.intros(2) [OF Cons.prems]) (auto simp: risk_step_def simp del: risk_exec.simps)
  with Cons.IH show ?case by simp
qed simp

section \<open>Concrete runs\<close>

definition demo_env :: judge_env where
  "demo_env = \<lparr>je_rules = (\<lambda>_. \<lparr>v_level = Red, v_rule = ''rm-root'', v_reason = '''', v_matched = True\<rparr>),
     je_scrub = (\<lambda>s. s), je_external = None, je_failure_reason = (\<lambda>e. e)\<rparr>"

definition demo_gw0 :: risk_gw where
  "demo_gw0 = \<lparr>rg_approvals = [], rg_seq = 0, rg_live = None, rg_cfg_mode = RiskActionAsk,
     rg_classifier = RiskClassifierRules\<rparr>"

definition demo_calls :: "risk_call list" where
  "demo_calls = [CallPrepare [Some [0, 1, 2, 3, 4, 5, 6, 255]] 100 ''bob'' ''db1'' ''s1'' ''rm'' (je_rules demo_env ''rm''),
     CallApprove ''bob'' ''apr-00010203040506ff'' 101]"

definition demo_rec :: riskApproval where
  "demo_rec = \<lparr>ra_ID = ''apr-00010203040506ff'', ra_Person = ''bob'', ra_Machine = ''db1'', ra_Command = ''rm'',
     ra_Verdict = \<lparr>v_level = Red, v_rule = ''rm-root'', v_reason = '''', v_matched = True\<rparr>,
     ra_RequestedAt = 100, ra_SessionID = ''s1'', ra_Expires = 100 + riskApprovalTTL, ra_ApprovedAt = 101\<rparr>"

definition demo_gw :: risk_gw where
  "demo_gw = demo_gw0\<lparr>rg_approvals := [(''apr-00010203040506ff'', demo_rec)]\<rparr>"

lemma demo_gw_run: "fold (\<lambda>c g. risk_exec g c) demo_calls demo_gw0 = demo_gw"
  by code_simp

lemma demo_gw_reachable: "reachable risk_init risk_step demo_gw"
proof -
  have "reachable risk_init risk_step demo_gw0"
    by (rule reachable.intros) (simp add: risk_init_def demo_gw0_def)
  then show ?thesis using run_reachable demo_gw_run by metis
qed

definition demo_run :: "risk_gw \<Rightarrow> instant \<Rightarrow> verdict option \<Rightarrow> (risk_gw \<times> risk_event list \<times> riskDecision)" where
  "demo_run g now forced =
     the (judgeRisk demo_env g [Some [9, 9, 9, 9, 9, 9, 9, 9]] now ''s2'' ''bob'' ''db1'' ''rm'' '''' [] forced)"

lemma demo_judged: "judgeRisk demo_env demo_gw [Some [9, 9, 9, 9, 9, 9, 9, 9]] 102 ''s2'' ''bob'' ''db1'' ''rm'' '''' [] None =
    Some (fst (demo_run demo_gw 102 None), fst (snd (demo_run demo_gw 102 None)), snd (snd (demo_run demo_gw 102 None)))"
  by code_simp

theorem risky_command_needs_approval_witness:
  "reachable risk_init risk_step demo_gw \<and>
   (case demo_run demo_gw 102 None of (g', evs, d) \<Rightarrow>
      \<not> refused d \<and> answers_for demo_gw (rd_verdict d) (rd_classification d) \<and>
      (\<exists>a. gm_get (rg_approvals demo_gw) (rd_approvalID d) = Some a \<and> triple a = (''bob'', ''db1'', ''rm'') \<and>
        \<not> isZero (ra_ApprovedAt a) \<and> 102 < ra_Expires a \<and>
        gm_get (rg_approvals g') (rd_approvalID d) = None \<and> ApprovalEvent a ''bob'' StConsumed ''s2'' \<in> set evs)) \<and>
   refused (snd (snd (demo_run demo_gw 102 (Some (je_rules demo_env [])))))"
proof -
  have "\<not> refused (snd (snd (demo_run demo_gw 102 None)))"
    "answers_for demo_gw (rd_verdict (snd (snd (demo_run demo_gw 102 None))))
       (rd_classification (snd (snd (demo_run demo_gw 102 None))))"
    "refused (snd (snd (demo_run demo_gw 102 (Some (je_rules demo_env [])))))"
    by code_simp+
  then show ?thesis
    using demo_gw_reachable risky_command_needs_approval [OF demo_gw_reachable] demo_judged by (fastforce split: prod.splits)
qed

lemma demo_judged_again:
  "judgeRisk demo_env (fst (demo_run demo_gw 102 None)) [Some [9, 9, 9, 9, 9, 9, 9, 9]] 103 ''s2'' ''bob'' ''db1'' ''rm'' '''' [] None =
    Some (fst (demo_run (fst (demo_run demo_gw 102 None)) 103 None), fst (snd (demo_run (fst (demo_run demo_gw 102 None)) 103 None)),
      snd (snd (demo_run (fst (demo_run demo_gw 102 None)) 103 None)))"
  by code_simp


theorem only_owner_decides_witness:
  "cmdRiskDeny demo_gw ''eve'' 102 ''apr-00010203040506ff'' = (demo_gw, [], Inl E_APPROVAL_FORBIDDEN) \<and>
   fst (cmdRiskApprove demo_gw ''eve'' 102 ''apr-00010203040506ff'') = demo_gw \<and>
   gm_get (rg_approvals (fst (cmdRiskDeny demo_gw ''bob'' 102 ''apr-00010203040506ff''))) ''apr-00010203040506ff'' = None"
proof -
  have "gm_get (rg_approvals demo_gw) ''apr-00010203040506ff'' = Some demo_rec"
    "riskApprovalIDValid ''apr-00010203040506ff''" "102 < ra_Expires demo_rec"
    "ra_Person demo_rec \<noteq> ''eve''" "ra_Person demo_rec = ''bob''"
    by code_simp+
  then show ?thesis
    using only_owner_decides [of demo_gw _ _ 102 "''eve''"] only_owner_decides [of demo_gw _ _ 102 "''bob''"] by simp
qed

text \<open>
  The identifier check takes hexadecimal digits of either case, although its message asks for
  lower-case ones.
\<close>

lemma upper_case_id_accepted: "riskApprovalIDValid ''apr-00000000000000FF''"
  by code_simp

end
