(* ===== verification/Sftp_Proxy.thy ===== *)
theory Sftp_Proxy
  imports Sftp_Wire Risk "HOL-Library.Sublist"
begin

text \<open>
  The SFTP subsystem proxy: \<open>internal/gateway/sftp_session.go\<close>. The proxy's state is explicit and
  every operation returns the new state, the events it caused and its result. Judging a request runs
  the judge of the risk theory on the gateway's risk state. What one call reads from outside (the clock,
  random draws, and whether the recorder, the notice writer, the person's and the machine's side
  accept a write) is the record \<open>px_in\<close>; the two goroutines of the program are the interleaving of
  client and server packets in the step relation.
\<close>

section \<open>Handles\<close>

record sftpHandle =
  h_path :: string
  h_direction :: string
  h_moved :: bool
  h_size :: "64 word"
  h_hashed :: "byte list"
  h_sequential :: bool
  h_nextOffset :: "64 word"
  h_copied :: bool

definition newSFTPHandle :: "string \<Rightarrow> 32 word \<Rightarrow> sftpHandle" where
  "newSFTPHandle path pflags = \<lparr>h_path = path,
     h_direction = (if Mutating \<lparr>or_path = '''', or_pflags = pflags\<rparr> then ''upload'' else ''download''),
     h_moved = False, h_size = 0, h_hashed = [], h_sequential = True, h_nextOffset = 0, h_copied = False\<rparr>"

text \<open>
  \<open>size\<close> is an \<open>int64\<close>: the sum wraps as words do and the comparison is signed. The running
  \<open>hash.Hash\<close> is the list of bytes written into it.
\<close>

definition first_move :: "sftpHandle \<Rightarrow> string \<Rightarrow> sftpHandle" where
  "first_move h direction = (if \<not> h_moved h then h\<lparr>h_moved := True, h_direction := direction\<rparr> else h)"

definition grow_size :: "sftpHandle \<Rightarrow> 64 word \<Rightarrow> sftpHandle" where
  "grow_size h e = (if sint e > sint (h_size h) then h\<lparr>h_size := e\<rparr> else h)"

definition observe :: "sftpHandle \<Rightarrow> string \<Rightarrow> 64 word \<Rightarrow> byte list \<Rightarrow> sftpHandle" where
  "observe h direction offset data =
    (let h = grow_size (first_move h direction) (offset + of_nat (length data))
     in if \<not> h_sequential h then h
        else if offset \<noteq> h_nextOffset h \<or> direction \<noteq> h_direction h then h\<lparr>h_sequential := False\<rparr>
        else h\<lparr>h_hashed := h_hashed h @ data, h_nextOffset := h_nextOffset h + of_nat (length data)\<rparr>)"

definition sha :: "sftpHandle \<Rightarrow> string" where
  "sha h = (if h_copied h then ''not computed: written by copy-data''
     else if \<not> h_sequential h then ''non-sequential''
     else hex_encode (sha256 (h_hashed h)))"

section \<open>The proxy's state\<close>

text \<open>The operations a pending request can stand for; the program names them by strings.\<close>

datatype sftp_op = OpOther | OpOpen | OpClose | OpRead | OpRemove | OpRename | OpMkdir | OpRmdir | OpSetstat
  | OpFsetstat | OpHardlink | OpSymlink | OpCopy | OpExtension

primrec op_name :: "sftp_op \<Rightarrow> string" where
  "op_name OpOther = ''other''" | "op_name OpOpen = ''open''" | "op_name OpClose = ''close''"
| "op_name OpRead = ''read''" | "op_name OpRemove = ''remove''" | "op_name OpRename = ''rename''"
| "op_name OpMkdir = ''mkdir''" | "op_name OpRmdir = ''rmdir''" | "op_name OpSetstat = ''setstat''"
| "op_name OpFsetstat = ''fsetstat''" | "op_name OpHardlink = ''hardlink''" | "op_name OpSymlink = ''symlink''"
| "op_name OpCopy = ''copy''" | "op_name OpExtension = ''extension''"

record sftpPending =
  pe_op :: sftp_op
  pe_path :: string
  pe_newPath :: string
  pe_pflags :: "32 word"
  pe_handle :: string
  pe_offset :: "64 word"
  pe_copyLength :: "64 word"
  pe_extended :: bool

definition pend0 :: "sftp_op \<Rightarrow> sftpPending" where
  "pend0 op = \<lparr>pe_op = op, pe_path = '''', pe_newPath = '''', pe_pflags = 0, pe_handle = '''',
     pe_offset = 0, pe_copyLength = 0, pe_extended = False\<rparr>"

record file_entry =
  fe_op :: string
  fe_direction :: string
  fe_path :: string
  fe_newPath :: string
  fe_size :: int
  fe_sha256 :: string
  fe_outcome :: string

datatype px_event =
    PxRisk risk_event
  | PxFile file_entry string "string option" "string option"
  | PxNotice string
  | PxRecent string string

datatype px_error =
    DuplicateID "32 word"
  | RecordingError string
  | NoticeError string
  | Framing wire_error
  | ClosedPipe
  | TargetError

record px_env =
  pv_judge :: judge_env
  pv_notice :: "riskDecision \<Rightarrow> string"
  pv_notices :: bool
  pv_person :: string
  pv_machine :: string
  pv_session :: string
  pv_goal :: string

record px_in =
  in_now :: instant
  in_draws :: "byte list option list"
  in_rec :: "file_entry \<Rightarrow> string option"
  in_notice_err :: "string option"
  in_human_gone :: bool
  in_target_err :: bool

record sftpProxy =
  px_gw :: risk_gw
  px_history :: history
  px_handles :: "(string, sftpHandle) gomap"
  px_pending :: "(32 word, sftpPending) gomap"

definition newSFTPProxy :: "risk_gw \<Rightarrow> history \<Rightarrow> sftpProxy" where
  "newSFTPProxy g hist = \<lparr>px_gw = g, px_history = hist, px_handles = [], px_pending = []\<rparr>"

definition setPending :: "sftpProxy \<Rightarrow> 32 word \<Rightarrow> sftpPending \<Rightarrow> sftpProxy" where
  "setPending p i pend = p\<lparr>px_pending := gm_put i pend (px_pending p)\<rparr>"

definition reserve :: "sftpProxy \<Rightarrow> 32 word \<Rightarrow> px_error + sftpProxy" where
  "reserve p i = (case gm_get (px_pending p) i of
      Some _ \<Rightarrow> Inl (DuplicateID i)
    | None \<Rightarrow> Inr (p\<lparr>px_pending := gm_put i (pend0 OpOther) (px_pending p)\<rparr>))"

definition release :: "sftpProxy \<Rightarrow> 32 word \<Rightarrow> sftpProxy" where
  "release p i = p\<lparr>px_pending := gm_del i (px_pending p)\<rparr>"

definition handlePath :: "sftpProxy \<Rightarrow> string \<Rightarrow> string" where
  "handlePath p handle = (case gm_get (px_handles p) handle of
      Some h \<Rightarrow> h_path h
    | None \<Rightarrow> ''handle:'' @ handle)"

definition directionOf :: "sftpPending \<Rightarrow> string" where
  "directionOf pend = (if pe_op pend = OpOpen then ''upload'' else '''')"

section \<open>Journal\<close>

text \<open>
  \<open>journalFileWith\<close>: the recorder may fail; the event is written in either case and the failure is
  the result. A negative size is omitted from the event, as are empty strings: the event carries the
  entry, the result word, the extra detail and the recording error.
\<close>

definition journalFileWith :: "px_in \<Rightarrow> file_entry \<Rightarrow> string option \<Rightarrow> px_event list \<times> px_error option" where
  "journalFileWith i fe extra =
    (let recErr = map_option (\<lambda>e. ''recording: '' @ e) (in_rec i fe);
         result = (if fe_outcome fe = ''ok'' then ''ok''
                   else if 7 \<le> length (fe_outcome fe) \<and> take 7 (fe_outcome fe) = ''denied:'' then ''denied''
                   else ''failed'')
     in ([PxFile fe result extra recErr], map_option RecordingError recErr))"

definition journalFile ::
  "px_in \<Rightarrow> string \<Rightarrow> string \<Rightarrow> string \<Rightarrow> string \<Rightarrow> int \<Rightarrow> string \<Rightarrow> string \<Rightarrow> px_event list \<times> px_error option" where
  "journalFile i op direction path newPath sz digest outcome =
     journalFileWith i \<lparr>fe_op = op, fe_direction = direction, fe_path = path, fe_newPath = newPath,
       fe_size = sz, fe_sha256 = digest, fe_outcome = outcome\<rparr> None"

section \<open>Judging\<close>

definition riskClassifierFailureCode :: string where
  "riskClassifierFailureCode = ''E_RISK_CLASSIFIER_UNAVAILABLE''"

definition judge ::
  "px_env \<Rightarrow> px_in \<Rightarrow> sftpProxy \<Rightarrow> string \<Rightarrow> (sftpProxy \<times> px_event list \<times> bool \<times> string \<times> string) option" where
  "judge e i p action =
    (case judgeRisk (pv_judge e) (px_gw p) (in_draws i) (in_now i) (pv_session e) (pv_person e) (pv_machine e)
            action (pv_goal e) (px_history p) None of
       None \<Rightarrow> None
     | Some (g, evs, d) \<Rightarrow>
        (let allow = (\<not> refused d);
             message = (if allow then '''' else pv_notice e d);
             outcome = (if allow then ''''
               else if rd_failureStops d then ''denied: '' @ riskClassifierFailureCode
               else if rd_action d = RiskActionAsk then ''denied: E_APPROVAL_REQUIRED approval-id='' @ rd_approvalID d
               else ''denied: E_COMMAND_BLOCKED'');
             ex = (if allow then ''ok'' else ''denied'')
         in Some (p\<lparr>px_gw := g, px_history := (je_scrub (pv_judge e) action, ex, '''') # px_history p\<rparr>,
                  map PxRisk evs @ [PxRecent action ex], allow, message, outcome)))"

section \<open>Requests from the person\<close>

text \<open>
  The text of a parse error: the first field of the layout that the bytes do not hold. A layout is a
  list of field names with the reader that skips the field.
\<close>

fun first_short :: "(string \<times> (byte list \<Rightarrow> byte list option)) list \<Rightarrow> byte list \<Rightarrow> string" where
  "first_short [] data = ''''"
| "first_short ((name, skip) # layout) data = (case skip data of
     None \<Rightarrow> ''sftpwire: '' @ name @ '': sftpwire: packet shorter than its layout''
   | Some rest \<Rightarrow> first_short layout rest)"

definition skip_str :: "byte list \<Rightarrow> byte list option" where
  "skip_str data = map_option snd (readString data)"

definition skip_u32 :: "byte list \<Rightarrow> byte list option" where
  "skip_u32 data = map_option snd (readUint32 data)"

definition skip_u64 :: "byte list \<Rightarrow> byte list option" where
  "skip_u64 data = map_option snd (readUint64 data)"

definition two_paths_error :: "byte list \<Rightarrow> string" where
  "two_paths_error = first_short [(''first path'', skip_str), (''second path'', skip_str)]"

definition copy_data_error :: "byte list \<Rightarrow> string" where
  "copy_data_error = first_short [(''copy-data read handle'', skip_str), (''copy-data read offset'', skip_u64),
     (''copy-data length'', skip_u64), (''copy-data write handle'', skip_str), (''copy-data write offset'', skip_u64)]"

text \<open>
  The switch of \<open>decideClientPacket\<close> ends in one of three ways: the packet was forwarded at once
  (with the state it leaves), it does not parse, or it is to be judged.
\<close>

datatype switched = Forwarded sftpProxy | ParseErr string | ToJudge sftpPending string

definition readonly_extensions :: "string list" where
  "readonly_extensions = [''statvfs@openssh.com'', ''fstatvfs@openssh.com'', ''limits@openssh.com'',
     ''expand-path@openssh.com'', ''home-directory'', ''users-groups-by-id@openssh.com'']"

definition ext_posix_rename :: string where "ext_posix_rename = ''posix-rename@openssh.com''"
definition ext_hardlink :: string where "ext_hardlink = ''hardlink@openssh.com''"
definition ext_lsetstat :: string where "ext_lsetstat = ''lsetstat@openssh.com''"
definition ext_copy_data :: string where "ext_copy_data = ''copy-data''"

lemmas ext_names = ext_posix_rename_def ext_hardlink_def ext_lsetstat_def ext_copy_data_def

definition path_op :: "byte \<Rightarrow> sftp_op" where
  "path_op t = (if t = TypeRemove then OpRemove else if t = TypeRmdir then OpRmdir
     else if t = TypeSetstat then OpSetstat else OpMkdir)"

definition switch_extended :: "sftpProxy \<Rightarrow> byte list \<Rightarrow> switched" where
  "switch_extended p data = (case ParseExtended data of
     None \<Rightarrow> ParseErr (first_short [(''extended name'', skip_str)] data)
   | Some (name, rest) \<Rightarrow>
       if name = ext_posix_rename \<or> name = ext_hardlink then
         (case ParseTwoPaths rest of
            None \<Rightarrow> ParseErr (two_paths_error rest)
          | Some (a, b) \<Rightarrow>
              (let op = (if name = ext_hardlink then OpHardlink else OpRename)
               in ToJudge ((pend0 op)\<lparr>pe_path := a, pe_newPath := b, pe_extended := True\<rparr>)
                    (''sftp: '' @ op_name op @ '' '' @ a @ '' -> '' @ b)))
       else if name = ext_lsetstat then
         (case ParsePath rest of
            None \<Rightarrow> ParseErr (first_short [(''path'', skip_str)] rest)
          | Some path \<Rightarrow> ToJudge ((pend0 OpSetstat)\<lparr>pe_path := path, pe_extended := True\<rparr>) (''sftp: setstat '' @ path))
       else if name = ext_copy_data then
         (case ParseCopyData rest of
            None \<Rightarrow> ParseErr (copy_data_error rest)
          | Some req \<Rightarrow>
              (let src = handlePath p (cd_readHandle req); dst = handlePath p (cd_writeHandle req)
               in ToJudge ((pend0 OpCopy)\<lparr>pe_path := src, pe_newPath := dst, pe_handle := cd_writeHandle req,
                      pe_copyLength := cd_length req, pe_extended := True\<rparr>)
                    (''sftp: copy '' @ src @ '' -> '' @ dst)))
       else if name \<in> set readonly_extensions then Forwarded p
       else ToJudge ((pend0 OpExtension)\<lparr>pe_path := name, pe_extended := True\<rparr>) (''sftp: extension '' @ name))"

definition switch_open :: "sftpProxy \<Rightarrow> byte list \<Rightarrow> 32 word \<Rightarrow> switched" where
  "switch_open p data i = (case ParseOpen data of
     None \<Rightarrow> ParseErr (first_short [(''open path'', skip_str), (''open pflags'', skip_u32)] data)
   | Some req \<Rightarrow>
       (let pend = (pend0 OpOpen)\<lparr>pe_path := or_path req, pe_pflags := or_pflags req\<rparr>
        in if \<not> Mutating req then Forwarded (setPending p i pend)
           else ToJudge pend (''sftp: write '' @ or_path req)))"

definition switch_close :: "sftpProxy \<Rightarrow> byte list \<Rightarrow> 32 word \<Rightarrow> switched" where
  "switch_close p data i = (case ParseHandleRequest data of
     Some h \<Rightarrow> Forwarded (setPending p i ((pend0 OpClose)\<lparr>pe_handle := h\<rparr>))
   | None \<Rightarrow> Forwarded p)"

definition switch_read :: "sftpProxy \<Rightarrow> byte list \<Rightarrow> 32 word \<Rightarrow> switched" where
  "switch_read p data i = (case ParseRead data of
     Some req \<Rightarrow> Forwarded (setPending p i ((pend0 OpRead)\<lparr>pe_handle := rw_handle req, pe_offset := rw_offset req\<rparr>))
   | None \<Rightarrow> Forwarded p)"

definition switch_write :: "sftpProxy \<Rightarrow> byte list \<Rightarrow> switched" where
  "switch_write p data = (case ParseWrite data of
     Some req \<Rightarrow>
       (case gm_get (px_handles p) (rw_handle req) of
          Some h \<Rightarrow> Forwarded (p\<lparr>px_handles :=
              gm_put (rw_handle req) (observe h ''upload'' (rw_offset req) (rw_data req)) (px_handles p)\<rparr>)
        | None \<Rightarrow> Forwarded p)
   | None \<Rightarrow> Forwarded p)"

definition switch_path :: "byte \<Rightarrow> byte list \<Rightarrow> switched" where
  "switch_path t data = (case ParsePath data of
     None \<Rightarrow> ParseErr (first_short [(''path'', skip_str)] data)
   | Some path \<Rightarrow> ToJudge ((pend0 (path_op t))\<lparr>pe_path := path\<rparr>) (''sftp: '' @ op_name (path_op t) @ '' '' @ path))"

definition switch_fsetstat :: "sftpProxy \<Rightarrow> byte list \<Rightarrow> switched" where
  "switch_fsetstat p data = (case ParseHandleRequest data of
     None \<Rightarrow> ParseErr (first_short [(''handle'', skip_str)] data)
   | Some h \<Rightarrow> ToJudge ((pend0 OpFsetstat)\<lparr>pe_path := handlePath p h, pe_handle := h\<rparr>) (''sftp: setstat '' @ handlePath p h))"

definition switch_rename :: "byte list \<Rightarrow> switched" where
  "switch_rename data = (case ParseRename data of
     None \<Rightarrow> ParseErr (first_short [(''rename oldpath'', skip_str), (''rename newpath'', skip_str)] data)
   | Some (old, new) \<Rightarrow> ToJudge ((pend0 OpRename)\<lparr>pe_path := old, pe_newPath := new\<rparr>)
       (''sftp: rename '' @ old @ '' -> '' @ new))"

definition switch_symlink :: "byte list \<Rightarrow> switched" where
  "switch_symlink data = (case ParseTwoPaths data of
     None \<Rightarrow> ParseErr (two_paths_error data)
   | Some (a, b) \<Rightarrow> ToJudge ((pend0 OpSymlink)\<lparr>pe_path := a, pe_newPath := b\<rparr>)
       (''sftp: symlink '' @ a @ '' '' @ b))"

definition decide_switch :: "sftpProxy \<Rightarrow> packet \<Rightarrow> 32 word \<Rightarrow> switched" where
  "decide_switch p pkt i =
    (let data = Packet_Data pkt; t = PType pkt in
     if t = TypeOpen then switch_open p data i
     else if t = TypeClose then switch_close p data i
     else if t = TypeRead then switch_read p data i
     else if t = TypeWrite then switch_write p data
     else if t = TypeRemove \<or> t = TypeRmdir \<or> t = TypeSetstat \<or> t = TypeMkdir then switch_path t data
     else if t = TypeFsetstat then switch_fsetstat p data
     else if t = TypeRename then switch_rename data
     else if t = TypeSymlink then switch_symlink data
     else if t = TypeExtended then switch_extended p data
     else Forwarded p)"

datatype client_result = Forward | Answer "byte list" | EndSession px_error

definition decideClientPacket ::
  "px_env \<Rightarrow> px_in \<Rightarrow> sftpProxy \<Rightarrow> packet \<Rightarrow> 32 word \<Rightarrow> (sftpProxy \<times> px_event list \<times> client_result) option" where
  "decideClientPacket e inp p pkt i = (case decide_switch p pkt i of
     Forwarded p' \<Rightarrow> Some (p', [], Forward)
   | ParseErr err \<Rightarrow> Some (p, [], Answer (MarshalStatus i StatusBadMessage (''iamtunnel: malformed request: '' @ err)))
   | ToJudge pend action \<Rightarrow>
       (case judge e inp p action of
          None \<Rightarrow> None
        | Some (p', evs, allow, message, outcome) \<Rightarrow>
            if \<not> allow then
              (case journalFile inp (op_name (pe_op pend)) (directionOf pend) (pe_path pend) (pe_newPath pend) (- 1) '''' outcome of
                 (jevs, Some err) \<Rightarrow> Some (p', evs @ jevs, EndSession err)
               | (jevs, None) \<Rightarrow>
                   if pv_notices e then
                     (case in_notice_err inp of
                        Some err \<Rightarrow> Some (p', evs @ jevs, EndSession (NoticeError err))
                      | None \<Rightarrow> Some (p', evs @ jevs @ [PxNotice message],
                                  Answer (MarshalStatus i StatusPermissionDenied message)))
                   else Some (p', evs @ jevs, Answer (MarshalStatus i StatusPermissionDenied message)))
            else Some (setPending p' i pend, evs, Forward)))"

definition handleClientPacket ::
  "px_env \<Rightarrow> px_in \<Rightarrow> sftpProxy \<Rightarrow> packet \<Rightarrow> (sftpProxy \<times> px_event list \<times> client_result) option" where
  "handleClientPacket e inp p pkt = (case Packet_ID pkt of
     None \<Rightarrow> Some (p, [], Forward)
   | Some i \<Rightarrow>
       if PType pkt = TypeInit then Some (p, [], Forward)
       else case reserve p i of
         Inl err \<Rightarrow> Some (p, [], EndSession err)
       | Inr p1 \<Rightarrow>
           (case decideClientPacket e inp p1 pkt i of
              None \<Rightarrow> None
            | Some (p2, evs, r) \<Rightarrow> Some (if r = Forward then p2 else release p2 i, evs, r)))"

text \<open>
  \<open>Write\<close>: the packets of one chunk, in order, until one ends the session. The results are the
  packets the machine got, the replies the person got and the error that ended the call.
\<close>

record write_result =
  wr_proxy :: sftpProxy
  wr_events :: "px_event list"
  wr_machine :: "byte list list"
  wr_human :: "byte list list"
  wr_err :: "px_error option"

fun write_packets :: "px_env \<Rightarrow> (nat \<Rightarrow> px_in) \<Rightarrow> sftpProxy \<Rightarrow> packet list \<Rightarrow> write_result option" where
  "write_packets e ins p [] = Some \<lparr>wr_proxy = p, wr_events = [], wr_machine = [], wr_human = [], wr_err = None\<rparr>"
| "write_packets e ins p (pkt # pkts) = (case handleClientPacket e (ins 0) p pkt of
     None \<Rightarrow> None
   | Some (p', evs, EndSession err) \<Rightarrow>
       Some \<lparr>wr_proxy = p', wr_events = evs, wr_machine = [], wr_human = [], wr_err = Some err\<rparr>
   | Some (p', evs, Answer reply) \<Rightarrow>
       if in_human_gone (ins 0)
       then Some \<lparr>wr_proxy = p', wr_events = evs, wr_machine = [], wr_human = [], wr_err = Some ClosedPipe\<rparr>
       else map_option (\<lambda>r. r\<lparr>wr_events := evs @ wr_events r, wr_human := reply # wr_human r\<rparr>)
              (write_packets e (ins \<circ> Suc) p' pkts)
   | Some (p', evs, Forward) \<Rightarrow>
       if in_target_err (ins 0)
       then Some \<lparr>wr_proxy = p', wr_events = evs, wr_machine = [], wr_human = [], wr_err = Some TargetError\<rparr>
       else map_option (\<lambda>r. r\<lparr>wr_events := evs @ wr_events r, wr_machine := Raw pkt # wr_machine r\<rparr>)
              (write_packets e (ins \<circ> Suc) p' pkts))"

definition Write :: "px_env \<Rightarrow> (nat \<Rightarrow> px_in) \<Rightarrow> sftpProxy \<Rightarrow> byte list \<Rightarrow> byte list \<Rightarrow> (write_result \<times> byte list) option" where
  "Write e ins p buf b = (case Feed buf b of (packets, err, buf') \<Rightarrow>
     (case write_packets e ins p packets of
        None \<Rightarrow> None
      | Some r \<Rightarrow> Some (if wr_err r = None then r\<lparr>wr_err := map_option Framing err\<rparr> else r, buf')))"

section \<open>Answers from the machine\<close>

definition finishOp :: "px_in \<Rightarrow> sftpProxy \<Rightarrow> sftpPending \<Rightarrow> status_response \<Rightarrow> sftpProxy \<times> px_event list \<times> px_error option" where
  "finishOp inp p pend status =
    (let outcome = (if sr_code status \<noteq> StatusOK
                    then ''status '' @ FormatUint (unat (sr_code status)) @ '': '' @ sr_message status else ''ok'');
         op = pe_op pend
     in if op = OpOpen then
          (p, journalFile inp ''open''
             (if Mutating \<lparr>or_path = '''', or_pflags = pe_pflags pend\<rparr> then ''upload'' else ''download'')
             (pe_path pend) '''' (- 1) '''' outcome)
        else if op = OpClose then
          (case gm_get (px_handles p) (pe_handle pend) of
             None \<Rightarrow> (p, [], None)
           | Some h \<Rightarrow>
               (p\<lparr>px_handles := gm_del (pe_handle pend) (px_handles p)\<rparr>,
                journalFile inp ''open'' (h_direction h) (h_path h) ''''
                  (if h_copied h then - 1 else sint (h_size h)) (sha h) outcome))
        else if op = OpCopy then
          (let p' = (case gm_get (px_handles p) (pe_handle pend) of
                 Some h \<Rightarrow>
                   if sr_code status = StatusOK
                   then p\<lparr>px_handles := gm_put (pe_handle pend) (h\<lparr>h_copied := True, h_direction := ''upload''\<rparr>) (px_handles p)\<rparr>
                   else p
               | None \<Rightarrow> p);
               requested = (if pe_copyLength pend > 0 then FormatUint (unat (pe_copyLength pend)) @ '' bytes''
                            else ''to the end of the source'')
           in (p', journalFileWith inp \<lparr>fe_op = ''copy'', fe_direction = '''', fe_path = pe_path pend,
                 fe_newPath = pe_newPath pend, fe_size = - 1, fe_sha256 = '''', fe_outcome = outcome\<rparr> (Some requested)))
        else if op = OpExtension then
          (p, journalFile inp ''extension'' '''' (pe_path pend) '''' (- 1) '''' outcome)
        else if op \<in> {OpRemove, OpRmdir, OpMkdir, OpSetstat, OpFsetstat} then
          (p, journalFile inp (op_name op) '''' (pe_path pend) '''' (- 1) '''' outcome)
        else if op \<in> {OpRename, OpHardlink, OpSymlink} then
          (p, journalFile inp (op_name op) '''' (pe_path pend) (pe_newPath pend) (- 1) '''' outcome)
        else (p, [], None))"

definition handleServerPacket :: "px_in \<Rightarrow> sftpProxy \<Rightarrow> packet \<Rightarrow> sftpProxy \<times> px_event list \<times> px_error option" where
  "handleServerPacket inp p pkt = (case Packet_ID pkt of
     None \<Rightarrow> (p, [], None)
   | Some i \<Rightarrow>
       if PType pkt = TypeVersion then (p, [], None)
       else case gm_get (px_pending p) i of
         None \<Rightarrow> (p, [], None)
       | Some pend \<Rightarrow>
           (let p1 = p\<lparr>px_pending := gm_del i (px_pending p)\<rparr>; t = PType pkt in
            if t = TypeHandle then
              (if pe_op pend \<noteq> OpOpen then (p1, [], None)
               else case ParseHandleResponse (Packet_Data pkt) of
                 None \<Rightarrow> (p1, [], None)
               | Some h \<Rightarrow> (p1\<lparr>px_handles := gm_put h (newSFTPHandle (pe_path pend) (pe_pflags pend)) (px_handles p1)\<rparr>, [], None))
            else if t = TypeData then
              (if pe_op pend \<noteq> OpRead then (p1, [], None)
               else case ParseDataResponse (Packet_Data pkt) of
                 None \<Rightarrow> (p1, [], None)
               | Some d \<Rightarrow>
                   (case gm_get (px_handles p1) (pe_handle pend) of
                      Some h \<Rightarrow> (p1\<lparr>px_handles := gm_put (pe_handle pend) (observe h ''download'' (pe_offset pend) d) (px_handles p1)\<rparr>, [], None)
                    | None \<Rightarrow> (p1, [], None)))
            else if t = TypeStatus then
              (case ParseStatus (Packet_Data pkt) of
                 None \<Rightarrow> (p1, [], None)
               | Some status \<Rightarrow> finishOp inp p1 pend status)
            else if t = TypeExtendedReply then
              (if pe_extended pend then finishOp inp p1 pend \<lparr>sr_code = StatusOK, sr_message = ''''\<rparr> else (p1, [], None))
            else (p1, [], None)))"

text \<open>
  One turn of \<open>pump\<close>: the packets of one read of the machine, each observed and then handed on
  whole, until one fails or the person's side is gone. The result is what the person got.
\<close>

fun pump_packets :: "(nat \<Rightarrow> px_in) \<Rightarrow> sftpProxy \<Rightarrow> packet list \<Rightarrow> sftpProxy \<times> px_event list \<times> byte list list \<times> px_error option" where
  "pump_packets ins p [] = (p, [], [], None)"
| "pump_packets ins p (pkt # pkts) = (case handleServerPacket (ins 0) p pkt of
     (p', evs, Some err) \<Rightarrow> (p', evs, [], Some err)
   | (p', evs, None) \<Rightarrow>
       if in_human_gone (ins 0) then (p', evs, [], Some ClosedPipe)
       else (case pump_packets (ins \<circ> Suc) p' pkts of
               (p2, evs2, out, err) \<Rightarrow> (p2, evs @ evs2, Raw pkt # out, err)))"

definition pump_read ::
  "(nat \<Rightarrow> px_in) \<Rightarrow> sftpProxy \<Rightarrow> byte list \<Rightarrow> byte list \<Rightarrow> bool \<Rightarrow>
     sftpProxy \<times> byte list \<times> px_event list \<times> byte list list \<times> px_error option" where
  "pump_read ins p buf b eof = (case Feed buf b of (packets, ferr, buf') \<Rightarrow>
     (case pump_packets ins p packets of
        (p', evs, out, Some err) \<Rightarrow> (p', buf', evs, out, Some err)
      | (p', evs, out, None) \<Rightarrow>
          (case ferr of
             Some e \<Rightarrow> (p', buf', evs, out, Some (Framing e))
           | None \<Rightarrow>
               if eof \<and> Pending buf' \<noteq> [] then (p', [], evs, out @ [Pending buf'], None)
               else (p', buf', evs, out, None))))"

text \<open>
  \<open>Read\<close> hands out a packet in pieces of the caller's buffer size; the rest of a packet goes before
  the next one.
\<close>

definition stream_Read :: "nat \<Rightarrow> byte list \<Rightarrow> byte list list \<Rightarrow> byte list \<times> byte list \<times> byte list list" where
  "stream_Read n readRest toHuman =
    (if readRest \<noteq> [] then (take n readRest, drop n readRest, toHuman)
     else case toHuman of
       [] \<Rightarrow> ([], [], [])
     | pkt # queue \<Rightarrow> (take n pkt, drop n pkt, queue))"

definition finish :: "px_in \<Rightarrow> sftpProxy \<Rightarrow> sftpProxy \<times> px_event list" where
  "finish inp p = (p\<lparr>px_handles := []\<rparr>,
     concat (map (\<lambda>(k, h). fst (journalFile inp ''open'' (h_direction h) (h_path h) '''' (sint (h_size h)) (sha h)
       ''not closed: the session ended'')) (px_handles p)))"

section \<open>Transfers\<close>

text \<open>
  The chunks of a transfer are in sequence when each starts where the ones before end, all in one
  direction.
\<close>

fun in_sequence :: "64 word \<Rightarrow> string \<Rightarrow> (string \<times> 64 word \<times> byte list) list \<Rightarrow> bool" where
  "in_sequence off dir [] \<longleftrightarrow> True"
| "in_sequence off dir ((d, o', bs) # cs) \<longleftrightarrow> d = dir \<and> o' = off \<and> in_sequence (off + of_nat (length bs)) dir cs"

definition observe_all :: "sftpHandle \<Rightarrow> (string \<times> 64 word \<times> byte list) list \<Rightarrow> sftpHandle" where
  "observe_all h cs = fold (\<lambda>(d, off, bs) h. observe h d off bs) cs h"

definition chunk_bytes :: "(string \<times> 64 word \<times> byte list) list \<Rightarrow> byte list" where
  "chunk_bytes cs = concat (map (snd \<circ> snd) cs)"

lemma first_move_fields [simp]:
  "h_copied (first_move h d) = h_copied h" "h_path (first_move h d) = h_path h" "h_moved (first_move h d)"
  "h_direction (first_move h d) = (if h_moved h then h_direction h else d)"
  "h_sequential (first_move h d) = h_sequential h" "h_hashed (first_move h d) = h_hashed h"
  "h_nextOffset (first_move h d) = h_nextOffset h" "h_size (first_move h d) = h_size h"
  by (simp_all add: first_move_def)

lemma grow_size_fields [simp]:
  "h_copied (grow_size h e) = h_copied h" "h_path (grow_size h e) = h_path h" "h_moved (grow_size h e) = h_moved h"
  "h_direction (grow_size h e) = h_direction h" "h_sequential (grow_size h e) = h_sequential h"
  "h_hashed (grow_size h e) = h_hashed h" "h_nextOffset (grow_size h e) = h_nextOffset h"
  "h_size (grow_size h e) = (if sint e > sint (h_size h) then e else h_size h)"
  by (simp_all add: grow_size_def)

text \<open>The fields of an observed handle, one by one.\<close>

lemma observe_fields:
  "h_copied (observe h d off bs) = h_copied h" "h_path (observe h d off bs) = h_path h"
  "h_moved (observe h d off bs)"
  "h_direction (observe h d off bs) = (if h_moved h then h_direction h else d)"
  "h_sequential (observe h d off bs) \<longleftrightarrow>
     h_sequential h \<and> off = h_nextOffset h \<and> (h_moved h \<longrightarrow> d = h_direction h)"
  "h_sequential (observe h d off bs) \<Longrightarrow> h_hashed (observe h d off bs) = h_hashed h @ bs"
  "h_sequential (observe h d off bs) \<Longrightarrow> h_nextOffset (observe h d off bs) = off + of_nat (length bs)"
  "h_size (observe h d off bs) =
     (if sint (off + of_nat (length bs)) > sint (h_size h) then off + of_nat (length bs) else h_size h)"
  by (auto simp: observe_def Let_def)

lemma observe_all_simps:
  "observe_all h [] = h" "observe_all h ((d, off, bs) # cs) = observe_all (observe h d off bs) cs"
  by (simp_all only: observe_all_def fold_simps comp_apply prod.case id_apply)

lemma observe_all_nonseq: "\<not> h_sequential h \<Longrightarrow> \<not> h_sequential (observe_all h cs)"
  by (induction cs arbitrary: h) (simp_all add: observe_all_simps observe_fields(5) split_paired_all)

lemma observe_all_copied [simp]: "h_copied (observe_all h cs) = h_copied h"
  by (induction cs arbitrary: h) (simp_all add: observe_all_simps observe_fields(1) split_paired_all)

lemma observe_all_moved:
  assumes "h_sequential h" "h_moved h"
  shows "h_sequential (observe_all h cs) \<longleftrightarrow> in_sequence (h_nextOffset h) (h_direction h) cs"
      (is ?seq)
    and "in_sequence (h_nextOffset h) (h_direction h) cs \<Longrightarrow> h_hashed (observe_all h cs) = h_hashed h @ chunk_bytes cs"
proof -
  have "?seq \<and> (in_sequence (h_nextOffset h) (h_direction h) cs \<longrightarrow> h_hashed (observe_all h cs) = h_hashed h @ chunk_bytes cs)"
    using assms
  proof (induction cs arbitrary: h)
    case (Cons c cs)
    obtain d off bs where c: "c = (d, off, bs)" by (cases c)
    show ?case
    proof (cases "h_sequential (observe h d off bs)")
      case True
      with Cons.prems Cons.IH [of "observe h d off bs"] show ?thesis
        using observe_fields(6,7) [OF True] observe_fields(3,4,5) [of h d off bs]
        by (simp add: observe_all_simps c chunk_bytes_def)
    next
      case False
      with observe_all_nonseq [OF False] Cons.prems show ?thesis
        by (auto simp: observe_all_simps c observe_fields(5))
    qed
  qed (simp add: observe_all_simps chunk_bytes_def)
  then show ?seq
    and "in_sequence (h_nextOffset h) (h_direction h) cs \<Longrightarrow> h_hashed (observe_all h cs) = h_hashed h @ chunk_bytes cs"
    by blast+
qed

lemma Max_insert_max: "finite S \<Longrightarrow> Max (insert (max a b) S) = Max (insert b (insert a S))" for a :: int
  by (cases "S = {}") (simp_all add: max.commute max.left_commute)

lemma chunk_end_max:
  "sint (h_size (observe_all h cs)) =
     Max (insert (sint (h_size h)) (set (map (\<lambda>(d, off, bs). sint (off + of_nat (length bs))) cs)))"
proof (induction cs arbitrary: h)
  case (Cons c cs)
  obtain d off bs where c: "c = (d, off, bs)" by (cases c)
  let ?e = "sint (off + of_nat (length bs) :: 64 word)"
  have "sint (h_size (observe h d off bs)) = max ?e (sint (h_size h))"
    unfolding observe_fields(8) by (simp only: max_def if_distrib [of sint]) auto
  then show ?case
    unfolding c observe_all_simps Cons.IH list.map set_simps prod.case
    by (simp only: Max_insert_max [OF finite_set])
qed (simp add: observe_all_simps)

text \<open>
  The digest and the size a transfer is journalled with. For any chunks observed on a new handle, in
  any order and direction: the digest is the SHA-256 of exactly the bytes that moved, in order, if the
  chunks follow each other from offset 0 in one direction, and otherwise it is the word
  \<open>non-sequential\<close>, never the hash of a part; the size is the furthest end of a chunk, read as the
  signed 64-bit number the program keeps.
\<close>

theorem transfer_digest_and_size:
  "sha (observe_all (newSFTPHandle path fl) cs) =
     (if in_sequence 0 (case cs of [] \<Rightarrow> '''' | (d, off, bs) # _ \<Rightarrow> d) cs
      then hex_encode (sha256 (chunk_bytes cs)) else ''non-sequential'') \<and>
   sint (h_size (observe_all (newSFTPHandle path fl) cs)) =
     Max (insert 0 (set (map (\<lambda>(d, off, bs). sint (off + of_nat (length bs))) cs)))"
proof
  show "sint (h_size (observe_all (newSFTPHandle path fl) cs)) =
     Max (insert 0 (set (map (\<lambda>(d, off, bs). sint (off + of_nat (length bs))) cs)))"
    by (subst chunk_end_max) (simp add: newSFTPHandle_def)
  show "sha (observe_all (newSFTPHandle path fl) cs) =
     (if in_sequence 0 (case cs of [] \<Rightarrow> '''' | (d, off, bs) # _ \<Rightarrow> d) cs
      then hex_encode (sha256 (chunk_bytes cs)) else ''non-sequential'')"
  proof (cases cs)
    case Nil
    then show ?thesis by (simp add: observe_all_simps sha_def newSFTPHandle_def chunk_bytes_def)
  next
    case (Cons c cs')
    obtain d off bs where c: "c = (d, off, bs)" by (cases c)
    let ?n = "newSFTPHandle path fl"
    have n: "h_sequential ?n" "\<not> h_moved ?n" "h_nextOffset ?n = 0" "h_hashed ?n = []" "\<not> h_copied ?n"
      by (simp_all add: newSFTPHandle_def)
    show ?thesis
    proof (cases "off = 0")
      case True
      then have s: "h_sequential (observe ?n d off bs)" using n by (simp add: observe_fields(5))
      note o = observe_fields(6,7) [OF s] observe_fields(1,3,4) [of ?n d off bs]
      show ?thesis
        using observe_all_moved [OF s o(4), of cs'] o n True
        by (simp add: Cons c observe_all_simps sha_def chunk_bytes_def)
    next
      case False
      then have "\<not> h_sequential (observe ?n d off bs)" using n by (simp add: observe_fields(5))
      from observe_all_nonseq [OF this] False n show ?thesis
        by (simp add: Cons c observe_all_simps sha_def observe_fields(1))
    qed
  qed
qed

section \<open>What reaches the machine\<close>

text \<open>
  The requests that can change the machine, from the protocol: by packet type, an OPEN by its flags, an
  extended request by its name. One that does not parse counts as changing.
\<close>

definition mutates :: "packet \<Rightarrow> bool" where
  "mutates pkt \<longleftrightarrow>
     PType pkt \<in> {TypeRemove, TypeRmdir, TypeSetstat, TypeMkdir, TypeFsetstat, TypeRename, TypeSymlink} \<or>
     PType pkt = TypeOpen \<and> (case ParseOpen (Packet_Data pkt) of
        None \<Rightarrow> True | Some req \<Rightarrow> or_pflags req AND 0x1E \<noteq> 0) \<or>
     PType pkt = TypeExtended \<and> (case ParseExtended (Packet_Data pkt) of
        None \<Rightarrow> True | Some (name, rest) \<Rightarrow> name \<notin> set readonly_extensions)"

text \<open>The sentence that describes an operation, from what will be journalled about it.\<close>

definition describe :: "sftpPending \<Rightarrow> string" where
  "describe pend = ''sftp: '' @ (case pe_op pend of
      OpOpen \<Rightarrow> ''write '' @ pe_path pend
    | OpFsetstat \<Rightarrow> ''setstat '' @ pe_path pend
    | OpSymlink \<Rightarrow> ''symlink '' @ pe_path pend @ '' '' @ pe_newPath pend
    | op \<Rightarrow> if op \<in> {OpRename, OpHardlink, OpCopy}
            then op_name op @ '' '' @ pe_path pend @ '' -> '' @ pe_newPath pend
            else op_name op @ '' '' @ pe_path pend)"

lemma Mutating_flags: "Mutating req \<longleftrightarrow> or_pflags req AND 0x1E \<noteq> 0"
proof -
  have "FlagWrite OR FlagCreat OR FlagTrunc OR FlagAppend = (0x1E :: 32 word)"
    by (simp add: FlagWrite_def FlagCreat_def FlagTrunc_def FlagAppend_def)
  then show ?thesis by (simp only: Mutating_def)
qed

lemma pend0_fields [simp]:
  "pe_op (pend0 op) = op" "pe_path (pend0 op) = ''''" "pe_newPath (pend0 op) = ''''"
  by (simp_all add: pend0_def)

lemma extended_not_forwarded:
  assumes "switch_extended p data = Forwarded p'"
  shows "p' = p \<and> (\<exists>name rest. ParseExtended data = Some (name, rest) \<and> name \<in> set readonly_extensions)"
proof (cases "ParseExtended data")
  case (Some x)
  obtain name rest where x: "x = (name, rest)" by (cases x)
  have "name \<in> set readonly_extensions \<and> p' = p"
  proof (rule ccontr)
    assume n: "\<not> (name \<in> set readonly_extensions \<and> p' = p)"
    consider "name = ext_posix_rename \<or> name = ext_hardlink" | "name = ext_lsetstat" | "name = ext_copy_data"
      | "name \<notin> {ext_posix_rename, ext_hardlink, ext_lsetstat, ext_copy_data}" by blast
    then show False
    proof cases
    qed (use assms n in \<open>simp_all add: switch_extended_def Some x Let_def split: option.splits prod.splits if_splits\<close>)
  qed
  with Some x show ?thesis by blast
qed (use assms in \<open>simp add: switch_extended_def\<close>)

lemma extended_described:
  assumes "switch_extended p data = ToJudge pend action"
  shows "action = describe pend"
proof (cases "ParseExtended data")
  case (Some x)
  obtain name rest where x: "x = (name, rest)" by (cases x)
  consider "name = ext_posix_rename \<or> name = ext_hardlink" | "name \<notin> {ext_posix_rename, ext_hardlink}" "name = ext_lsetstat"
    | "name \<notin> {ext_posix_rename, ext_hardlink, ext_lsetstat}" "name = ext_copy_data"
    | "name \<notin> {ext_posix_rename, ext_hardlink, ext_lsetstat, ext_copy_data}" by blast
  then show ?thesis
    by cases (use assms in \<open>auto simp add: switch_extended_def Some x Let_def describe_def
        split: option.splits prod.splits if_splits\<close>)
qed (use assms in \<open>simp add: switch_extended_def\<close>)

text \<open>The ways through the switch.\<close>

lemma switch_cases:
  obtains (open') "PType pkt = TypeOpen" "decide_switch p pkt i = switch_open p (Packet_Data pkt) i"
  | (close') "\<not> mutates pkt" "decide_switch p pkt i = switch_close p (Packet_Data pkt) i"
  | (read') "\<not> mutates pkt" "decide_switch p pkt i = switch_read p (Packet_Data pkt) i"
  | (write') "\<not> mutates pkt" "decide_switch p pkt i = switch_write p (Packet_Data pkt)"
  | (path') "decide_switch p pkt i = switch_path (PType pkt) (Packet_Data pkt)"
  | (fsetstat') "decide_switch p pkt i = switch_fsetstat p (Packet_Data pkt)"
  | (rename') "decide_switch p pkt i = switch_rename (Packet_Data pkt)"
  | (symlink') "decide_switch p pkt i = switch_symlink (Packet_Data pkt)"
  | (extended') "PType pkt = TypeExtended" "decide_switch p pkt i = switch_extended p (Packet_Data pkt)"
  | (other') "\<not> mutates pkt" "decide_switch p pkt i = Forwarded p"
proof -
  let ?t = "PType pkt"
  consider "?t = TypeOpen" | "?t = TypeClose" | "?t = TypeRead" | "?t = TypeWrite"
    | "?t \<in> {TypeRemove, TypeRmdir, TypeSetstat, TypeMkdir}" | "?t = TypeFsetstat"
    | "?t = TypeRename" | "?t = TypeSymlink" | "?t = TypeExtended"
    | "?t \<notin> {TypeOpen, TypeClose, TypeRead, TypeWrite, TypeRemove, TypeRmdir, TypeSetstat, TypeMkdir,
        TypeFsetstat, TypeRename, TypeSymlink, TypeExtended}"
    by blast
  then show thesis
  proof cases
    case 1 then show ?thesis using open' by (simp add: decide_switch_def)
  next
    case 2 then show ?thesis using close' by (simp add: decide_switch_def mutates_def type_codes)
  next
    case 3 then show ?thesis using read' by (simp add: decide_switch_def mutates_def type_codes)
  next
    case 4 then show ?thesis using write' by (simp add: decide_switch_def mutates_def type_codes)
  next
    case 5
    then have "decide_switch p pkt i = switch_path ?t (Packet_Data pkt)"
      by (elim insertE) (simp_all add: decide_switch_def type_codes)
    then show ?thesis by (rule path')
  next
    case 6 then show ?thesis using fsetstat' by (simp add: decide_switch_def type_codes)
  next
    case 7 then show ?thesis using rename' by (simp add: decide_switch_def type_codes)
  next
    case 8 then show ?thesis using symlink' by (simp add: decide_switch_def type_codes)
  next
    case 9 then show ?thesis using extended' by (simp add: decide_switch_def type_codes)
  next
    case 10
    then have "decide_switch p pkt i = Forwarded p" "\<not> mutates pkt"
      by (simp_all add: decide_switch_def mutates_def)
    then show ?thesis using other' by blast
  qed
qed

lemmas switch_defs = switch_open_def switch_close_def switch_read_def switch_write_def switch_path_def
  switch_fsetstat_def switch_rename_def switch_symlink_def

lemma switch_described:
  assumes "decide_switch p pkt i = ToJudge pend action"
  shows "action = describe pend"
  by (rule switch_cases [of pkt p i])
    (use assms extended_described in \<open>auto simp: switch_defs Let_def describe_def path_op_def
       split: option.splits prod.splits if_splits\<close>)

lemma switch_not_forwarded:
  assumes "decide_switch p pkt i = Forwarded p'"
  shows "\<not> mutates pkt"
proof (rule switch_cases [of pkt p i])
  assume "PType pkt = TypeOpen" "decide_switch p pkt i = switch_open p (Packet_Data pkt) i"
  then show ?thesis using assms
    by (auto simp: switch_open_def Let_def mutates_def type_codes Mutating_flags split: option.splits if_splits)
next
  assume "PType pkt = TypeExtended" "decide_switch p pkt i = switch_extended p (Packet_Data pkt)"
  then show ?thesis using assms extended_not_forwarded [of p "Packet_Data pkt" p']
    by (auto simp: mutates_def type_codes)
qed (use assms in \<open>auto simp: switch_path_def switch_fsetstat_def switch_rename_def switch_symlink_def
    split: option.splits prod.splits\<close>)

lemma switch_keeps:
  assumes "decide_switch p pkt i = Forwarded p'"
  shows "px_gw p' = px_gw p \<and> px_history p' = px_history p \<and>
    (px_pending p' = px_pending p \<or> (\<exists>pend. px_pending p' = gm_put i pend (px_pending p)))"
proof (rule switch_cases [of pkt p i])
  assume "decide_switch p pkt i = switch_extended p (Packet_Data pkt)"
  then show ?thesis using assms extended_not_forwarded [of p "Packet_Data pkt" p'] by simp
qed (use assms in \<open>auto simp: switch_defs Let_def setPending_def split: option.splits prod.splits if_splits\<close>)

lemma reserved:
  assumes "reserve p i = Inr p1"
  shows "gm_get (px_pending p) i = None" "px_pending p1 = px_pending p @ [(i, pend0 OpOther)]"
    "px_gw p1 = px_gw p" "px_history p1 = px_history p" "px_handles p1 = px_handles p"
  using assms by (auto simp: reserve_def gm_put_fresh split: option.splits)

lemma judge_keeps:
  assumes "judge e inp p action = Some (p', evs, allow, message, outcome)"
  shows "px_pending p' = px_pending p \<and> px_handles p' = px_handles p"
  using assms by (auto simp: judge_def Let_def split: option.splits prod.splits)

lemma judge_allows:
  assumes "judge e inp p action = Some (p', evs, True, message, outcome)"
  shows "\<exists>revs d.
    judgeRisk (pv_judge e) (px_gw p) (in_draws inp) (in_now inp) (pv_session e) (pv_person e) (pv_machine e)
       action (pv_goal e) (px_history p) None = Some (px_gw p', revs, d) \<and> \<not> refused d \<and>
    set (map PxRisk revs) \<subseteq> set evs"
  using assms by (auto simp: judge_def Let_def split: option.splits prod.splits)

lemma forwarded_cases:
  assumes "handleClientPacket e inp p pkt = Some (p', evs, Forward)" "Packet_ID pkt = Some i" "PType pkt \<noteq> TypeInit"
  obtains p1 where "reserve p i = Inr p1" "decideClientPacket e inp p1 pkt i = Some (p', evs, Forward)"
  using assms by (auto simp: handleClientPacket_def split: sum.splits option.splits if_splits)

lemma decide_forward:
  assumes "decideClientPacket e inp p1 pkt i = Some (p', evs, Forward)"
  shows "decide_switch p1 pkt i = Forwarded p' \<or>
    (\<exists>pend action p2 message outcome. decide_switch p1 pkt i = ToJudge pend action \<and>
       judge e inp p1 action = Some (p2, evs, True, message, outcome) \<and> p' = setPending p2 i pend)"
  using assms
  by (auto simp: decideClientPacket_def split: switched.splits option.splits prod.splits if_splits)


lemma denied_outcome:
  assumes "judge e inp p action = Some (p', evs, False, message, outcome)"
  shows "\<exists>rest. outcome = ''denied:'' @ rest"
  using assms by (auto simp: judge_def Let_def split: option.splits prod.splits)

lemma journal_denied:
  "journalFile inp op dir path new sz dg (''denied:'' @ rest) = (jevs, None) \<Longrightarrow>
   \<exists>fe. jevs = [PxFile fe ''denied'' None None]"
  by (auto simp: journalFile_def journalFileWith_def Let_def)

lemma refused_answer:
  assumes "decideClientPacket e inp p1 pkt i = Some (p2, evs, Answer reply)"
  shows "(\<exists>text. reply = MarshalStatus i StatusBadMessage text \<and> evs = []) \<or>
    (\<exists>text fe. reply = MarshalStatus i StatusPermissionDenied text \<and> PxFile fe ''denied'' None None \<in> set evs)"
proof (cases "decide_switch p1 pkt i")
  case (ToJudge pend action)
  then have "\<exists>evs1 message outcome jevs. judge e inp p1 action = Some (p2, evs1, False, message, outcome) \<and>
      reply = MarshalStatus i StatusPermissionDenied message \<and> set jevs \<subseteq> set evs \<and>
      journalFile inp (op_name (pe_op pend)) (directionOf pend) (pe_path pend) (pe_newPath pend) (- 1) '''' outcome =
        (jevs, None)"
    using assms by (fastforce simp: decideClientPacket_def split: option.splits prod.splits if_splits)
  then obtain evs1 message outcome jevs where j: "judge e inp p1 action = Some (p2, evs1, False, message, outcome)"
    and reply: "reply = MarshalStatus i StatusPermissionDenied message" and jevs: "set jevs \<subseteq> set evs"
    and journal: "journalFile inp (op_name (pe_op pend)) (directionOf pend) (pe_path pend) (pe_newPath pend) (- 1) ''''
      outcome = (jevs, None)" by blast
  obtain rest where "outcome = ''denied:'' @ rest" using denied_outcome [OF j] by blast
  with journal_denied journal obtain fe where "jevs = [PxFile fe ''denied'' None None]" by blast
  with reply jevs show ?thesis by auto
qed (use assms in \<open>auto simp: decideClientPacket_def\<close>)

lemma sftp_refusal:
  assumes "handleClientPacket e inp p pkt = Some (p', evs, r)" "r \<noteq> Forward" "Packet_ID pkt = Some i"
  shows "px_pending p' = px_pending p \<and> px_handles p' = px_handles p \<and>
    (\<forall>reply. r = Answer reply \<longrightarrow>
       (\<exists>text. reply = MarshalStatus i StatusBadMessage text \<and> evs = []) \<or>
       (\<exists>text fe. reply = MarshalStatus i StatusPermissionDenied text \<and> PxFile fe ''denied'' None None \<in> set evs)) \<and>
    (gm_get (px_pending p) i \<noteq> None \<longrightarrow> r = EndSession (DuplicateID i) \<and> p' = p \<and> evs = [])"
proof (cases "reserve p i")
  case (Inl err)
  then show ?thesis using assms
    by (auto simp: handleClientPacket_def reserve_def split: option.splits if_splits)
next
  case (Inr p1)
  note res = reserved [OF Inr]
  have "PType pkt \<noteq> TypeInit" using assms by (auto simp: handleClientPacket_def)
  then obtain p2 where d: "decideClientPacket e inp p1 pkt i = Some (p2, evs, r)" and p': "p' = release p2 i"
    using assms Inr by (auto simp: handleClientPacket_def split: option.splits prod.splits if_splits)
  have keep: "px_pending p2 = px_pending p1" "px_handles p2 = px_handles p1"
    using d assms(2) judge_keeps
    by (fastforce simp: decideClientPacket_def split: switched.splits option.splits prod.splits if_splits)+
  have "gm_del i (px_pending p) = px_pending p" by (rule gm_del_id [OF res(1)])
  then have "px_pending p' = px_pending p" "px_handles p' = px_handles p"
    by (simp_all add: p' release_def keep res AList.delete_eq)
  moreover have "(\<exists>text. reply = MarshalStatus i StatusBadMessage text \<and> evs = []) \<or>
       (\<exists>text fe. reply = MarshalStatus i StatusPermissionDenied text \<and> PxFile fe ''denied'' None None \<in> set evs)"
    if "r = Answer reply" for reply
    using d refused_answer [of e inp p1 pkt i p2 evs reply] that by blast
  ultimately show ?thesis using res(1) by simp
qed

text \<open>
  A refusal is contained. A request the proxy does not forward leaves its tables of pending requests
  and open handles exactly as they were: its id is free again. If the session goes on, the
  person gets one STATUS packet with the request's own id, either BAD_MESSAGE for a request that does
  not parse or PERMISSION_DENIED, and then the refusal is in the journal as \<open>denied\<close>. An id that is still
  outstanding ends the session before anything is judged.
\<close>

theorem sftp_refusal_contained:
  assumes "handleClientPacket e inp p pkt = Some (p', evs, r)" "r \<noteq> Forward" "Packet_ID pkt = Some i"
  shows "px_pending p' = px_pending p \<and> px_handles p' = px_handles p \<and>
    (\<forall>reply. r = Answer reply \<longrightarrow>
       (\<exists>text. reply = MarshalStatus i StatusBadMessage text \<and> evs = []) \<or>
       (\<exists>text fe. reply = MarshalStatus i StatusPermissionDenied text \<and> PxFile fe ''denied'' None None \<in> set evs)) \<and>
    (gm_get (px_pending p) i \<noteq> None \<longrightarrow> r = EndSession (DuplicateID i) \<and> p' = p \<and> evs = [])"
  by (rule sftp_refusal [OF assms])

section \<open>Outstanding requests\<close>

text \<open>
  A session from outside: the proxy together with the ids of the requests the machine was sent and has
  not answered, in order. A client packet that is forwarded adds its id, a server packet removes the
  id it carries.
\<close>

definition tracked_id :: "byte \<Rightarrow> packet \<Rightarrow> 32 word option" where
  "tracked_id greeting pkt = (if PType pkt = greeting then None else Packet_ID pkt)"

inductive px_step :: "px_env \<Rightarrow> sftpProxy \<times> 32 word list \<Rightarrow> sftpProxy \<times> 32 word list \<Rightarrow> bool" for e where
  client: "handleClientPacket e inp p pkt = Some (p', evs, r) \<Longrightarrow>
    px_step e (p, outs) (p', if r = Forward then outs @ (case tracked_id TypeInit pkt of None \<Rightarrow> [] | Some i \<Rightarrow> [i]) else outs)"
| server: "handleServerPacket inp p pkt = (p', evs, err) \<Longrightarrow>
    px_step e (p, outs) (p', case tracked_id TypeVersion pkt of None \<Rightarrow> outs | Some i \<Rightarrow> remove1 i outs)"

inductive_cases px_stepE: "px_step e s t"

definition px_init :: "sftpProxy \<times> 32 word list \<Rightarrow> bool" where
  "px_init s \<longleftrightarrow> (\<exists>g hist. s = (newSFTPProxy g hist, []))"

definition px_inv :: "sftpProxy \<times> 32 word list \<Rightarrow> bool" where
  "px_inv s \<longleftrightarrow> gm_wf (px_pending (fst s)) \<and> distinct (snd s) \<and> set (snd s) = fst ` set (px_pending (fst s))"

lemma gm_keys: "gm_get m k = None \<longleftrightarrow> k \<notin> fst ` set m"
  by (rule map_of_eq_None_iff)

lemma keys_put: "fst ` set (gm_put k v m) = insert k (fst ` set m)"
  by (simp add: dom_update)

lemma keys_del: "fst ` set (gm_del k m) = fst ` set m - {k}"
  by (auto simp: AList.delete_eq)

lemma forward_pending:
  assumes "handleClientPacket e inp p pkt = Some (p', evs, Forward)" "tracked_id TypeInit pkt = Some i"
    "gm_wf (px_pending p)"
  shows "gm_get (px_pending p) i = None" "gm_wf (px_pending p')"
    "fst ` set (px_pending p') = insert i (fst ` set (px_pending p))"
proof -
  have id: "Packet_ID pkt = Some i" "PType pkt \<noteq> TypeInit"
    using assms(2) by (auto simp: tracked_id_def split: if_splits)
  obtain p1 where r: "reserve p i = Inr p1" and d: "decideClientPacket e inp p1 pkt i = Some (p', evs, Forward)"
    using forwarded_cases [OF assms(1) id] .
  note res = reserved [OF r]
  show "gm_get (px_pending p) i = None" by (rule res(1))
  have wf1: "gm_wf (px_pending p1)" and k1: "fst ` set (px_pending p1) = insert i (fst ` set (px_pending p))"
    using assms(3) res(1,2) by (auto simp: gm_wf_def gm_keys)
  have "px_pending p' = px_pending p1 \<or> (\<exists>pend. px_pending p' = gm_put i pend (px_pending p1))"
    using decide_forward [OF d] switch_keeps judge_keeps by (fastforce simp: setPending_def)
  then have "gm_wf (px_pending p') \<and> fst ` set (px_pending p') = insert i (fst ` set (px_pending p))"
    using wf1 k1 by (elim disjE exE) (simp_all add: keys_put)
  then show "gm_wf (px_pending p')" "fst ` set (px_pending p') = insert i (fst ` set (px_pending p))" by blast+
qed

lemma untracked_pending:
  assumes "handleClientPacket e inp p pkt = Some (p', evs, r)" "tracked_id TypeInit pkt = None"
  shows "p' = p"
  using assms by (auto simp: handleClientPacket_def tracked_id_def split: if_splits option.splits)

lemma finishOp_pending: "px_pending (fst (finishOp inp p pend st)) = px_pending p"
  by (simp add: finishOp_def Let_def split: option.split)

lemma server_pending:
  assumes "handleServerPacket inp p pkt = (p', evs, err)"
  shows "px_pending p' = (case tracked_id TypeVersion pkt of None \<Rightarrow> px_pending p | Some i \<Rightarrow> gm_del i (px_pending p))"
proof -
  have fin: "px_pending p' = px_pending p1" if "finishOp inp p1 pend st = (p', evs, err)" for p1 pend st
    using finishOp_pending [of inp p1 pend st] that by simp
  show ?thesis
    using assms
    by (auto simp: handleServerPacket_def tracked_id_def Let_def gm_del_id dest!: fin
        split: option.splits if_splits)
qed

interpretation px: inv_system px_init "px_step e" px_inv
proof unfold_locales
  fix s t :: "sftpProxy \<times> 32 word list"
  show "px_init s \<Longrightarrow> px_inv s" by (auto simp: px_init_def px_inv_def newSFTPProxy_def)
  assume inv: "px_inv s" and "px_step e s t"
  from this(2) show "px_inv t"
  proof (cases rule: px_step.cases)
    case (client inp p pkt p' evs r outs)
    show ?thesis
    proof (cases "tracked_id TypeInit pkt")
      case None
      with client untracked_pending [OF client(3) None] inv show ?thesis by (simp add: px_inv_def)
    next
      case (Some i)
      then have id: "Packet_ID pkt = Some i" by (auto simp: tracked_id_def split: if_splits)
      have wf: "gm_wf (px_pending p)" using inv client by (simp add: px_inv_def)
      show ?thesis
      proof (cases "r = Forward")
        case True
        with forward_pending [OF _ Some wf] client inv Some show ?thesis by (auto simp: px_inv_def gm_keys)
      next
        case False
        with sftp_refusal [OF client(3) False id] client inv show ?thesis by (simp add: px_inv_def)
      qed
    qed
  next
    case (server inp p pkt p' evs err outs)
    with server_pending [OF server(3)] inv show ?thesis
      by (auto simp: px_inv_def keys_del set_remove1_eq distinct_remove1 split: option.splits)
  qed
qed


section \<open>A whole write\<close>

lemma write_packets_accounts:
  "write_packets e ins p pkts = Some r \<Longrightarrow> wr_err r = None \<Longrightarrow>
   subseq (wr_machine r) (map Raw pkts) \<and> length (wr_machine r) + length (wr_human r) = length pkts"
proof (induction pkts arbitrary: ins p r)
  case (Cons pkt pkts)
  then obtain p' evs c where h: "handleClientPacket e (ins 0) p pkt = Some (p', evs, c)"
    by (auto split: option.splits)
  show ?case
  proof (cases c)
    case Forward
    with Cons.prems h obtain r' where "write_packets e (ins \<circ> Suc) p' pkts = Some r'"
        "r = r'\<lparr>wr_events := evs @ wr_events r', wr_machine := Raw pkt # wr_machine r'\<rparr>"
      by (auto split: if_splits)
    with Cons.IH Cons.prems(2) show ?thesis by fastforce
  next
    case (Answer reply)
    with Cons.prems h obtain r' where "write_packets e (ins \<circ> Suc) p' pkts = Some r'"
        "r = r'\<lparr>wr_events := evs @ wr_events r', wr_human := reply # wr_human r'\<rparr>"
      by (auto split: if_splits)
    with Cons.IH Cons.prems(2) show ?thesis by fastforce
  qed (use Cons.prems h in auto)
qed simp

text \<open>The packets of a write that mutate and reached the machine were each let through by the judge.\<close>

lemma write_packets_machine:
  "write_packets e ins p pkts = Some r \<Longrightarrow> raw \<in> set (wr_machine r) \<Longrightarrow>
   \<exists>pkt \<in> set pkts. raw = Raw pkt \<and> (\<exists>inp q q' evs. handleClientPacket e inp q pkt = Some (q', evs, Forward))"
proof (induction pkts arbitrary: ins p r)
  case (Cons pkt pkts)
  then obtain p' evs c where h: "handleClientPacket e (ins 0) p pkt = Some (p', evs, c)"
    by (auto split: option.splits)
  show ?case
  proof (cases c)
    case Forward
    with Cons.prems(1) h consider "wr_machine r = []" | r' where "write_packets e (ins \<circ> Suc) p' pkts = Some r'"
        "wr_machine r = Raw pkt # wr_machine r'"
      by (auto split: if_splits)
    then show ?thesis using Cons h Forward by cases fastforce+
  next
    case (Answer reply)
    with Cons.prems(1) h consider "wr_machine r = []" | r' where "write_packets e (ins \<circ> Suc) p' pkts = Some r'"
        "wr_machine r = wr_machine r'"
      by (auto split: if_splits)
    then show ?thesis using Cons by cases fastforce+
  next
    case (EndSession err)
    with Cons.prems h show ?thesis by auto
  qed
qed simp

text \<open>
  A write accounts for every byte. When \<open>Write\<close> returns without an error, the bytes it held and
  took are the packets it cut out followed by the bytes it still holds; the machine got a
  subsequence of those packets, whole and in order, and each of the others was answered with exactly
  one reply to the person.
\<close>

theorem sftp_write_accounts:
  assumes "Write e ins p buf b = Some (r, buf')" "wr_err r = None"
  shows "\<exists>pkts. concat (map Raw pkts) @ buf' = buf @ b \<and> subseq (wr_machine r) (map Raw pkts) \<and>
    length (wr_machine r) + length (wr_human r) = length pkts \<and>
    (\<forall>raw \<in> set (wr_machine r). \<exists>pkt \<in> set pkts. raw = Raw pkt \<and>
       (\<exists>inp q q' evs. handleClientPacket e inp q pkt = Some (q', evs, Forward)))"
proof -
  obtain pkts err where f: "Feed buf b = (pkts, err, buf')"
    using assms(1) by (auto simp: Write_def split: prod.splits option.splits)
  then obtain r' where w: "write_packets e ins p pkts = Some r'"
    and r: "wr_err r' = None" "wr_machine r = wr_machine r'" "wr_human r = wr_human r'"
    using assms by (auto simp: Write_def split: option.splits if_splits)
  have "concat (map Raw pkts) @ buf' = buf @ b"
    using feed_loop_lossless [of "buf @ b"] f by (auto simp: Feed_def)
  then show ?thesis
    using write_packets_accounts [OF w r(1)] write_packets_machine [OF w] r(2,3) by auto
qed

section \<open>An unclosed copy\<close>

text \<open>
  At a CLOSE the journal withholds the size of a file that \<open>copy-data\<close> wrote, because the copied bytes
  never crossed the gateway. \<open>finish\<close>, which journals the files still open when the session
  ends, does not: it claims the size the gateway has counted, 0 for a file that was only copied into.
\<close>

lemma unclosed_copy_claims_size:
  assumes "px_handles p = [(k, h)]" "h_copied h" "in_rec inp = (\<lambda>_. None)"
  shows "\<exists>fe r. snd (finish inp p) = [PxFile fe r None None] \<and> fe_size fe = sint (h_size h)"
    and "pe_op pend = OpClose \<Longrightarrow> pe_handle pend = k \<Longrightarrow>
      \<exists>fe r. fst (snd (finishOp inp p pend st)) = [PxFile fe r None None] \<and> fe_size fe = - 1"
  using assms by (simp_all add: finish_def finishOp_def Let_def journalFile_def journalFileWith_def)

section \<open>Concrete sessions\<close>

definition demo_px_env :: px_env where
  "demo_px_env = \<lparr>pv_judge = demo_env, pv_notice = (\<lambda>_. ''held''), pv_notices = False, pv_person = ''bob'',
     pv_machine = ''db1'', pv_session = ''s1'', pv_goal = ''''\<rparr>"

definition demo_in :: px_in where
  "demo_in = \<lparr>in_now = 5, in_draws = [Some [0, 1, 2, 3, 4, 5, 6, 7]], in_rec = (\<lambda>_. None), in_notice_err = None,
     in_human_gone = False, in_target_err = False\<rparr>"

text \<open>A REMOVE of \<open>a\<close> with the id 7.\<close>

definition demo_pkt :: packet where
  "demo_pkt = \<lparr>PayloadLen = 10, PType = 13, Raw = [0, 0, 0, 10, 13, 0, 0, 0, 7, 0, 0, 0, 1, 97]\<rparr>"

definition demo_px :: "RiskAction \<Rightarrow> sftpProxy" where
  "demo_px mode = newSFTPProxy (demo_gw0\<lparr>rg_cfg_mode := mode\<rparr>) []"

lemma demo_forwarded:
  "handleClientPacket demo_px_env demo_in (demo_px RiskActionWarn) demo_pkt =
     Some (fst (the (handleClientPacket demo_px_env demo_in (demo_px RiskActionWarn) demo_pkt)),
           fst (snd (the (handleClientPacket demo_px_env demo_in (demo_px RiskActionWarn) demo_pkt))), Forward)"
  "Packet_ID demo_pkt = Some 7" "mutates demo_pkt"
  by code_simp+


lemma demo_refused:
  "handleClientPacket demo_px_env demo_in (demo_px RiskActionBlock) demo_pkt =
     Some (fst (the (handleClientPacket demo_px_env demo_in (demo_px RiskActionBlock) demo_pkt)),
           fst (snd (the (handleClientPacket demo_px_env demo_in (demo_px RiskActionBlock) demo_pkt))),
           Answer (MarshalStatus 7 StatusPermissionDenied ''held''))"
  by code_simp

theorem sftp_refusal_contained_witness:
  "\<exists>p' evs. handleClientPacket demo_px_env demo_in (demo_px RiskActionBlock) demo_pkt =
       Some (p', evs, Answer (MarshalStatus 7 StatusPermissionDenied ''held'')) \<and>
     px_pending p' = [] \<and> px_handles p' = [] \<and> px_pending (demo_px RiskActionBlock) = []"
  using sftp_refusal_contained [OF demo_refused _ demo_forwarded(2)] demo_refused
  by (fastforce simp: demo_px_def newSFTPProxy_def)


theorem sftp_write_accounts_witness:
  "\<exists>r (pkts :: packet list). Write demo_px_env (\<lambda>_. demo_in) (demo_px RiskActionBlock) [] [0, 0, 0, 2, 4, 9, 0, 0] = Some (r, [0, 0]) \<and>
     wr_err r = None \<and> concat (map Raw pkts) @ [0, 0] = [0, 0, 0, 2, 4, 9, 0, 0] \<and>
     length (wr_machine r) + length (wr_human r) = length pkts"
proof -
  have "Feed [] [0, 0, 0, 2, 4, 9, 0, 0] =
      ([\<lparr>PayloadLen = 2, PType = 4, Raw = [0, 0, 0, 2, 4, 9]\<rparr>], None, [0, 0])"
    using feed_loop_packet [of "\<lparr>PayloadLen = 2, PType = 4, Raw = [0, 0, 0, 2, 4, 9]\<rparr>" "[0, 0]"]
    by (simp add: Feed_def wf_packet_def be_put32_def MaxPacketSize_def feed_loop_unfold [of "[0, 0]"])
  then obtain r where w: "Write demo_px_env (\<lambda>_. demo_in) (demo_px RiskActionBlock) [] [0, 0, 0, 2, 4, 9, 0, 0] = Some (r, [0, 0])"
      "wr_err r = None"
    by (simp add: Write_def handleClientPacket_def Packet_ID_def demo_in_def)
  obtain pkts :: "packet list" where "concat (map Raw pkts) @ [0, 0] = [] @ [0, 0, 0, 2, 4, 9, 0, 0]"
      "length (wr_machine r) + length (wr_human r) = length pkts"
    using sftp_write_accounts [OF w] by blast
  with w show ?thesis by (intro exI [of _ r] exI [of _ pkts]) simp
qed

end
