(* ===== verification/Journal.thy ===== *)
theory Journal
  imports Encoding
begin

text \<open>
  The event journal: \<open>internal/gateway/events/event.go\<close>, \<open>log.go\<close> and \<open>chain.go\<close>. A file is its
  bytes; the directory of the journal is a map from names to files. The outcome of every system call is an
  input of the operation that makes it, and a write that fails may leave a prefix of its bytes. The JSON
  codec of the standard library is a pair of arguments: \<open>enc\<close> (\<open>json.Marshal\<close> of an event) and \<open>head\<close> (what
  \<open>json.Unmarshal\<close> finds as \<open>prev_hash\<close>: not JSON, absent, or a string).
\<close>

section \<open>Events\<close>

record event =
  ev_Time :: instant
  ev_Type :: string
  ev_Actor :: string
  ev_Object :: string
  ev_Result :: string
  ev_Address :: string
  ev_Fingerprint :: string
  ev_Details :: "(string, string) gomap"
  ev_PrevHash :: string

definition EventAuthSuccess :: string where "EventAuthSuccess = ''auth.success''"
definition EventAuthFailure :: string where "EventAuthFailure = ''auth.failure''"
definition EventAuthHandshakeFailure :: string where "EventAuthHandshakeFailure = ''auth.handshake_failure''"
definition EventLogRotate :: string where "EventLogRotate = ''log.rotate''"

definition event_types :: "string list" where
  "event_types = [''admin.op'', EventAuthSuccess, EventAuthFailure, EventAuthHandshakeFailure,
     ''machine.connected'', ''machine.disconnected'', ''machine.rejected'', ''enrol.start'', ''enrol.verified'',
     ''enrol.failed'', ''door.open'', ''door.close'', ''door.sanitize'', ''session.start'', ''session.stop'',
     ''session.drop'', ''session.risk'', ''risk.approval'', ''hostkey.mismatch'', ''hostkey.rotate'', EventLogRotate,
     ''grant.revoke'', ''session.watch'', ''recording.export'', ''session.file'']"

definition IsValidEventType :: "string \<Rightarrow> bool" where
  "IsValidEventType t \<longleftrightarrow> t \<in> set event_types"

definition detail :: "(string, string) gomap \<Rightarrow> string \<Rightarrow> string" where
  "detail details key = (case gm_get details key of None \<Rightarrow> '''' | Some v \<Rightarrow> v)"

definition Validate :: "event \<Rightarrow> bool" where
  "Validate e =
    (if isZero (ev_Time e) then False
     else if \<not> IsValidEventType (ev_Type e) then False
     else if ev_Type e = EventAuthSuccess \<or> ev_Type e = EventAuthFailure then
       (let hasAddr = ev_Address e \<noteq> '''' \<or> detail (ev_Details e) ''address'' \<noteq> '''';
            hasFP = ev_Fingerprint e \<noteq> '''' \<or> detail (ev_Details e) ''fingerprint'' \<noteq> ''''
        in if \<not> hasAddr \<and> \<not> hasFP then False else if \<not> hasAddr then False else hasFP)
     else if ev_Type e = EventAuthHandshakeFailure then
       \<not> (ev_Address e = '''' \<and> detail (ev_Details e) ''address'' = '''')
     else True)"

record event_filter =
  fl_Since :: "instant option"
  fl_Until :: "instant option"
  fl_Types :: "string list"
  fl_Actor :: string
  fl_Object :: string
  fl_Result :: string

definition Matches :: "event_filter \<Rightarrow> event \<Rightarrow> bool" where
  "Matches f e =
    (if (case fl_Since f of Some s \<Rightarrow> ev_Time e < s | None \<Rightarrow> False) then False
     else if (case fl_Until f of Some u \<Rightarrow> ev_Time e > u | None \<Rightarrow> False) then False
     else if fl_Types f \<noteq> [] \<and> ev_Type e \<notin> set (fl_Types f) then False
     else if fl_Actor f \<noteq> '''' \<and> ev_Actor e \<noteq> fl_Actor f then False
     else if fl_Object f \<noteq> '''' \<and> ev_Object e \<noteq> fl_Object f then False
     else if fl_Result f \<noteq> '''' \<and> ev_Result e \<noteq> fl_Result f then False
     else True)"

section \<open>Names\<close>

definition DefaultLogFileName :: string where "DefaultLogFileName = ''events.jsonl''"

definition label_char :: "char \<Rightarrow> bool" where
  "label_char r \<longleftrightarrow> CHR ''0'' \<le> r \<and> r \<le> CHR ''9'' \<or> CHR ''a'' \<le> r \<and> r \<le> CHR ''z'' \<or>
     CHR ''A'' \<le> r \<and> r \<le> CHR ''Z'' \<or> r = CHR ''_'' \<or> r = CHR ''-''"

definition IsLogFileName :: "string \<Rightarrow> bool" where
  "IsLogFileName name =
    (if take 6 name \<noteq> ''events'' \<or> length name < 12 \<or> drop (length name - 6) name \<noteq> ''.jsonl'' then False
     else let label = take (length name - 12) (drop 6 name)
          in if label = '''' then True
             else if hd label \<noteq> CHR ''-'' \<or> length label = 1 then False
             else list_all label_char (tl label))"

text \<open>The journal's files in a directory, in the order they are read.\<close>

definition historyNames :: "(string, byte list) gomap \<Rightarrow> string list" where
  "historyNames dir = sort (filter IsLogFileName (map fst dir))"

section \<open>Lines\<close>

definition trim_right :: "byte list \<Rightarrow> byte list \<Rightarrow> byte list" where
  "trim_right cs s = rev (dropWhile (\<lambda>b. b \<in> set cs) (rev s))"

definition after_last :: "byte \<Rightarrow> byte list \<Rightarrow> byte list" where
  "after_last c s = rev (takeWhile (\<lambda>b. b \<noteq> c) (rev s))"

text \<open>
  Whether \<open>bytes.TrimSpace\<close> leaves nothing: every rune is white space, in ASCII or one of the
  encoded runes of \<open>unicode.IsSpace\<close>.
\<close>

fun blank_line :: "byte list \<Rightarrow> bool" where
  "blank_line [] = True"
| "blank_line (a # rest) =
    (if a \<in> {9, 10, 11, 12, 13, 32} then blank_line rest
     else case rest of
       [] \<Rightarrow> False
     | b # rest' \<Rightarrow>
         if a = 0xC2 \<and> b \<in> {0x85, 0xA0} then blank_line rest'
         else case rest' of
           [] \<Rightarrow> False
         | c # rest'' \<Rightarrow>
             if a = 0xE1 \<and> b = 0x9A \<and> c = 0x80 \<or>
                a = 0xE2 \<and> b = 0x80 \<and> (0x80 \<le> c \<and> c \<le> 0x8A \<or> c \<in> {0xA8, 0xA9, 0xAF}) \<or>
                a = 0xE2 \<and> b = 0x81 \<and> c = 0x9F \<or> a = 0xE3 \<and> b = 0x80 \<and> c = 0x80
             then blank_line rest'' else False)"

definition genesisHash :: string where "genesisHash = ''genesis''"

definition LineHash :: "byte list \<Rightarrow> string" where
  "LineHash line = ''sha256:'' @ hex_encode (sha256 (trim_right [13] line))"

text \<open>
  \<open>lastLine\<close>: the file is read backwards in blocks of 4096 bytes until the bytes read hold a whole
  last line.
\<close>

function last_line_loop :: "byte list \<Rightarrow> nat \<Rightarrow> byte list \<Rightarrow> byte list option" where
  "last_line_loop file pos tail =
    (if pos = 0 then None
     else let n = min 4096 pos; pos' = pos - n;
              tail' = take n (drop pos' file) @ tail;
              body = trim_right [13, 10, 9, 32] tail'
          in if body = [] then last_line_loop file pos' tail'
             else if 10 \<in> set body then Some (trim_right [13] (after_last 10 body))
             else if pos' = 0 then Some (trim_right [13] body)
             else last_line_loop file pos' tail')"
  by pat_completeness auto
termination by (relation "measure (\<lambda>(file, pos, tail). pos)") auto

declare last_line_loop.simps [simp del]

definition lastLine :: "byte list \<Rightarrow> byte list option \<times> bool" where
  "lastLine file = (if file = [] then (None, False) else (last_line_loop file (length file) [], last file \<noteq> 10))"

section \<open>Verification of the chain\<close>

datatype break_reason = StartsOver | FirstNamesMissing | WrongHash

record chain_report =
  rp_Files :: nat
  rp_Lines :: nat
  rp_Legacy :: nat
  rp_Chained :: nat
  rp_Unreadable :: nat
  rp_FirstUnreadable :: "(string \<times> nat) option"
  rp_UnreadableAtEnd :: bool
  rp_Unvouched :: nat
  rp_FirstUnvouched :: "(string \<times> nat) option"
  rp_Broken :: bool
  rp_Break :: "(string \<times> nat \<times> break_reason) option"

definition empty_report :: chain_report where
  "empty_report = \<lparr>rp_Files = 0, rp_Lines = 0, rp_Legacy = 0, rp_Chained = 0, rp_Unreadable = 0,
     rp_FirstUnreadable = None, rp_UnreadableAtEnd = False, rp_Unvouched = 0, rp_FirstUnvouched = None,
     rp_Broken = False, rp_Break = None\<rparr>"

definition Intact :: "chain_report \<Rightarrow> bool" where
  "Intact r \<longleftrightarrow> \<not> rp_Broken r \<and> rp_Unvouched r = 0 \<and> rp_Unreadable r = 0"

type_synonym head = "byte list \<Rightarrow> string option option"

record verifier =
  vf_rep :: chain_report
  vf_prev :: string
  vf_started :: bool
  vf_tail :: bool

definition verify_line :: "head \<Rightarrow> string \<Rightarrow> nat \<Rightarrow> bool \<Rightarrow> byte list \<Rightarrow> verifier \<Rightarrow> verifier" where
  "verify_line head name n at_eof raw v =
    (let line = trim_right [13, 10] raw; rep = vf_rep v in
     if blank_line line then v
     else
      (let rep = rep\<lparr>rp_Lines := rp_Lines rep + 1\<rparr>;
           v = (case head line of
              None \<Rightarrow>
                v\<lparr>vf_rep := rep\<lparr>rp_Unreadable := rp_Unreadable rep + 1,
                    rp_FirstUnreadable := (if rp_Unreadable rep = 0 then Some (name, n) else rp_FirstUnreadable rep),
                    rp_Legacy := rp_Legacy rep + (if vf_started v then 0 else 1)\<rparr>,
                  vf_tail := vf_tail v \<or> at_eof\<rparr>
            | Some None \<Rightarrow>
                v\<lparr>vf_rep := (if vf_started v
                    then rep\<lparr>rp_Unvouched := rp_Unvouched rep + 1,
                           rp_FirstUnvouched := (if rp_Unvouched rep = 0 then Some (name, n) else rp_FirstUnvouched rep)\<rparr>
                    else rep\<lparr>rp_Legacy := rp_Legacy rep + 1\<rparr>)\<rparr>
            | Some (Some h) \<Rightarrow>
                (let want = (if vf_prev v = '''' then genesisHash else vf_prev v);
                     rep = rep\<lparr>rp_Chained := rp_Chained rep + 1\<rparr>
                 in v\<lparr>vf_started := True,
                      vf_rep := (if h \<noteq> want \<and> \<not> rp_Broken rep
                        then rep\<lparr>rp_Broken := True,
                               rp_Break := Some (name, n, if h = genesisHash then StartsOver
                                 else if vf_prev v = '''' then FirstNamesMissing else WrongHash)\<rparr>
                        else rep)\<rparr>))
       in v\<lparr>vf_prev := LineHash line\<rparr>))"

text \<open>
  \<open>ReadBytes\<close> hands out the file piece by piece; the last piece comes with the end of the file.
\<close>

fun verify_lines :: "head \<Rightarrow> string \<Rightarrow> nat \<Rightarrow> byte list list \<Rightarrow> verifier \<Rightarrow> verifier" where
  "verify_lines head name n [] v = v"
| "verify_lines head name n (raw # raws) v =
     verify_lines head name (n + 1) raws (verify_line head name n (raws = []) raw v)"

definition verifyChainFile :: "head \<Rightarrow> string \<times> byte list \<Rightarrow> verifier \<Rightarrow> verifier" where
  "verifyChainFile head f v = verify_lines head (fst f) 1 (split_char 10 (snd f)) (v\<lparr>vf_tail := False\<rparr>)"

definition VerifyChain :: "head \<Rightarrow> (string, byte list) gomap \<Rightarrow> chain_report" where
  "VerifyChain head dir =
    (let files = map (\<lambda>n. (n, the (gm_get dir n))) (historyNames dir);
         v = fold (\<lambda>f v. verifyChainFile head f (v\<lparr>vf_rep := (vf_rep v)\<lparr>rp_Files := rp_Files (vf_rep v) + 1\<rparr>\<rparr>)) files
               \<lparr>vf_rep = empty_report, vf_prev = '''', vf_started = False, vf_tail = False\<rparr>;
         rep = vf_rep v
     in rep\<lparr>rp_UnreadableAtEnd := vf_tail v \<and> rp_Unreadable rep > 0\<rparr>)"

section \<open>The log\<close>

text \<open>
  The directory, whether the log holds an open file, and what it remembers of a rotation that lost it
  (\<open>lostWhy\<close>, \<open>lostArchive\<close>; empty strings when there is nothing to remember).
\<close>

record log =
  lg_dir :: "(string, byte list) gomap"
  lg_open :: bool
  lg_lostWhy :: string
  lg_lostArchive :: string

datatype log_error = LogClosed | NoFile | InvalidEvent | LockError | ReadError | SerializeError | WriteError
  | SyncError | CloseError | MkdirError | RenameError | OpenError | BadArchiveName | LinkError

text \<open>
  How one write goes: all bytes, or an error after a prefix of them. The write is what
  \<open>l.file.Write\<close> does to the current file; a failed \<open>Sync\<close> leaves the bytes.
\<close>

datatype write_io = WriteOk | WriteCut nat | WriteNoSync

record log_in =
  li_lock :: bool
  li_read :: bool
  li_nl :: write_io
  li_write :: write_io
  li_sync :: bool
  li_close :: bool
  li_mkdir :: bool
  li_rename :: bool
  li_reopen :: bool
  li_open :: bool
  li_now :: instant

type_synonym enc = "event \<Rightarrow> byte list option"

definition current :: "log \<Rightarrow> byte list" where
  "current l = (case gm_get (lg_dir l) DefaultLogFileName of None \<Rightarrow> [] | Some file \<Rightarrow> file)"

definition write_file :: "log \<Rightarrow> write_io \<Rightarrow> byte list \<Rightarrow> log \<times> bool" where
  "write_file l io raw =
    (let put = (\<lambda>bs. l\<lparr>lg_dir := gm_put DefaultLogFileName (current l @ bs) (lg_dir l)\<rparr>)
     in case io of
          WriteOk \<Rightarrow> (put raw, True)
        | WriteNoSync \<Rightarrow> (put raw, True)
        | WriteCut k \<Rightarrow> (put (take k raw), False))"

definition line_prev :: "byte list option \<Rightarrow> string" where
  "line_prev prior = (case prior of None \<Rightarrow> genesisHash | Some line \<Rightarrow> LineHash line)"

definition write_line :: "enc \<Rightarrow> log_in \<Rightarrow> log \<Rightarrow> event \<Rightarrow> string \<Rightarrow> log \<times> log_error option" where
  "write_line enc i l e prev = (case enc (e\<lparr>ev_PrevHash := prev\<rparr>) of
     None \<Rightarrow> (l, Some SerializeError)
   | Some raw \<Rightarrow>
       (case write_file l (li_write i) (raw @ [10]) of
          (l', False) \<Rightarrow> (l', Some WriteError)
        | (l', True) \<Rightarrow> (l', if li_write i = WriteNoSync then Some SyncError else None)))"

definition writeChainedLocked :: "enc \<Rightarrow> log_in \<Rightarrow> log \<Rightarrow> event \<Rightarrow> string \<Rightarrow> log \<times> log_error option" where
  "writeChainedLocked enc i l e prev =
    (if prev = '''' then
       (if \<not> li_read i then (l, Some ReadError)
        else case lastLine (current l) of (prior, torn) \<Rightarrow>
          (if torn then
             (case write_file l (li_nl i) [10] of
                (l', False) \<Rightarrow> (l', Some WriteError)
              | (l', True) \<Rightarrow> write_line enc i l' e (line_prev prior))
           else write_line enc i l e (line_prev prior)))
     else write_line enc i l e prev)"

definition rotate_event :: "instant \<Rightarrow> string \<Rightarrow> bool \<Rightarrow> event" where
  "rotate_event now archive recovered = \<lparr>ev_Time = now, ev_Type = EventLogRotate, ev_Actor = ''gateway'',
     ev_Object = DefaultLogFileName, ev_Result = ''ok'', ev_Address = '''', ev_Fingerprint = '''',
     ev_Details = (''archive'', archive) # (if recovered then [(''recovered'', ''true'')] else []), ev_PrevHash = ''''\<rparr>"

definition linkArchiveLocked :: "enc \<Rightarrow> log_in \<Rightarrow> log \<Rightarrow> log \<times> log_error option" where
  "linkArchiveLocked enc i l =
    (if \<not> li_lock i then (l, Some LockError)
     else if \<not> li_read i then (l, Some ReadError)
     else writeChainedLocked enc i l (rotate_event (li_now i) (lg_lostArchive l) True)
            (line_prev (case gm_get (lg_dir l) (lg_lostArchive l) of None \<Rightarrow> None | Some file \<Rightarrow> fst (lastLine file))))"

definition create_current :: "log \<Rightarrow> log" where
  "create_current l = l\<lparr>lg_dir := gm_put DefaultLogFileName (current l) (lg_dir l)\<rparr>"

definition reopenAfterRotationLocked :: "enc \<Rightarrow> log_in \<Rightarrow> log \<Rightarrow> log \<times> log_error option" where
  "reopenAfterRotationLocked enc i l =
    (if \<not> li_open i then (l, Some NoFile)
     else
      (let l1 = (create_current l)\<lparr>lg_open := True\<rparr>;
           clear = (\<lambda>l. l\<lparr>lg_lostWhy := '''', lg_lostArchive := ''''\<rparr>)
       in if lg_lostArchive l1 \<noteq> '''' \<and> current l1 = [] then
            (case linkArchiveLocked enc i l1 of
               (l2, Some err) \<Rightarrow> (l2, Some LinkError)
             | (l2, None) \<Rightarrow> (clear l2, None))
          else (clear l1, None)))"

definition append_open :: "enc \<Rightarrow> log_in \<Rightarrow> log \<Rightarrow> event \<Rightarrow> log \<times> log_error option" where
  "append_open enc i l e =
    (if \<not> Validate e then (l, Some InvalidEvent)
     else if \<not> li_lock i then (l, Some LockError)
     else writeChainedLocked enc i l e '''')"

text \<open>
  \<open>appendLocked\<close> of a chained log; a reopening makes system calls of its own, so it has inputs of its
  own.
\<close>

definition appendLocked :: "enc \<Rightarrow> log_in \<Rightarrow> log_in \<Rightarrow> log \<Rightarrow> event \<Rightarrow> log \<times> log_error option" where
  "appendLocked enc ri i l e =
    (if lg_open l then append_open enc i l e
     else if lg_lostWhy l = '''' then (l, Some LogClosed)
     else case reopenAfterRotationLocked enc ri l of
       (l', Some err) \<Rightarrow> (l', Some err)
     | (l', None) \<Rightarrow> append_open enc i l' e)"

definition Rotate :: "enc \<Rightarrow> log_in \<Rightarrow> log \<Rightarrow> string \<Rightarrow> log \<times> log_error option" where
  "Rotate enc i l archive =
    (if \<not> lg_open l then (l, Some LogClosed)
     else if \<not> IsLogFileName archive then (l, Some BadArchiveName)
     else if \<not> li_lock i then (l, Some LockError)
     else if \<not> li_read i then (l, Some ReadError)
     else
      (let prev = line_prev (fst (lastLine (current l))) in
       if \<not> li_sync i then (l, Some SyncError)
       else if \<not> li_close i then (l, Some CloseError)
       else
        (let l1 = l\<lparr>lg_open := False\<rparr> in
         if \<not> li_mkdir i then (l1, Some MkdirError)
         else if \<not> li_rename i then
           (if li_reopen i then (l1\<lparr>lg_open := True, lg_lostWhy := '''', lg_lostArchive := ''''\<rparr>, Some RenameError)
            else (l1\<lparr>lg_lostWhy := ''could not be rotated into '' @ archive\<rparr>, Some RenameError))
         else
          (let l2 = l1\<lparr>lg_dir := gm_put archive (current l1) (gm_del DefaultLogFileName (lg_dir l1))\<rparr> in
           if \<not> li_open i then
             (l2\<lparr>lg_lostWhy := ''was rotated to '' @ archive, lg_lostArchive := archive\<rparr>, Some OpenError)
           else
             writeChainedLocked enc i
               ((create_current l2)\<lparr>lg_open := True, lg_lostWhy := '''', lg_lostArchive := ''''\<rparr>)
               (rotate_event (li_now i) archive False) prev))))"

definition log_Close :: "log \<Rightarrow> log" where
  "log_Close l = l\<lparr>lg_open := False, lg_lostWhy := '''', lg_lostArchive := ''''\<rparr>"

definition repairTornTail :: "log \<Rightarrow> log_in \<Rightarrow> log \<times> log_error option" where
  "repairTornTail l i =
    (if current l = [] \<or> \<not> li_read i \<or> last (current l) = 10 then (l, None)
     else case write_file l (li_nl i) [10] of
       (l', ok) \<Rightarrow> (l', if ok \<and> li_nl i \<noteq> WriteNoSync then None else Some WriteError))"

definition OpenLog :: "(string, byte list) gomap \<Rightarrow> log_in \<Rightarrow> log \<times> log_error option" where
  "OpenLog dir i =
    (let l0 = \<lparr>lg_dir = dir, lg_open = False, lg_lostWhy = '''', lg_lostArchive = ''''\<rparr> in
     if \<not> li_mkdir i then (l0, Some MkdirError)
     else case repairTornTail l0 i of
       (l1, Some err) \<Rightarrow> (l1, Some err)
     | (l1, None) \<Rightarrow>
         if \<not> li_open i then (l1, Some OpenError) else ((create_current l1)\<lparr>lg_open := True\<rparr>, None))"

section \<open>Reading\<close>

text \<open>\<open>dec\<close> stands for \<open>json.Unmarshal\<close> of a line without its surrounding white space.\<close>

record read_stats =
  rs_Skipped :: nat
  rs_BadLines :: "nat list"

definition read_stats_Add :: "read_stats \<Rightarrow> read_stats \<Rightarrow> read_stats" where
  "read_stats_Add s other = \<lparr>rs_Skipped = rs_Skipped s + rs_Skipped other, rs_BadLines = rs_BadLines s @ rs_BadLines other\<rparr>"

fun read_lines :: "(byte list \<Rightarrow> event option) \<Rightarrow> event_filter \<Rightarrow> nat \<Rightarrow> byte list list \<Rightarrow> event list \<times> read_stats" where
  "read_lines dec f n [] = ([], \<lparr>rs_Skipped = 0, rs_BadLines = []\<rparr>)"
| "read_lines dec f n (raw # raws) =
    (case read_lines dec f (n + 1) raws of (evs, st) \<Rightarrow>
       if blank_line raw then (evs, st)
       else case dec raw of
         None \<Rightarrow> (evs, \<lparr>rs_Skipped = rs_Skipped st + 1, rs_BadLines = n # rs_BadLines st\<rparr>)
       | Some ev \<Rightarrow> (if Matches f ev then ev # evs else evs, st))"

definition readLogFile :: "(byte list \<Rightarrow> event option) \<Rightarrow> event_filter \<Rightarrow> byte list \<Rightarrow> event list \<times> read_stats" where
  "readLogFile dec f file = read_lines dec f 1 (split_char 10 file)"

fun ReadFiles :: "(byte list \<Rightarrow> event option) \<Rightarrow> event_filter \<Rightarrow> byte list list \<Rightarrow> event list \<times> read_stats" where
  "ReadFiles dec f [] = ([], \<lparr>rs_Skipped = 0, rs_BadLines = []\<rparr>)"
| "ReadFiles dec f (file # files) =
    (case (readLogFile dec f file, ReadFiles dec f files) of
       ((evs, st), (evs', st')) \<Rightarrow> (evs @ evs', read_stats_Add st st'))"

definition ReadHistory :: "(byte list \<Rightarrow> event option) \<Rightarrow> event_filter \<Rightarrow> (string, byte list) gomap \<Rightarrow> event list \<times> read_stats" where
  "ReadHistory dec f dir = ReadFiles dec f (map (\<lambda>n. the (gm_get dir n)) (historyNames dir))"

section \<open>Pieces, lines and the last line\<close>

lemma split_snoc:
  "split_char c (s @ [x]) = (if x = c then split_char c s @ [[]]
     else butlast (split_char c s) @ [last (split_char c s) @ [x]])"
  by (induction s) (auto split: list.splits)

lemma split_append:
  "split_char c (s @ t) = butlast (split_char c s) @ (last (split_char c s) @ hd (split_char c t)) # tl (split_char c t)"
proof (induction s)
  case (Cons x s)
  show ?case
  proof (cases "x = c")
    case False
    obtain p ps where "split_char c s = p # ps" by (cases "split_char c s") auto
    with Cons False show ?thesis by (cases ps) (auto split: list.splits)
  qed (use Cons in auto)
qed (cases "split_char c t"; simp)

lemma after_last_split: "after_last c s = last (split_char c s)"
  by (induction s rule: rev_induct) (auto simp: after_last_def split_snoc)

lemma trim_right_snoc: "trim_right cs (s @ [x]) = (if x \<in> set cs then trim_right cs s else s @ [x])"
  by (simp add: trim_right_def)

lemma trim_right_append:
  "trim_right cs (s @ t) = (if trim_right cs t = [] then trim_right cs s else s @ trim_right cs t)"
  by (induction t rule: rev_induct) (auto simp: trim_right_snoc trim_right_def simp flip: append_assoc)

lemma after_last_append: "c \<in> set t \<Longrightarrow> after_last c (s @ t) = after_last c t"
  by (induction t rule: rev_induct) (auto simp: after_last_def)

text \<open>The last line as a whole: what is left of the file without the white space behind it.\<close>

definition last_line_spec :: "byte list \<Rightarrow> byte list option" where
  "last_line_spec file =
    (let body = trim_right [13, 10, 9, 32] file
     in if body = [] then None else Some (trim_right [13] (after_last 10 body)))"

lemma last_line_loop_spec:
  "pos \<le> length file \<Longrightarrow> 10 \<notin> set (trim_right [13, 10, 9, 32] (drop pos file)) \<Longrightarrow>
   (pos = 0 \<Longrightarrow> trim_right [13, 10, 9, 32] file = []) \<Longrightarrow>
   last_line_loop file pos (drop pos file) = last_line_spec file"
proof (induction pos rule: less_induct)
  case (less pos)
  show ?case
  proof (cases "pos = 0")
    case True
    with less.prems(3) show ?thesis by (subst last_line_loop.simps) (simp add: last_line_spec_def)
  next
    case False
    define n p where "n = min 4096 pos" and "p = pos - n"
    let ?trim = "trim_right [13, 10, 9, 32]"
    let ?body = "?trim (drop p file)"
    have n: "n \<le> pos" "0 < n" using False by (simp_all add: n_def)
    then have p: "p < pos" "p \<le> length file" using less.prems(1) by (simp_all add: p_def)
    have "drop pos file = drop n (drop p file)" using n by (simp add: p_def)
    then have tail: "take n (drop p file) @ drop pos file = drop p file"
      by (simp only: append_take_drop_id)
    have whole: "?trim file = (if ?body = [] then ?trim (take p file) else take p file @ ?body)"
      using trim_right_append [of "[13, 10, 9, 32]" "take p file" "drop p file"] by (simp only: append_take_drop_id)
    have step: "last_line_loop file pos (drop pos file) =
        (if ?body = [] then last_line_loop file p (drop p file)
         else if 10 \<in> set ?body then Some (trim_right [13] (after_last 10 ?body))
         else if p = 0 then Some (trim_right [13] ?body) else last_line_loop file p (drop p file))"
      using False
      by (subst last_line_loop.simps) (simp only: Let_def n_def [symmetric] p_def [symmetric] tail if_False)
    note IH = less.IH [OF p]
    consider "?body = []" | "10 \<in> set ?body" | "?body \<noteq> []" "10 \<notin> set ?body" "p = 0"
      | "?body \<noteq> []" "10 \<notin> set ?body" "p \<noteq> 0" by blast
    then show ?thesis
    proof cases
      case 1
      have "p = 0 \<Longrightarrow> ?trim file = []" using whole 1 by (simp add: trim_right_def)
      with 1 IH step show ?thesis by simp
    next
      case 2
      then have "?body \<noteq> []" by auto
      with 2 step whole after_last_append [of 10 ?body "take p file"] show ?thesis
        by (simp add: last_line_spec_def Let_def)
    next
      case 3
      have "takeWhile (\<lambda>b. b \<noteq> 10) (rev ?body) = rev ?body" using 3(2) by (subst takeWhile_eq_all_conv) auto
      then have e: "after_last 10 ?body = ?body" by (simp only: after_last_def rev_rev_ident)
      have t: "?trim file = ?body" using 3(3) by simp
      show ?thesis unfolding step last_line_spec_def Let_def t e using 3 by (simp only: if_False if_True simp_thms)
    next
      case 4
      with IH step show ?thesis by simp
    qed
  qed
qed

lemma lastLine_spec: "lastLine file = (last_line_spec file, file \<noteq> [] \<and> last file \<noteq> 10)"
proof (cases "file = []")
  case False
  then show ?thesis using last_line_loop_spec [of "length file" "file"] by (simp add: lastLine_def trim_right_def)
qed (simp add: lastLine_def last_line_spec_def trim_right_def)

text \<open>
  The lines a reader of a file sees: the pieces between newlines without their carriage returns, blank
  ones left out. A file is neat when no piece ends in white space that one reader cuts and another
  keeps.
\<close>

definition file_lines :: "byte list \<Rightarrow> byte list list" where
  "file_lines file = filter (\<lambda>l. \<not> blank_line l) (map (trim_right [13, 10]) (split_char 10 file))"

definition neat_piece :: "byte list \<Rightarrow> bool" where
  "neat_piece p \<longleftrightarrow> p = [] \<or> last p \<notin> {9, 13, 32} \<and> \<not> blank_line p"

definition neat :: "byte list \<Rightarrow> bool" where
  "neat file \<longleftrightarrow> list_all neat_piece (split_char 10 file)"

lemma trim_right_neat: "10 \<notin> set p \<Longrightarrow> neat_piece p \<Longrightarrow> trim_right [13, 10] p = p"
  by (cases p rule: rev_cases) (auto simp: trim_right_snoc neat_piece_def trim_right_def)

lemma file_lines_neat: "neat file \<Longrightarrow> file_lines file = filter (\<lambda>p. p \<noteq> []) (split_char 10 file)"
proof -
  assume n: "neat file"
  have "map (trim_right [13, 10]) (split_char 10 file) = split_char 10 file"
    using n split_char_parts [of _ 10 "file"] trim_right_neat by (intro map_idI) (auto simp: neat_def list_all_iff)
  moreover have "\<And>p. p \<in> set (split_char 10 file) \<Longrightarrow> (\<not> blank_line p) = (p \<noteq> [])"
    using n by (auto simp: neat_def neat_piece_def list_all_iff)
  ultimately show ?thesis unfolding file_lines_def by (auto intro: filter_cong)
qed

lemma last_line_neat:
  "neat file \<Longrightarrow> last_line_spec file = (if file_lines file = [] then None else Some (last (file_lines file)))"
proof (induction "file" rule: rev_induct)
  case Nil
  show ?case by (simp add: last_line_spec_def trim_right_def file_lines_def)
next
  case (snoc x s)
  show ?case
  proof (cases "x = 10")
    case True
    have "neat s" using snoc.prems True by (simp add: neat_def split_snoc)
    with snoc True show ?thesis
      by (simp add: file_lines_neat split_snoc last_line_spec_def trim_right_snoc)
  next
    case False
    let ?q = "last (split_char 10 s) @ [x]"
    have split: "split_char 10 (s @ [x]) = butlast (split_char 10 s) @ [?q]" using False by (simp add: split_snoc)
    then have x: "x \<notin> {9, 13, 32}" using snoc.prems by (simp add: neat_def neat_piece_def)
    have "after_last 10 (s @ [x]) = ?q" using False by (simp add: after_last_split split)
    then have "last_line_spec (s @ [x]) = Some ?q"
      using x False by (simp add: last_line_spec_def trim_right_snoc)
    moreover have "file_lines (s @ [x]) = filter (\<lambda>p. p \<noteq> []) (butlast (split_char 10 s)) @ [?q]"
      using file_lines_neat [OF snoc.prems] split by simp
    ultimately show ?thesis by simp
  qed
qed

text \<open>Whole lines written behind a file that ends with a newline.\<close>

definition whole :: "byte list \<Rightarrow> bool" where
  "whole file \<longleftrightarrow> file = [] \<or> last file = 10"

lemma whole_split: "whole file \<longleftrightarrow> last (split_char 10 file) = []"
  by (cases "file" rule: rev_cases) (auto simp: whole_def split_snoc)

lemma split_whole:
  assumes "whole s"
  shows "split_char 10 (s @ t) = butlast (split_char 10 s) @ split_char 10 t"
    and "split_char 10 s = butlast (split_char 10 s) @ [[]]"
  using assms split_append [of 10 s t] append_butlast_last_id [of "split_char 10 s"]
  by (simp_all add: whole_split)

lemma neat_whole: "whole s \<Longrightarrow> neat (s @ t) \<longleftrightarrow> neat s \<and> neat t"
  using split_whole(1) [of s t] split_whole(2) [of s] unfolding neat_def
  by (metis list.pred_inject list_all_append neat_piece_def)

lemma lines_whole:
  assumes "whole s" "neat s" "neat t"
  shows "file_lines (s @ t) = file_lines s @ file_lines t"
proof -
  have "file_lines (s @ t) = filter (\<lambda>p. p \<noteq> []) (butlast (split_char 10 s)) @ file_lines t"
    using assms split_whole(1) [OF assms(1), of t] by (simp add: file_lines_neat neat_whole)
  also have "filter (\<lambda>p. p \<noteq> []) (butlast (split_char 10 s)) = filter (\<lambda>p. p \<noteq> []) (split_char 10 s)"
    by (subst (2) split_whole(2) [OF assms(1)]) simp
  finally show ?thesis by (simp add: file_lines_neat assms)
qed

lemma neat_newline: "neat s \<Longrightarrow> neat (s @ [10]) \<and> whole (s @ [10]) \<and> file_lines (s @ [10]) = file_lines s"
  by (simp add: neat_def whole_def split_snoc file_lines_def neat_piece_def trim_right_def)

lemma one_line:
  assumes "10 \<notin> set p" "neat_piece p" "p \<noteq> []"
  shows "neat p" "file_lines p = [p]" "neat (p @ [10])" "file_lines (p @ [10]) = [p]"
proof -
  have s: "split_char 10 p = [p]" by (rule split_char_none [OF assms(1)])
  with assms show "neat p" by (simp add: neat_def)
  moreover from this s assms(3) show "file_lines p = [p]" by (simp add: file_lines_neat)
  ultimately show "neat (p @ [10])" "file_lines (p @ [10]) = [p]" using neat_newline [of p] by simp_all
qed

section \<open>The verifier implements its specification\<close>

text \<open>
  What it means for a sequence of lines to hold together: every line after the first that carries
  \<open>prev_hash\<close> carries it too and names the line before; lines that are not JSON are tolerated or not
  (\<open>holes\<close>).
\<close>

fun links :: "head \<Rightarrow> bool \<Rightarrow> string \<Rightarrow> bool \<Rightarrow> byte list list \<Rightarrow> bool" where
  "links head holes prev started [] \<longleftrightarrow> True"
| "links head holes prev started (l # ls) \<longleftrightarrow> (case head l of
     None \<Rightarrow> holes \<and> links head holes (LineHash l) started ls
   | Some None \<Rightarrow> \<not> started \<and> links head holes (LineHash l) False ls
   | Some (Some h) \<Rightarrow> h = (if prev = '''' then genesisHash else prev) \<and> links head holes (LineHash l) True ls)"

definition chained :: "head \<Rightarrow> byte list \<Rightarrow> bool" where
  "chained head l \<longleftrightarrow> (case head l of Some (Some h) \<Rightarrow> True | _ \<Rightarrow> False)"

definition end_prev :: "string \<Rightarrow> byte list list \<Rightarrow> string" where
  "end_prev prev ls = (if ls = [] then prev else LineHash (last ls))"

lemma end_prev_simps [simp]:
  "end_prev prev [] = prev" "end_prev prev (l # ls) = end_prev (LineHash l) ls"
  by (simp_all add: end_prev_def)

lemma links_append:
  "links head holes prev started (ls @ ms) \<longleftrightarrow> links head holes prev started ls \<and>
     links head holes (end_prev prev ls) (started \<or> list_ex (chained head) ls) ms"
  by (induction ls arbitrary: prev started) (auto simp: chained_def split: option.splits)

definition good_so_far :: "bool \<Rightarrow> verifier \<Rightarrow> bool" where
  "good_so_far holes v \<longleftrightarrow> \<not> rp_Broken (vf_rep v) \<and> rp_Unvouched (vf_rep v) = 0 \<and>
     (holes \<or> rp_Unreadable (vf_rep v) = 0)"

definition seen :: "head \<Rightarrow> bool \<Rightarrow> verifier \<Rightarrow> byte list list \<Rightarrow> verifier \<Rightarrow> bool" where
  "seen head holes v ls v' \<longleftrightarrow>
     (good_so_far holes v' \<longleftrightarrow> good_so_far holes v \<and> links head holes (vf_prev v) (vf_started v) ls) \<and>
     vf_prev v' = end_prev (vf_prev v) ls \<and> vf_started v' = (vf_started v \<or> list_ex (chained head) ls) \<and>
     rp_Lines (vf_rep v') = rp_Lines (vf_rep v) + length ls \<and>
     rp_Chained (vf_rep v') = rp_Chained (vf_rep v) + length (filter (chained head) ls)"

lemma seen_trans: "seen head holes v ls v' \<Longrightarrow> seen head holes v' ms v'' \<Longrightarrow> seen head holes v (ls @ ms) v''"
  by (auto simp: seen_def links_append end_prev_def)

lemma verify_line_blank: "blank_line (trim_right [13, 10] raw) \<Longrightarrow> verify_line head name n e raw v = v"
  by (simp add: verify_line_def Let_def)

lemma verify_line_seen:
  "\<not> blank_line (trim_right [13, 10] raw) \<Longrightarrow> seen head holes v [trim_right [13, 10] raw] (verify_line head name n e raw v)"
  by (auto simp: verify_line_def Let_def seen_def good_so_far_def chained_def split: option.splits)

lemma verify_lines_seen:
  "seen head holes v (filter (\<lambda>l. \<not> blank_line l) (map (trim_right [13, 10]) raws)) (verify_lines head name n raws v)"
proof (induction raws arbitrary: n v)
  case Nil
  then show ?case by (simp add: seen_def)
next
  case (Cons raw raws)
  let ?v = "verify_line head name n (raws = []) raw v"
  show ?case
  proof (cases "blank_line (trim_right [13, 10] raw)")
    case True
    with Cons.IH [of v "n + 1"] show ?thesis by (simp add: verify_line_blank)
  next
    case False
    from seen_trans [OF verify_line_seen [OF False] Cons.IH] False show ?thesis by simp
  qed
qed

definition history_lines :: "(string, byte list) gomap \<Rightarrow> byte list list" where
  "history_lines dir = concat (map (\<lambda>n. file_lines (the (gm_get dir n))) (historyNames dir))"

lemma verify_files_seen:
  "seen head holes v (concat (map (\<lambda>n. file_lines (F n)) names))
     (fold (\<lambda>f v. verifyChainFile head f (v\<lparr>vf_rep := (vf_rep v)\<lparr>rp_Files := rp_Files (vf_rep v) + 1\<rparr>\<rparr>))
        (map (\<lambda>n. (n, F n)) names) v)"
proof (induction names arbitrary: v)
  case Nil
  then show ?case by (simp add: seen_def)
next
  case (Cons n names)
  let ?v = "(v\<lparr>vf_rep := (vf_rep v)\<lparr>rp_Files := rp_Files (vf_rep v) + 1\<rparr>\<rparr>)\<lparr>vf_tail := False\<rparr>"
  have "seen head holes ?v (file_lines (F n)) (verifyChainFile head (n, F n) (v\<lparr>vf_rep := (vf_rep v)\<lparr>rp_Files := rp_Files (vf_rep v) + 1\<rparr>\<rparr>))"
    unfolding verifyChainFile_def fst_conv snd_conv file_lines_def by (rule verify_lines_seen)
  then have "seen head holes v (file_lines (F n)) (verifyChainFile head (n, F n) (v\<lparr>vf_rep := (vf_rep v)\<lparr>rp_Files := rp_Files (vf_rep v) + 1\<rparr>\<rparr>))"
    by (simp add: seen_def good_so_far_def)
  from seen_trans [OF this Cons.IH] show ?case by simp
qed

lemma VerifyChain_seen:
  fixes head dir
  defines "r \<equiv> VerifyChain head dir"
  shows "(\<not> rp_Broken r \<and> rp_Unvouched r = 0 \<and> (holes \<or> rp_Unreadable r = 0)) = links head holes '''' False (history_lines dir)"
    and "rp_Lines r = length (history_lines dir)"
    and "rp_Chained r = length (filter (chained head) (history_lines dir))"
  using verify_files_seen [of head holes "\<lparr>vf_rep = empty_report, vf_prev = '''', vf_started = False, vf_tail = False\<rparr>"
      "\<lambda>n. the (gm_get dir n)" "historyNames dir"]
  by (simp_all add: r_def VerifyChain_def Let_def seen_def good_so_far_def history_lines_def empty_report_def)

text \<open>
  C29. The verifier implements its specification. For any directory, any way the files are cut and any
  classification of lines by the JSON decoder: the journal is reported intact exactly when its lines, read
  through all archives and the current file in order, hold together, that is, when from the first
  chained line on every line is readable, chained and names the hash of the line before it; it reports
  no break and no unvouched line exactly when the same holds with unreadable lines passed over.
\<close>

theorem verify_refines_links:
  "(Intact (VerifyChain head dir) \<longleftrightarrow> links head False '''' False (history_lines dir)) \<and>
   (\<not> rp_Broken (VerifyChain head dir) \<and> rp_Unvouched (VerifyChain head dir) = 0 \<longleftrightarrow>
      links head True '''' False (history_lines dir)) \<and>
   rp_Lines (VerifyChain head dir) = length (history_lines dir)"
  using VerifyChain_seen(1) [of head dir False] VerifyChain_seen(1) [of head dir True] VerifyChain_seen(2) [of head dir]
  unfolding Intact_def by (simp add: conj_assoc)

section \<open>Tamper evidence\<close>

lemma LineHash_not_genesis: "LineHash l \<noteq> genesisHash" "LineHash l \<noteq> ''''"
  by (simp_all add: LineHash_def genesisHash_def)

lemma LineHash_eq: "LineHash l = LineHash m \<longleftrightarrow> sha256 (trim_right [13] l) = sha256 (trim_right [13] m)"
  by (auto simp: LineHash_def dest: hex_encode_inj)

lemma trim_right_idem: "trim_right [13] (trim_right [13, 10] s) = trim_right [13, 10] s"
  by (induction s rule: rev_induct) (auto simp: trim_right_snoc trim_right_def)

lemma history_lines_trimmed: "l \<in> set (history_lines dir) \<Longrightarrow> trim_right [13] l = l"
  by (auto simp: history_lines_def file_lines_def trim_right_idem)

text \<open>Two chains that end in the same line, with no collision between them, are the same chain.\<close>

lemma chains_agree:
  assumes "links head False '''' True ls" "links head False '''' True ms" "ls \<noteq> []" "ms \<noteq> []" "last ls = last ms"
    and "\<And>l m. l \<in> set ls \<Longrightarrow> m \<in> set ms \<Longrightarrow> LineHash l = LineHash m \<Longrightarrow> l = m"
  shows "ls = ms"
  using assms
proof (induction ls arbitrary: ms rule: rev_induct)
  case (snoc l ls)
  obtain ms' where ms: "ms = ms' @ [l]" using snoc.prems(4,5) by (cases ms rule: rev_cases) auto
  obtain h where h: "head l = Some (Some h)" "links head False '''' True ls"
      "h = (if end_prev '''' ls = '''' then genesisHash else end_prev '''' ls)"
    using snoc.prems(1) by (auto simp: links_append split: option.splits)
  have h': "links head False '''' True ms'" "h = (if end_prev '''' ms' = '''' then genesisHash else end_prev '''' ms')"
    using snoc.prems(2) h(1) by (auto simp: links_append ms)
  show ?case
  proof (cases "ls = [] \<or> ms' = []")
    case True
    then have "ls = [] \<and> ms' = []"
      using h(3) h'(2) LineHash_not_genesis by (auto simp: end_prev_def split: if_splits) metis+
    then show ?thesis by (simp add: ms)
  next
    case False
    then have "LineHash (last ls) = LineHash (last ms')"
      using h(3) h'(2) LineHash_not_genesis(2) by (simp add: end_prev_def)
    then have "last ls = last ms'" using snoc.prems(6) False by (simp add: ms)
    then have "ls = ms'" using snoc.IH [OF h(2) h'(1)] False snoc.prems(6) by (simp add: ms)
    then show ?thesis by (simp add: ms)
  qed
qed simp

lemma links_all_chained:
  "links head False prev False ls \<Longrightarrow> length (filter (chained head) ls) = length ls \<Longrightarrow> links head False prev True ls"
proof (induction ls arbitrary: prev)
  case (Cons l ls)
  have "chained head l"
    using Cons.prems(2) by (metis Suc_n_not_le_n filter.simps(2) length_Cons length_filter_le)
  with Cons.prems(1) show ?case by (auto simp: chained_def split: option.splits)
qed simp


section \<open>The directory of a journal\<close>

definition archive_names :: "(string, byte list) gomap \<Rightarrow> string list" where
  "archive_names dir = sort (filter (\<lambda>n. IsLogFileName n \<and> n \<noteq> DefaultLogFileName) (map fst dir))"

definition archive_lines :: "(string, byte list) gomap \<Rightarrow> byte list list" where
  "archive_lines dir = concat (map (\<lambda>n. file_lines (the (gm_get dir n))) (archive_names dir))"

definition cur_file :: "(string, byte list) gomap \<Rightarrow> byte list" where
  "cur_file dir = (case gm_get dir DefaultLogFileName of None \<Rightarrow> [] | Some file \<Rightarrow> file)"

lemma current_cur: "current l = cur_file (lg_dir l)"
  by (simp add: current_def cur_file_def)

text \<open>An archive sorts before the current log: its label starts with a dash, which is before the dot.\<close>

lemma archive_before_current:
  assumes "IsLogFileName n" "n \<noteq> DefaultLogFileName"
  shows "n < DefaultLogFileName"
proof -
  define label where "label = take (length n - 12) (drop 6 n)"
  have len: "take 6 n = ''events''" "12 \<le> length n" "drop (length n - 6) n = ''.jsonl''"
    using assms(1) by (auto simp: IsLogFileName_def Let_def split: if_splits)
  have "drop (length n - 12) (drop 6 n) = drop (length n - 6) n" using len(2) by simp
  then have n: "n = ''events'' @ label @ ''.jsonl''"
    unfolding label_def using len by (metis append_take_drop_id)
  moreover have "label \<noteq> ''''" using n assms(2) by (auto simp: DefaultLogFileName_def)
  moreover have "hd label = CHR ''-''" if "label \<noteq> ''''"
    using assms(1) that unfolding IsLogFileName_def label_def [symmetric] by (auto simp: Let_def split: if_splits)
  ultimately show ?thesis
    by (cases label) (auto simp: DefaultLogFileName_def less_char_def)
qed

lemma IsLogFileName_current: "IsLogFileName DefaultLogFileName"
  by (simp add: IsLogFileName_def DefaultLogFileName_def)

lemma historyNames_split:
  assumes "gm_wf dir"
  shows "historyNames dir = archive_names dir @ (if gm_get dir DefaultLogFileName = None then [] else [DefaultLogFileName])"
proof (rule sorted_distinct_set_unique)
  have d: "distinct (map fst dir)" using assms by (simp add: gm_wf_def)
  show "sorted (historyNames dir)" "distinct (historyNames dir)" using d by (simp_all add: historyNames_def)
  have "distinct (archive_names dir)" "sorted (archive_names dir)" "DefaultLogFileName \<notin> set (archive_names dir)"
    "\<And>n. n \<in> set (archive_names dir) \<Longrightarrow> n < DefaultLogFileName"
    using d archive_before_current by (auto simp: archive_names_def)
  then show "sorted (archive_names dir @ (if gm_get dir DefaultLogFileName = None then [] else [DefaultLogFileName]))"
    "distinct (archive_names dir @ (if gm_get dir DefaultLogFileName = None then [] else [DefaultLogFileName]))"
    by (auto simp: sorted_append less_imp_le)
  show "set (historyNames dir) = set (archive_names dir @ (if gm_get dir DefaultLogFileName = None then [] else [DefaultLogFileName]))"
    using IsLogFileName_current by (force simp: historyNames_def archive_names_def map_of_eq_None_iff)
qed

lemma file_lines_Nil [simp]: "file_lines [] = []"
  by (simp add: file_lines_def trim_right_def)

lemma history_split: "gm_wf dir \<Longrightarrow> history_lines dir = archive_lines dir @ file_lines (cur_file dir)"
  by (auto simp: history_lines_def historyNames_split archive_lines_def cur_file_def split: option.splits)

lemma archive_lines_cong:
  assumes "archive_names dir' = archive_names dir"
    and "\<And>n. n \<noteq> DefaultLogFileName \<Longrightarrow> gm_get dir' n = gm_get dir n"
  shows "archive_lines dir' = archive_lines dir"
proof -
  have "DefaultLogFileName \<notin> set (archive_names dir)" by (simp add: archive_names_def)
  then show ?thesis unfolding archive_lines_def assms(1)
    by (intro arg_cong [where f = concat] map_cong refl) (metis assms(2))
qed

lemma map_fst_put: "map fst (gm_put k v m) = (if gm_get m k = None then map fst m @ [k] else map fst m)"
  by (induction m) auto

lemma archive_lines_put_current: "archive_lines (gm_put DefaultLogFileName f dir) = archive_lines dir"
  by (rule archive_lines_cong) (auto simp: archive_names_def map_fst_put)

lemma cur_file_put [simp]: "cur_file (gm_put DefaultLogFileName f dir) = f"
  by (simp add: cur_file_def)

text \<open>An archive name that sorts behind every archive there is.\<close>

definition fresh_archive :: "(string, byte list) gomap \<Rightarrow> string \<Rightarrow> bool" where
  "fresh_archive dir a \<longleftrightarrow> IsLogFileName a \<and> a \<noteq> DefaultLogFileName \<and> list_all (\<lambda>n. n < a) (archive_names dir)"

definition rotated :: "(string, byte list) gomap \<Rightarrow> string \<Rightarrow> (string, byte list) gomap" where
  "rotated dir a = gm_put a (cur_file dir) (gm_del DefaultLogFileName dir)"

lemma archive_names_rotated:
  assumes "gm_wf dir" "fresh_archive dir a"
  shows "archive_names (rotated dir a) = archive_names dir @ [a]"
proof (rule sorted_distinct_set_unique)
  have d: "distinct (map fst dir)" using assms by (simp add: gm_wf_def)
  have d': "distinct (map fst (rotated dir a))"
    using gm_wf_put [OF gm_wf_del [OF assms(1)]] by (simp add: rotated_def gm_wf_def)
  then show "sorted (archive_names (rotated dir a))" "distinct (archive_names (rotated dir a))"
    by (simp_all add: archive_names_def)
  have less: "n < a" if "n \<in> set (archive_names dir)" for n
    using assms(2) that by (simp add: fresh_archive_def list_all_iff)
  have "distinct (archive_names dir)" "sorted (archive_names dir)"
    using d by (simp_all add: archive_names_def)
  with less show "sorted (archive_names dir @ [a])" "distinct (archive_names dir @ [a])"
    by (auto simp: sorted_append less_imp_le)
  show "set (archive_names (rotated dir a)) = set (archive_names dir @ [a])"
    using assms(2) unfolding rotated_def archive_names_def fresh_archive_def
    by (force simp: dom_update AList.delete_eq image_iff)
qed

lemma rotated_lines:
  assumes "gm_wf dir" "fresh_archive dir a"
  shows "archive_lines (rotated dir a) = archive_lines dir @ file_lines (cur_file dir)" "cur_file (rotated dir a) = []"
proof -
  have a: "a \<noteq> DefaultLogFileName" "a \<notin> set (archive_names dir)"
    using assms(2) by (auto simp: fresh_archive_def list_all_iff)
  then show "cur_file (rotated dir a) = []" by (simp add: rotated_def cur_file_def)
  have eq: "map (\<lambda>n. file_lines (the (gm_get (rotated dir a) n))) (archive_names dir) =
      map (\<lambda>n. file_lines (the (gm_get dir n))) (archive_names dir)"
    using a(2) by (intro map_cong) (auto simp: rotated_def archive_names_def)
  show "archive_lines (rotated dir a) = archive_lines dir @ file_lines (cur_file dir)"
    unfolding archive_lines_def archive_names_rotated [OF assms] map_append concat_append eq by (simp add: rotated_def)
qed

section \<open>The chain survives\<close>

text \<open>
  What the JSON library promises of an event's line: it is an object on one line without a trailing white space,
  its \<open>prev_hash\<close> is read back, and no proper prefix of it is JSON.
\<close>

definition json_ok :: "enc \<Rightarrow> head \<Rightarrow> bool" where
  "json_ok enc head \<longleftrightarrow> (\<forall>e raw. enc e = Some raw \<and> ev_PrevHash e \<noteq> '''' \<longrightarrow>
     raw \<noteq> [] \<and> hd raw = 123 \<and> last raw = 125 \<and> 10 \<notin> set raw \<and> head raw = Some (Some (ev_PrevHash e)) \<and>
     (\<forall>k. 0 < k \<and> k < length raw \<longrightarrow> head (take k raw) = None))"

text \<open>A write that is cut short does not end in white space.\<close>

definition tidy_io :: "write_io \<Rightarrow> byte list \<Rightarrow> bool" where
  "tidy_io io raw = (case io of WriteCut k \<Rightarrow> k = 0 \<or> last (take k (raw @ [10])) \<notin> {9, 13, 32} | _ \<Rightarrow> True)"

definition tidy :: "enc \<Rightarrow> log_in \<Rightarrow> event \<Rightarrow> bool" where
  "tidy enc i e \<longleftrightarrow> (\<forall>prev raw. enc (e\<lparr>ev_PrevHash := prev\<rparr>) = Some raw \<longrightarrow> tidy_io (li_write i) raw)"

text \<open>The write of a line that ties a fresh file to its archive succeeds.\<close>

definition link_written :: "enc \<Rightarrow> log_in \<Rightarrow> bool" where
  "link_written enc i \<longleftrightarrow> li_write i = WriteOk \<and> li_lock i \<and> li_read i \<and>
     (\<forall>now a rec prev. enc ((rotate_event now a rec)\<lparr>ev_PrevHash := prev\<rparr>) \<noteq> None)"

definition holds :: "head \<Rightarrow> byte list list \<Rightarrow> byte list \<Rightarrow> bool" where
  "holds head older f \<longleftrightarrow> neat f \<and> links head True '''' False (older @ file_lines f)"

definition tied :: "byte list list \<Rightarrow> byte list \<Rightarrow> bool" where
  "tied older f \<longleftrightarrow> (file_lines f = [] \<longrightarrow> older = [])"

text \<open>The \<open>prev_hash\<close> the next line of a chain has to carry.\<close>

definition next_prev :: "byte list list \<Rightarrow> string" where
  "next_prev ls = (if ls = [] then genesisHash else LineHash (last ls))"

lemma next_prev_nonempty [simp]: "next_prev ls \<noteq> ''''"
  using LineHash_not_genesis(2) by (simp add: next_prev_def genesisHash_def)

lemma links_snoc:
  "links head True '''' False ls \<Longrightarrow> head l = None \<or> head l = Some (Some (next_prev ls)) \<Longrightarrow>
   links head True '''' False (ls @ [l])"
  using LineHash_not_genesis(2) by (auto simp: links_append end_prev_def next_prev_def)

text \<open>A line or the start of a line behind whole lines.\<close>

lemma holds_write:
  assumes json: "json_ok enc head" and raw: "enc e = Some raw" "ev_PrevHash e = next_prev (older @ file_lines f)"
    and f: "whole f" "holds head older f" and io: "tidy_io (WriteCut k) raw"
  shows "holds head older (f @ take k (raw @ [10]))"
    and "length raw \<le> k \<Longrightarrow> file_lines (f @ take k (raw @ [10])) = file_lines f @ [raw]"
    and "file_lines (f @ take k (raw @ [10])) = [] \<Longrightarrow> file_lines f = []"
proof -
  have r: "raw \<noteq> []" "hd raw = 123" "last raw = 125" "10 \<notin> set raw" "head raw = Some (Some (next_prev (older @ file_lines f)))"
      "\<And>k. 0 < k \<Longrightarrow> k < length raw \<Longrightarrow> head (take k raw) = None"
    using json raw next_prev_nonempty [of "older @ file_lines f"] unfolding json_ok_def by metis+
  have nb: "\<not> blank_line s" if "s \<noteq> []" "hd s = 123" for s using that by (cases s) (auto split: list.splits)
  have "holds head older (f @ take k (raw @ [10])) \<and>
    (length raw \<le> k \<longrightarrow> file_lines (f @ take k (raw @ [10])) = file_lines f @ [raw]) \<and>
    (file_lines (f @ take k (raw @ [10])) = [] \<longrightarrow> file_lines f = [])"
  proof (cases "k = 0")
    case True
    with f(2) r(1) show ?thesis by simp
  next
    case False
    define p where "p = take k raw"
    have p: "p \<noteq> []" "hd p = 123" "10 \<notin> set p" using False r(1,2,4) by (auto simp: p_def dest: in_set_takeD)
    have pieces: "take k (raw @ [10]) = (if length raw < k then p @ [10] else p)" by (auto simp: p_def)
    have "last p \<notin> {9, 13, 32}"
    proof (cases "length raw \<le> k")
      case True
      then show ?thesis using r(3) by (simp add: p_def)
    next
      case short: False
      then show ?thesis using io False by (simp add: tidy_io_def p_def)
    qed
    then have np: "neat_piece p" using nb [OF p(1,2)] by (simp add: neat_piece_def)
    have t: "neat (take k (raw @ [10]))" "file_lines (take k (raw @ [10])) = [p]"
      using one_line [OF p(3) np p(1)] unfolding pieces by simp_all
    have lines: "file_lines (f @ take k (raw @ [10])) = file_lines f @ [p]" "neat (f @ take k (raw @ [10]))"
      using lines_whole [OF f(1) _ t(1)] neat_whole [OF f(1)] t f(2) by (simp_all add: holds_def)
    have "head p = None \<or> head p = Some (Some (next_prev (older @ file_lines f)))"
      using r(5,6) False by (cases "k < length raw") (simp_all add: p_def)
    with links_snoc f(2) lines show ?thesis by (fastforce simp: holds_def p_def)
  qed
  then show "holds head older (f @ take k (raw @ [10]))"
    and "length raw \<le> k \<Longrightarrow> file_lines (f @ take k (raw @ [10])) = file_lines f @ [raw]"
    and "file_lines (f @ take k (raw @ [10])) = [] \<Longrightarrow> file_lines f = []" by blast+
qed

definition set_cur :: "log \<Rightarrow> byte list \<Rightarrow> log" where
  "set_cur l f = l\<lparr>lg_dir := gm_put DefaultLogFileName f (lg_dir l)\<rparr>"

lemma set_cur_fields [simp]:
  "current (set_cur l f) = f" "archive_lines (lg_dir (set_cur l f)) = archive_lines (lg_dir l)"
  "lg_open (set_cur l f) = lg_open l" "lg_lostWhy (set_cur l f) = lg_lostWhy l"
  "lg_lostArchive (set_cur l f) = lg_lostArchive l"
  "gm_wf (lg_dir l) \<Longrightarrow> gm_wf (lg_dir (set_cur l f))"
  "set_cur (set_cur l f) f' = set_cur l f'"
  by (simp_all add: set_cur_def current_cur archive_lines_put_current)

lemma write_file_effect:
  "write_file l io raw = (case io of
     WriteCut k \<Rightarrow> (set_cur l (current l @ take k raw), False)
   | _ \<Rightarrow> (set_cur l (current l @ raw), True))"
  by (simp add: write_file_def set_cur_def Let_def split: write_io.splits)

lemma line_prev_neat: "neat f \<Longrightarrow> line_prev (fst (lastLine f)) = next_prev (file_lines f)"
  by (simp add: lastLine_spec last_line_neat line_prev_def next_prev_def)

lemma next_prev_tied: "tied older f \<Longrightarrow> next_prev (older @ file_lines f) = next_prev (file_lines f)"
  by (auto simp: tied_def next_prev_def)

text \<open>One line written behind whole lines, whatever becomes of the write.\<close>

lemma write_line_kept:
  assumes json: "json_ok enc head" and "tidy enc i e" and f: "whole (current l)" "holds head older (current l)"
    and prev: "prev = next_prev (older @ file_lines (current l))" and w: "write_line enc i l e prev = (l', r)"
  shows "\<exists>f. (l' = l \<or> l' = set_cur l f) \<and> holds head older (current l') \<and>
    (tied older (current l) \<longrightarrow> tied older (current l'))"
    and "(\<forall>k. li_write i \<noteq> WriteCut k) \<Longrightarrow> enc (e\<lparr>ev_PrevHash := prev\<rparr>) \<noteq> None \<Longrightarrow> tied older (current l')"
    and "r = None \<Longrightarrow> \<exists>raw. file_lines (current l') = file_lines (current l) @ [raw] \<and> head raw = Some (Some prev)"
proof -
  let ?goal = "(\<exists>f. (l' = l \<or> l' = set_cur l f) \<and> holds head older (current l') \<and> (tied older (current l) \<longrightarrow> tied older (current l'))) \<and>
    ((\<forall>k. li_write i \<noteq> WriteCut k) \<and> enc (e\<lparr>ev_PrevHash := prev\<rparr>) \<noteq> None \<longrightarrow> tied older (current l')) \<and>
    (r = None \<longrightarrow> (\<exists>raw. file_lines (current l') = file_lines (current l) @ [raw] \<and> head raw = Some (Some prev)))"
  have ?goal
  proof (cases "enc (e\<lparr>ev_PrevHash := prev\<rparr>)")
    case None
    with w f show ?thesis by (auto simp: write_line_def)
  next
    case (Some raw)
    have tidy: "tidy_io (li_write i) raw" using assms(2) Some by (auto simp: tidy_def)
    define k where "k = (case li_write i of WriteCut k \<Rightarrow> k | _ \<Rightarrow> length raw + 1)"
    have k: "tidy_io (WriteCut k) raw" "(\<forall>k. li_write i \<noteq> WriteCut k) \<Longrightarrow> length raw \<le> k"
      using tidy by (auto simp: k_def tidy_io_def split: write_io.splits)
    have l': "l' = set_cur l (current l @ take k (raw @ [10]))"
      using w Some by (auto simp: write_line_def write_file_effect k_def split: write_io.splits)
    have ok: "r = None \<Longrightarrow> \<forall>k. li_write i \<noteq> WriteCut k"
      using w Some by (auto simp: write_line_def write_file_effect split: write_io.splits)
    have p: "ev_PrevHash (e\<lparr>ev_PrevHash := prev\<rparr>) = next_prev (older @ file_lines (current l))" by (simp add: prev)
    note h = holds_write [OF json Some p f k(1)]
    have "head raw = Some (Some prev)" using json Some prev next_prev_nonempty unfolding json_ok_def by fastforce
    with h k(2) ok l' show ?thesis by (auto simp: tied_def)
  qed
  then show "\<exists>f. (l' = l \<or> l' = set_cur l f) \<and> holds head older (current l') \<and> (tied older (current l) \<longrightarrow> tied older (current l'))"
    and "(\<forall>k. li_write i \<noteq> WriteCut k) \<Longrightarrow> enc (e\<lparr>ev_PrevHash := prev\<rparr>) \<noteq> None \<Longrightarrow> tied older (current l')"
    and "r = None \<Longrightarrow> \<exists>raw. file_lines (current l') = file_lines (current l) @ [raw] \<and> head raw = Some (Some prev)" by blast+
qed

text \<open>The invariant of a log.\<close>

definition log_inv :: "head \<Rightarrow> log \<Rightarrow> bool" where
  "log_inv head l \<longleftrightarrow> gm_wf (lg_dir l) \<and> holds head (archive_lines (lg_dir l)) (current l) \<and>
     ((lg_open l \<or> lg_lostWhy l \<noteq> '''') \<and> lg_lostArchive l = '''' \<longrightarrow> tied (archive_lines (lg_dir l)) (current l)) \<and>
     (lg_open l \<longrightarrow> lg_lostArchive l = '''') \<and>
     (lg_lostArchive l \<noteq> '''' \<longrightarrow> current l = [] \<and> (\<exists>f. gm_get (lg_dir l) (lg_lostArchive l) = Some f \<and> neat f \<and>
        next_prev (file_lines f) = next_prev (archive_lines (lg_dir l))))"

lemma log_inv_links: "log_inv head l \<Longrightarrow> links head True '''' False (history_lines (lg_dir l))"
  by (simp add: log_inv_def holds_def history_split current_cur)

lemma log_inv_set_cur:
  assumes "log_inv head l" "lg_lostArchive l = ''''" "holds head (archive_lines (lg_dir l)) f"
    "tied (archive_lines (lg_dir l)) f"
  shows "log_inv head (set_cur l f)"
  using assms by (simp add: log_inv_def)

lemma holds_newline: "holds head older f \<Longrightarrow> holds head older (f @ [10]) \<and> whole (f @ [10]) \<and> file_lines (f @ [10]) = file_lines f"
  using neat_newline [of f] by (simp add: holds_def)

text \<open>Appending to an open log: the line before is the one the new line names.\<close>

lemma append_open_kept:
  assumes json: "json_ok enc head" and t: "tidy enc i e" and inv: "log_inv head l" "lg_open l"
    and a: "append_open enc i l e = (l', r)"
  shows "log_inv head l' \<and> lg_open l' \<and> archive_lines (lg_dir l') = archive_lines (lg_dir l) \<and>
    (r = None \<longrightarrow> (\<exists>raw. file_lines (current l') = file_lines (current l) @ [raw] \<and>
       head raw = Some (Some (next_prev (history_lines (lg_dir l))))))"
proof -
  let ?old = "archive_lines (lg_dir l)"
  have h: "holds head ?old (current l)" "tied ?old (current l)" "lg_lostArchive l = ''''" "gm_wf (lg_dir l)"
    using inv by (auto simp: log_inv_def)
  have prev: "line_prev (fst (lastLine (current l))) = next_prev (?old @ file_lines (current l))"
    using h(1,2) line_prev_neat next_prev_tied by (simp add: holds_def)
  have hist: "history_lines (lg_dir l) = ?old @ file_lines (current l)" using h(4) by (simp add: history_split current_cur)
  have line: "log_inv head l' \<and> lg_open l' \<and> archive_lines (lg_dir l') = ?old \<and>
      (r = None \<longrightarrow> (\<exists>raw. file_lines (current l') = file_lines (current l) @ [raw] \<and>
         head raw = Some (Some (next_prev (history_lines (lg_dir l))))))"
    if l1: "l1 = l \<or> l1 = set_cur l (current l @ [10])" and w: "whole (current l1)"
      and wl: "write_line enc i l1 e (line_prev (fst (lastLine (current l)))) = (l', r)" for l1
  proof -
    have same: "holds head ?old (current l1)" "file_lines (current l1) = file_lines (current l)" "log_inv head l1"
        "lg_open l1" "archive_lines (lg_dir l1) = ?old" "lg_lostArchive l1 = ''''"
      using l1 h inv holds_newline [OF h(1)] by (auto simp: tied_def intro: log_inv_set_cur)
    have p: "line_prev (fst (lastLine (current l))) = next_prev (?old @ file_lines (current l1))"
      using prev same(2) by simp
    note k = write_line_kept [OF json t w same(1) p wl]
    obtain f where f: "l' = l1 \<or> l' = set_cur l1 f" "holds head ?old (current l')" "tied ?old (current l')"
      using k(1) h(2) same(2) by (auto simp: tied_def)
    have "log_inv head l'" using f log_inv_set_cur [OF same(3,6)] same(3,5) by auto
    then show ?thesis using k(3) f(1) same prev hist by auto
  qed
  show ?thesis
  proof (cases "Validate e \<and> li_lock i \<and> li_read i")
    case False
    then show ?thesis using a inv by (auto simp: append_open_def writeChainedLocked_def split: if_splits)
  next
    case True
    show ?thesis
    proof (cases "whole (current l)")
      case True
      with \<open>Validate e \<and> li_lock i \<and> li_read i\<close> a have "write_line enc i l e (line_prev (fst (lastLine (current l)))) = (l', r)"
        by (auto simp: append_open_def writeChainedLocked_def whole_def lastLine_spec split: if_splits)
      with line [of l] True show ?thesis by blast
    next
      case False
      then have "append_open enc i l e = (case write_file l (li_nl i) [10] of
                (l', False) \<Rightarrow> (l', Some WriteError)
              | (l', True) \<Rightarrow> write_line enc i l' e (line_prev (last_line_spec (current l))))"
        using True by (simp add: append_open_def writeChainedLocked_def whole_def lastLine_spec)
      then consider "write_line enc i (set_cur l (current l @ [10])) e (line_prev (last_line_spec (current l))) = (l', r)"
        | k where "l' = set_cur l (current l @ take k [10])" "r \<noteq> None"
        using a by (auto simp: write_file_effect split: write_io.splits)
      then show ?thesis
      proof cases
        case 1
        with line [of "set_cur l (current l @ [10])"] holds_newline [OF h(1)] show ?thesis by (simp add: lastLine_spec)
      next
        case (2 k)
        then have "current l @ take k [10] = current l \<or> current l @ take k [10] = current l @ [10]" by (cases k) auto
        then have "log_inv head l'"
          using log_inv_set_cur [OF inv(1) h(3)] h(1,2) holds_newline [OF h(1)] 2(1) by (auto simp: tied_def)
        then show ?thesis using 2 inv(2) by auto
      qed
    qed
  qed
qed

lemma create_current_cur: "create_current l = set_cur l (current l)"
  by (simp add: create_current_def set_cur_def)

lemma rotate_event_tidy: "link_written enc i \<Longrightarrow> tidy enc i e"
  by (auto simp: link_written_def tidy_def tidy_io_def split: write_io.splits)

text \<open>A line that ties a fresh file to the lines before it.\<close>

lemma link_kept:
  assumes json: "json_ok enc head" and lw: "link_written enc i" and wf: "gm_wf (lg_dir l)"
    and cur: "current l = []" "holds head (archive_lines (lg_dir l)) []"
    and w: "write_line enc i l (rotate_event now a rec) (next_prev (archive_lines (lg_dir l))) = (l', r)"
  shows "gm_wf (lg_dir l') \<and> holds head (archive_lines (lg_dir l')) (current l') \<and>
    tied (archive_lines (lg_dir l')) (current l') \<and> lg_open l' = lg_open l \<and> lg_lostWhy l' = lg_lostWhy l \<and>
    lg_lostArchive l' = lg_lostArchive l"
proof -
  let ?old = "archive_lines (lg_dir l)"
  have f: "whole (current l)" "holds head ?old (current l)" using cur by (simp_all add: whole_def)
  have p: "next_prev ?old = next_prev (?old @ file_lines (current l))" by (simp add: cur)
  note k = write_line_kept [OF json rotate_event_tidy [OF lw] f p w]
  have "tied ?old (current l')" using k(2) lw by (simp add: link_written_def)
  with k(1) wf show ?thesis by auto
qed

lemma link_succeeds:
  assumes "link_written enc i" "write_line enc i l (rotate_event now a rec) prev = (l', r)"
  shows "r = None"
proof -
  obtain raw where "enc ((rotate_event now a rec)\<lparr>ev_PrevHash := prev\<rparr>) = Some raw"
    using assms(1) unfolding link_written_def by blast
  with assms show ?thesis by (simp add: write_line_def write_file_effect link_written_def)
qed

lemma reopen_kept:
  assumes json: "json_ok enc head" and lw: "link_written enc i" and inv: "log_inv head l" "lg_lostWhy l \<noteq> ''''" "\<not> lg_open l"
    and r: "reopenAfterRotationLocked enc i l = (l', r)"
  shows "log_inv head l' \<and> (r = None \<longrightarrow> lg_open l')"
proof -
  let ?l1 = "(create_current l)\<lparr>lg_open := True\<rparr>"
  have l1: "current ?l1 = current l" "archive_lines (lg_dir ?l1) = archive_lines (lg_dir l)" "gm_wf (lg_dir ?l1)"
    using inv(1) by (simp_all add: create_current_cur current_cur set_cur_def archive_lines_put_current log_inv_def)
  show ?thesis
  proof (cases "li_open i")
    case True
    show ?thesis
    proof (cases "lg_lostArchive l = ''''")
      case True
      with r inv l1 \<open>li_open i\<close> show ?thesis
        by (auto simp: reopenAfterRotationLocked_def Let_def log_inv_def create_current_cur current_cur)
    next
      case False
      then obtain f where f: "current l = []" "gm_get (lg_dir l) (lg_lostArchive l) = Some f" "neat f"
          "next_prev (file_lines f) = next_prev (archive_lines (lg_dir l))" "gm_wf (lg_dir l)"
          "holds head (archive_lines (lg_dir l)) []"
        using inv(1) by (auto simp: log_inv_def)
      have ne: "lg_lostArchive l = DefaultLogFileName \<Longrightarrow> f = []" using f(1,2) by (auto simp: current_def)
      have get: "gm_get (lg_dir ?l1) (lg_lostArchive l) = Some f"
        using f(1,2) ne by (auto simp: create_current_cur set_cur_def)
      have link: "linkArchiveLocked enc i ?l1 = write_line enc i ?l1 (rotate_event (li_now i) (lg_lostArchive l) True)
          (next_prev (archive_lines (lg_dir ?l1)))"
        using lw get f(4) line_prev_neat [OF f(3)] l1(2)
        by (simp add: linkArchiveLocked_def link_written_def writeChainedLocked_def create_current_cur)
      obtain l2 r2 where w: "linkArchiveLocked enc i ?l1 = (l2, r2)" by fastforce
      have "current ?l1 = []" "holds head (archive_lines (lg_dir ?l1)) []" using l1 f by simp_all
      from link_kept [OF json lw l1(3) this w [unfolded link]]
      have k: "gm_wf (lg_dir l2)" "holds head (archive_lines (lg_dir l2)) (current l2)"
          "tied (archive_lines (lg_dir l2)) (current l2)" "lg_open l2"
        by (simp_all add: create_current_cur)
      have "r2 = None" by (rule link_succeeds [OF lw w [unfolded link]])
      with r w False k \<open>li_open i\<close> f(1) l1(1) show ?thesis
        by (auto simp: reopenAfterRotationLocked_def Let_def log_inv_def current_cur create_current_cur)
    qed
  qed (use r inv in \<open>auto simp: reopenAfterRotationLocked_def\<close>)
qed

lemma append_kept:
  assumes json: "json_ok enc head" and lw: "link_written enc ri" and t: "tidy enc i e" and inv: "log_inv head l"
    and a: "appendLocked enc ri i l e = (l', r)"
  shows "log_inv head l'"
proof (cases "lg_open l \<or> lg_lostWhy l = ''''")
  case True
  then show ?thesis using append_open_kept [OF json t inv] a inv by (auto simp: appendLocked_def split: if_splits)
next
  case False
  obtain l1 r1 where ro: "reopenAfterRotationLocked enc ri l = (l1, r1)" by fastforce
  have k: "log_inv head l1 \<and> (r1 = None \<longrightarrow> lg_open l1)" using reopen_kept [OF json lw inv _ _ ro] False by blast
  show ?thesis
  proof (cases r1)
    case None
    then show ?thesis using append_open_kept [OF json t] k a ro False by (auto simp: appendLocked_def)
  qed (use k a ro False in \<open>auto simp: appendLocked_def\<close>)
qed

text \<open>The file a rotation leaves behind, before the line that ties the new one to it.\<close>

lemma rotated_inv:
  assumes inv: "log_inv head l" "lg_open l" and fresh: "fresh_archive (lg_dir l) a"
  shows "archive_lines (rotated (lg_dir l) a) = archive_lines (lg_dir l) @ file_lines (current l)"
    and "cur_file (rotated (lg_dir l) a) = []" and "gm_wf (rotated (lg_dir l) a)"
    and "holds head (archive_lines (rotated (lg_dir l) a)) []"
    and "line_prev (fst (lastLine (current l))) = next_prev (archive_lines (rotated (lg_dir l) a))"
    and "gm_get (rotated (lg_dir l) a) a = Some (current l)" and "neat (current l)"
proof -
  have wf: "gm_wf (lg_dir l)" and h: "holds head (archive_lines (lg_dir l)) (current l)" "tied (archive_lines (lg_dir l)) (current l)"
    using inv by (auto simp: log_inv_def)
  note r = rotated_lines [OF wf fresh]
  show al: "archive_lines (rotated (lg_dir l) a) = archive_lines (lg_dir l) @ file_lines (current l)"
    by (simp add: r current_cur)
  show "cur_file (rotated (lg_dir l) a) = []" by (rule r(2))
  show "gm_wf (rotated (lg_dir l) a)" using wf by (simp add: rotated_def)
  show "neat (current l)" using h by (simp add: holds_def)
  show "holds head (archive_lines (rotated (lg_dir l) a)) []"
    using h(1) al by (simp add: holds_def neat_def neat_piece_def)
  show "line_prev (fst (lastLine (current l))) = next_prev (archive_lines (rotated (lg_dir l) a))"
    using h al line_prev_neat next_prev_tied by (simp add: holds_def)
  show "gm_get (rotated (lg_dir l) a) a = Some (current l)" by (simp add: rotated_def current_cur)
qed

lemma rotate_kept:
  assumes json: "json_ok enc head" and lw: "link_written enc i" and inv: "log_inv head l"
    and fresh: "fresh_archive (lg_dir l) a" and ro: "Rotate enc i l a = (l', r)"
  shows "log_inv head l'"
proof (cases "lg_open l \<and> li_sync i \<and> li_close i \<and> li_mkdir i \<and> li_rename i")
  case False
  with ro inv show ?thesis
    by (auto simp: Rotate_def Let_def log_inv_def current_cur split: if_splits)
next
  case True
  have pre: "IsLogFileName a" "li_lock i" "li_read i"
    using fresh lw by (simp_all add: fresh_archive_def link_written_def)
  have dir: "gm_put a (cur_file (lg_dir l)) (gm_del DefaultLogFileName (lg_dir l)) = rotated (lg_dir l) a"
    by (simp add: rotated_def)
  note rot = rotated_inv [OF inv _ fresh]
  have lost: "lg_lostArchive l = ''''" using inv True by (simp add: log_inv_def)
  show ?thesis
  proof (cases "li_open i")
    case False
    with True pre ro have l': "l' = l\<lparr>lg_open := False, lg_dir := rotated (lg_dir l) a,
        lg_lostWhy := ''was rotated to '' @ a, lg_lostArchive := a\<rparr>"
      by (simp add: Rotate_def Let_def dir current_cur)
    have "a \<noteq> ''''" using pre(1) by (auto simp: IsLogFileName_def)
    moreover have "next_prev (file_lines (current l)) = next_prev (archive_lines (rotated (lg_dir l) a))"
      using rot(5,7) True line_prev_neat by metis
    ultimately show ?thesis using rot True by (simp add: l' log_inv_def current_cur)
  next
    case opened: True
    let ?l2 = "l\<lparr>lg_dir := gm_put DefaultLogFileName [] (rotated (lg_dir l) a), lg_open := True, lg_lostWhy := '''',
      lg_lostArchive := ''''\<rparr>"
    have w: "write_line enc i ?l2 (rotate_event (li_now i) a False) (next_prev (archive_lines (lg_dir ?l2))) = (l', r)"
      using True pre ro opened rot(2,5) next_prev_nonempty
      by (simp add: Rotate_def Let_def dir current_cur create_current_def writeChainedLocked_def
          archive_lines_put_current)
    have "gm_wf (lg_dir ?l2)" "current ?l2 = []" "holds head (archive_lines (lg_dir ?l2)) []"
      using rot(3,4) True by (simp_all add: archive_lines_put_current current_cur)
    from link_kept [OF json lw this w] show ?thesis by (simp add: log_inv_def)
  qed
qed

lemma close_kept: "log_inv head l \<Longrightarrow> log_inv head (log_Close l)"
  by (simp add: log_inv_def log_Close_def current_cur)

lemma open_kept:
  assumes inv: "log_inv head l" and t: "tied (archive_lines (lg_dir l)) (current l)" and o: "OpenLog (lg_dir l) i = (l', None)"
  shows "log_inv head l'"
proof -
  let ?l0 = "\<lparr>lg_dir = lg_dir l, lg_open = False, lg_lostWhy = '''', lg_lostArchive = ''''\<rparr>"
  obtain l1 where rp: "repairTornTail ?l0 i = (l1, None)" and l': "l' = (create_current l1)\<lparr>lg_open := True\<rparr>"
    using o by (auto simp: OpenLog_def Let_def split: if_splits option.splits prod.splits)
  have h: "holds head (archive_lines (lg_dir l)) (current l)" "gm_wf (lg_dir l)" using inv by (auto simp: log_inv_def)
  have c0: "current ?l0 = current l" by (simp add: current_cur)
  have "l1 = ?l0 \<or> l1 = set_cur ?l0 (current l @ [10])"
    using rp c0 by (auto simp: repairTornTail_def write_file_effect split: if_splits write_io.splits)
  then have "archive_lines (lg_dir l1) = archive_lines (lg_dir l)" "gm_wf (lg_dir l1)" "lg_lostArchive l1 = ''''" "lg_lostWhy l1 = ''''"
      "holds head (archive_lines (lg_dir l)) (current l1)" "tied (archive_lines (lg_dir l)) (current l1)"
    using h t c0 holds_newline [OF h(1)] by (auto simp: tied_def)
  then show ?thesis by (simp add: l' log_inv_def create_current_cur current_cur set_cur_def archive_lines_put_current)
qed

section \<open>Runs\<close>

inductive log_step :: "enc \<Rightarrow> log \<Rightarrow> log \<Rightarrow> bool" for enc where
  append: "appendLocked enc ri i l e = (l', r) \<Longrightarrow> link_written enc ri \<Longrightarrow> tidy enc i e \<Longrightarrow> log_step enc l l'"
| rotate: "Rotate enc i l a = (l', r) \<Longrightarrow> link_written enc i \<Longrightarrow> fresh_archive (lg_dir l) a \<Longrightarrow> log_step enc l l'"
| close: "log_step enc l (log_Close l)"
| reopen: "OpenLog (lg_dir l) i = (l', None) \<Longrightarrow> tied (archive_lines (lg_dir l)) (current l) \<Longrightarrow> log_step enc l l'"

definition log_init :: "log \<Rightarrow> bool" where
  "log_init l \<longleftrightarrow> (\<exists>i. OpenLog [] i = (l, None))"

lemma log_init_inv: "log_init l \<Longrightarrow> log_inv head l"
proof -
  assume "log_init l"
  then obtain i where "OpenLog [] i = (l, None)" by (auto simp: log_init_def)
  then have "l = \<lparr>lg_dir = [(DefaultLogFileName, [])], lg_open = True, lg_lostWhy = '''', lg_lostArchive = ''''\<rparr>"
    by (auto simp: OpenLog_def Let_def repairTornTail_def current_def create_current_def split: if_splits)
  then show ?thesis
    by (simp add: log_inv_def gm_wf_def current_def holds_def neat_def neat_piece_def tied_def archive_lines_def archive_names_def)
qed

lemma log_step_inv: "json_ok enc head \<Longrightarrow> log_inv head l \<Longrightarrow> log_step enc l l' \<Longrightarrow> log_inv head l'"
  by (erule log_step.cases) (auto intro: append_kept rotate_kept close_kept open_kept)

interpretation journal: inv_system log_init "log_step enc" "\<lambda>l. \<forall>head. json_ok enc head \<longrightarrow> log_inv head l"
  by unfold_locales (auto intro: log_init_inv log_step_inv)


text \<open>
  A successful append records its event. In a reachable, open log an append that returns no error adds exactly
  one line to the history, at its end; the line carries the hash of the line that was last before.
\<close>

theorem append_records_one_line:
  assumes "json_ok enc head" "reachable log_init (log_step enc) l" "lg_open l" "tidy enc i e"
    and "appendLocked enc ri i l e = (l', None)"
  shows "\<exists>raw. history_lines (lg_dir l') = history_lines (lg_dir l) @ [raw] \<and>
    head raw = Some (Some (next_prev (history_lines (lg_dir l))))"
proof -
  have inv: "log_inv head l" using journal.reachable_inv [OF assms(2)] assms(1) by blast
  have a: "append_open enc i l e = (l', None)" using assms(3,5) by (simp add: appendLocked_def)
  note k = append_open_kept [OF assms(1,4) inv assms(3) a]
  have "gm_wf (lg_dir l)" "gm_wf (lg_dir l')" using inv k by (auto simp: log_inv_def)
  with k show ?thesis by (auto simp: history_split current_cur)
qed

section \<open>When the tie is lost\<close>


text \<open>
  Three more ways to the same verdict or to a dead log. A recovery that opens the fresh file but cannot write the tying
  line leaves the file open, so the next append does not try again but starts over. A rotation
  that fails to make the archive's directory leaves the log without a file and without a
  reason, so every later append answers that the log is closed. A line cut behind a blank is hashed without the
  blank by the writer and with it by the verifier.
\<close>

lemma failed_link_leaves_file_open:
  assumes "li_open i" "\<not> li_lock i" "lg_lostArchive l \<noteq> ''''" "current l = []"
  shows "lg_open (fst (reopenAfterRotationLocked enc i l)) \<and> snd (reopenAfterRotationLocked enc i l) = Some LinkError \<and>
    current (fst (reopenAfterRotationLocked enc i l)) = []"
  using assms by (simp add: reopenAfterRotationLocked_def linkArchiveLocked_def Let_def create_current_def current_cur)

lemma failed_mkdir_closes_log:
  assumes "lg_open l" "lg_lostWhy l = ''''" "IsLogFileName a" "li_lock i" "li_read i" "li_sync i" "li_close i" "\<not> li_mkdir i"
  shows "appendLocked enc ri j (fst (Rotate enc i l a)) e = (fst (Rotate enc i l a), Some LogClosed)"
  using assms by (simp add: Rotate_def Let_def appendLocked_def)

lemma writer_ignores_blank: "last_line_spec (f @ [32]) = last_line_spec f"
  by (simp add: last_line_spec_def trim_right_snoc)

lemma verifier_keeps_blank: "10 \<notin> set p \<Longrightarrow> \<not> blank_line (p @ [32]) \<Longrightarrow> file_lines (p @ [32]) = [p @ [32]]"
  by (simp add: file_lines_def split_char_none trim_right_snoc)

section \<open>Concrete journals\<close>

text \<open>An encoder that writes only the \<open>prev_hash\<close>, two letters for each byte, between braces.\<close>

definition demo_bytes :: "string \<Rightarrow> byte list" where
  "demo_bytes s = concat (map (\<lambda>c. [of_nat (65 + of_char c div 16), of_nat (65 + of_char c mod 16)]) s)"

fun demo_string :: "byte list \<Rightarrow> string" where
  "demo_string (a # b # rest) = char_of (16 * (unat a - 65) + (unat b - 65)) # demo_string rest"
| "demo_string _ = []"

definition demo_enc :: enc where
  "demo_enc e = Some (123 # demo_bytes (ev_PrevHash e) @ [125])"

definition demo_head :: head where
  "demo_head raw = (if 2 \<le> length raw \<and> hd raw = 123 \<and> last raw = 125
     then Some (Some (demo_string (butlast (tl raw)))) else None)"

lemma demo_letter: "n < 16 \<Longrightarrow> unat (of_nat (65 + n) :: byte) = 65 + n"
  by (simp add: unat_of_nat take_bit_nat_def del: of_nat_add)

lemma demo_high: "(of_char c :: nat) div 16 < 16"
  by (rule less_mult_imp_div_less) simp

lemma demo_roundtrip: "demo_string (demo_bytes s) = s"
proof (induction s)
  case (Cons c s)
  with demo_high [of c] show ?case
    by (simp add: demo_bytes_def demo_letter del: of_nat_add)
qed (simp add: demo_bytes_def)

lemma demo_bytes_letters: "b \<in> set (demo_bytes s) \<Longrightarrow> b \<noteq> 10 \<and> b \<noteq> 125"
proof -
  have "of_nat (65 + n) \<noteq> (10 :: byte) \<and> of_nat (65 + n) \<noteq> (125 :: byte)" if "n < 16" for n
    using demo_letter [OF that] that by (auto dest!: arg_cong [where f = unat] simp del: of_nat_add)
  then show "b \<in> set (demo_bytes s) \<Longrightarrow> b \<noteq> 10 \<and> b \<noteq> 125"
    using demo_high by (auto simp: demo_bytes_def simp del: of_nat_add)
qed

lemma demo_json: "json_ok demo_enc demo_head"
proof -
  have "demo_head (take k (123 # demo_bytes s @ [125])) = None" if k0: "0 < k" and kl: "k < length (123 # demo_bytes s @ [125])" for k s
  proof -
    obtain j where k: "k = Suc j" using k0 by (cases k) auto
    have j: "take j (demo_bytes s @ [125]) = take j (demo_bytes s)" "j \<le> length (demo_bytes s)" using kl k by auto
    have "last (123 # take j (demo_bytes s)) \<noteq> 125"
    proof (cases "take j (demo_bytes s) = []")
      case False
      then have "last (take j (demo_bytes s)) \<in> set (demo_bytes s)" by (rule in_set_takeD [OF last_in_set])
      then show ?thesis using demo_bytes_letters False by auto
    qed simp
    then show ?thesis by (simp add: k j(1) demo_head_def del: take_append)
  qed
  then show ?thesis
    using demo_bytes_letters by (auto simp: json_ok_def demo_enc_def demo_head_def demo_roundtrip)
qed

definition demo_io :: log_in where
  "demo_io = \<lparr>li_lock = True, li_read = True, li_nl = WriteOk, li_write = WriteOk, li_sync = True, li_close = True,
     li_mkdir = True, li_rename = True, li_reopen = True, li_open = True, li_now = 7\<rparr>"

definition demo_event :: event where
  "demo_event = \<lparr>ev_Time = 5, ev_Type = EventLogRotate, ev_Actor = ''a'', ev_Object = ''o'', ev_Result = ''ok'',
     ev_Address = '''', ev_Fingerprint = '''', ev_Details = [], ev_PrevHash = ''''\<rparr>"

definition demo_log :: "byte list \<Rightarrow> log" where
  "demo_log f = \<lparr>lg_dir = [(DefaultLogFileName, f)], lg_open = True, lg_lostWhy = '''', lg_lostArchive = ''''\<rparr>"

definition demo_line :: "byte list" where
  "demo_line = 123 # demo_bytes genesisHash @ [125]"

lemma demo_line_bytes: "demo_line = [123, 71, 72, 71, 70, 71, 79, 71, 70, 72, 68, 71, 74, 72, 68, 125]"
  by code_simp

lemma demo_conditions: "tidy demo_enc demo_io e" "link_written demo_enc demo_io"
  by (simp_all add: tidy_def tidy_io_def demo_io_def link_written_def demo_enc_def)

lemma demo_append: "appendLocked demo_enc demo_io demo_io (demo_log []) demo_event = (demo_log (demo_line @ [10]), None)"
  by code_simp

lemma demo_log_reachable:
  "reachable log_init (log_step demo_enc) (demo_log [])" "reachable log_init (log_step demo_enc) (demo_log (demo_line @ [10]))"
proof -
  have "OpenLog [] demo_io = (demo_log [], None)" by code_simp
  then show "reachable log_init (log_step demo_enc) (demo_log [])" by (auto intro!: reach_init simp: log_init_def)
  from reach_step [OF this log_step.append [OF demo_append]] demo_conditions
  show "reachable log_init (log_step demo_enc) (demo_log (demo_line @ [10]))" by blast
qed


theorem append_records_one_line_witness:
  "\<exists>raw. history_lines (lg_dir (demo_log (demo_line @ [10]))) = history_lines (lg_dir (demo_log [])) @ [raw]"
  using append_records_one_line [OF demo_json demo_log_reachable(1) _ demo_conditions(1) demo_append]
  by (auto simp: demo_log_def)

lemma demo_lines: "history_lines [(n, demo_line @ [10])] = [demo_line]" if "IsLogFileName n" for n
  using that by (simp add: history_lines_def historyNames_def demo_line_bytes file_lines_def trim_right_def)


lemma line_prev_nonempty: "line_prev prior \<noteq> ''''"
  using LineHash_not_genesis(2) by (auto simp: line_prev_def genesisHash_def split: option.splits)


end
