(* ===== verification/Go_Text.thy ===== *)
theory Go_Text
  imports Encoding
begin

text \<open>
  What the gateway uses of Go's text libraries: white space as \<open>unicode.IsSpace\<close> sees it in UTF-8
  (\<open>strings.TrimSpace\<close>, \<open>strings.Fields\<close>), \<open>utf8.ValidString\<close>, \<open>utf8.RuneStart\<close> and the decoder of
  \<open>base64.StdEncoding\<close>. A Go string is a sequence of bytes, and a HOL character is a byte.
\<close>

section \<open>White space\<close>

definition in_range :: "char \<Rightarrow> char \<Rightarrow> char \<Rightarrow> bool" where
  "in_range lo hi c \<longleftrightarrow> lo \<le> c \<and> c \<le> hi"

text \<open>The number of bytes of the white-space rune at the head of a string; 0 when there is none.\<close>

definition space_width :: "string \<Rightarrow> nat" where
  "space_width s = (case map of_char (take 3 s) of
     [] \<Rightarrow> 0
   | a # r \<Rightarrow>
      if a \<in> {9, 10, 11, 12, 13, 32 :: nat} then 1
      else case r of
        [] \<Rightarrow> 0
      | b # r' \<Rightarrow>
         if a = 0xC2 \<and> b \<in> {0x85, 0xA0} then 2
         else case r' of
           [] \<Rightarrow> 0
         | c # _ \<Rightarrow>
            if a = 0xE1 \<and> b = 0x9A \<and> c = 0x80 \<or>
               a = 0xE2 \<and> b = 0x80 \<and> (0x80 \<le> c \<and> c \<le> 0x8A \<or> c \<in> {0xA8, 0xA9, 0xAF}) \<or>
               a = 0xE2 \<and> b = 0x81 \<and> c = 0x9F \<or> a = 0xE3 \<and> b = 0x80 \<and> c = 0x80
            then 3 else 0)"

lemma space_width_le: "space_width s \<le> length s"
  by (rule list.exhaust [of s], simp add: space_width_def, rename_tac a r,
      case_tac r, simp add: space_width_def, rename_tac b r', case_tac r', simp_all add: space_width_def)

lemma space_width_Nil [simp]: "space_width [] = 0"
  by (simp add: space_width_def)

function trim_left :: "string \<Rightarrow> string" where
  "trim_left s = (if space_width s = 0 then s else trim_left (drop (space_width s) s))"
  by pat_completeness auto
termination
  by (relation "measure length")
    (auto, metis diff_less gr0I le_zero_eq length_0_conv length_greater_0_conv space_width_le)

declare trim_left.simps [simp del]

definition last_space_width :: "string \<Rightarrow> nat" where
  "last_space_width s =
    (if s = [] then 0
     else if space_width [last s] = 1 then 1
     else if length s \<ge> 2 \<and> space_width (drop (length s - 2) s) = 2 then 2
     else if length s \<ge> 3 \<and> space_width (drop (length s - 3) s) = 3 then 3
     else 0)"

lemma last_space_width_le: "last_space_width s \<le> length s"
  by (cases s) (auto simp: last_space_width_def)

function trim_end :: "string \<Rightarrow> string" where
  "trim_end s = (if last_space_width s = 0 then s else trim_end (take (length s - last_space_width s) s))"
  by pat_completeness auto
termination
  by (relation "measure length") (auto, metis diff_less le_zero_eq not_gr_zero last_space_width_le length_0_conv)

declare trim_end.simps [simp del]

definition TrimSpace :: "string \<Rightarrow> string" where
  "TrimSpace s = trim_end (trim_left s)"

function fields_from :: "string \<Rightarrow> string \<Rightarrow> string list" where
  "fields_from cur [] = (if cur = [] then [] else [rev cur])"
| "fields_from cur (c # s) =
    (if space_width (c # s) = 0 then fields_from (c # cur) s
     else (if cur = [] then [] else [rev cur]) @ fields_from [] (drop (space_width (c # s)) (c # s)))"
  by pat_completeness auto
termination
  by (relation "measure (length \<circ> snd)") auto

definition Fields :: "string \<Rightarrow> string list" where
  "Fields s = fields_from [] s"


section \<open>UTF-8\<close>

text \<open>\<open>utf8.ValidString\<close>: the table of well-formed byte sequences.\<close>

definition cont :: "nat \<Rightarrow> bool" where
  "cont b \<longleftrightarrow> 0x80 \<le> b \<and> b \<le> 0xBF"

fun utf8_valid :: "nat list \<Rightarrow> bool" where
  "utf8_valid [] = True"
| "utf8_valid (a # r) =
    (if a \<le> 0x7F then utf8_valid r
     else case r of
       [] \<Rightarrow> False
     | b # r2 \<Rightarrow>
        if 0xC2 \<le> a \<and> a \<le> 0xDF then cont b \<and> utf8_valid r2
        else case r2 of
          [] \<Rightarrow> False
        | c # r3 \<Rightarrow>
           if 0xE0 \<le> a \<and> a \<le> 0xEF then
             (if a = 0xE0 then 0xA0 \<le> b \<and> b \<le> 0xBF else if a = 0xED then 0x80 \<le> b \<and> b \<le> 0x9F else cont b) \<and>
             cont c \<and> utf8_valid r3
           else case r3 of
             [] \<Rightarrow> False
           | d # r4 \<Rightarrow>
              0xF0 \<le> a \<and> a \<le> 0xF4 \<and>
              (if a = 0xF0 then 0x90 \<le> b \<and> b \<le> 0xBF else if a = 0xF4 then 0x80 \<le> b \<and> b \<le> 0x8F else cont b) \<and>
              cont c \<and> cont d \<and> utf8_valid r4)"

definition ValidString :: "string \<Rightarrow> bool" where
  "ValidString s = utf8_valid (map of_char s)"

definition RuneStart :: "char \<Rightarrow> bool" where
  "RuneStart c \<longleftrightarrow> \<not> cont (of_char c)"

section \<open>Base64 with padding\<close>

definition b64_val :: "char \<Rightarrow> nat option" where
  "b64_val c =
    (if CHR ''A'' \<le> c \<and> c \<le> CHR ''Z'' then Some (of_char c - 65)
     else if CHR ''a'' \<le> c \<and> c \<le> CHR ''z'' then Some (of_char c - 71)
     else if CHR ''0'' \<le> c \<and> c \<le> CHR ''9'' then Some (of_char c + 4)
     else if c = CHR ''+'' then Some 62
     else if c = CHR ''/'' then Some 63
     else None)"

text \<open>
  \<open>StdEncoding.DecodeString\<close> of a text without line ends: groups of four, padding only at the end,
  left-over bits ignored.
\<close>

fun b64_decode :: "string \<Rightarrow> byte list option" where
  "b64_decode [] = Some []"
| "b64_decode (a # b # c # d # rest) =
    (case (b64_val a, b64_val b) of
       (Some x, Some y) \<Rightarrow>
         if c = CHR ''='' then (if d = CHR ''='' \<and> rest = [] then Some [of_nat (x * 4 + y div 16)] else None)
         else (case b64_val c of
           None \<Rightarrow> None
         | Some z \<Rightarrow>
             if d = CHR ''='' then
               (if rest = [] then Some [of_nat (x * 4 + y div 16), of_nat (y mod 16 * 16 + z div 4)] else None)
             else (case (b64_val d, b64_decode rest) of
               (Some w, Some bs) \<Rightarrow>
                 Some (of_nat (x * 4 + y div 16) # of_nat (y mod 16 * 16 + z div 4) # of_nat (z mod 4 * 64 + w) # bs)
             | _ \<Rightarrow> None))
     | _ \<Rightarrow> None)"
| "b64_decode _ = None"

text \<open>The encoder the decoder belongs to, for the statements.\<close>

definition b64_std :: "byte list \<Rightarrow> string" where
  "b64_std bs = b64_raw bs @ replicate ((3 - length bs mod 3) mod 3) (CHR ''='')"

section \<open>Lemmas\<close>

definition graphic :: "char \<Rightarrow> bool" where
  "graphic c \<longleftrightarrow> CHR ''!'' \<le> c \<and> c \<le> CHR ''~''"

lemma b64_char_ok:
  assumes "n < 64"
  shows "b64_val (b64_char n) = Some n \<and> b64_char n \<noteq> CHR ''='' \<and> graphic (b64_char n)"
proof -
  have "list_all (\<lambda>n. b64_val (b64_char n) = Some n \<and> b64_char n \<noteq> CHR ''='' \<and> graphic (b64_char n)) [0..<64]"
    by code_simp
  with assms show ?thesis by (simp add: list_all_iff)
qed

lemma b64_val_char [simp]: "n < 64 \<Longrightarrow> b64_val (b64_char n) = Some n" "n < 64 \<Longrightarrow> b64_char n \<noteq> CHR ''=''"
  using b64_char_ok by auto

lemma byte_bounds: "unat (a :: byte) div 4 < 64" "unat a mod 4 * 16 + unat (b :: byte) div 16 < 64"
  "unat b mod 16 * 4 + unat (c :: byte) div 64 < 64" "unat c mod 64 < 64" "unat a mod 4 * 16 < 64" "unat b mod 16 * 4 < 64"
  using unat_byte [of a] unat_byte [of b] unat_byte [of c] by auto

lemma byte_merge:
  "unat a div 4 * 4 + (unat a mod 4 * 16 + unat b div 16) div 16 = unat (a :: byte)"
  "unat a div 4 * 4 + (unat a mod 4 * 16) div 16 = unat a"
  "(unat a mod 4 * 16 + unat b div 16) mod 16 * 16 + (unat b mod 16 * 4 + unat c div 64) div 4 = unat (b :: byte)"
  "(unat a mod 4 * 16 + unat b div 16) mod 16 * 16 + (unat b mod 16 * 4) div 4 = unat b"
  "(unat b mod 16 * 4 + unat c div 64) mod 4 * 64 + unat c mod 64 = unat (c :: byte)"
proof -
  have q: "y < k \<Longrightarrow> (x * k + y) div k = x \<and> (x * k + y) mod k = y" for x y k :: nat by simp
  have "unat b div 16 < 16" "unat c div 64 < 4" using unat_byte [of b] unat_byte [of c] by auto
  note q [OF this(1), of "unat a mod 4"] q [OF this(2), of "unat b mod 16"]
  then show "unat a div 4 * 4 + (unat a mod 4 * 16 + unat b div 16) div 16 = unat a"
    "(unat a mod 4 * 16 + unat b div 16) mod 16 * 16 + (unat b mod 16 * 4 + unat c div 64) div 4 = unat b"
    "(unat a mod 4 * 16 + unat b div 16) mod 16 * 16 + (unat b mod 16 * 4) div 4 = unat b"
    "(unat b mod 16 * 4 + unat c div 64) mod 4 * 64 + unat c mod 64 = unat c"
    "unat a div 4 * 4 + (unat a mod 4 * 16) div 16 = unat a" by simp_all
qed

lemma of_nat_byte: "n = unat b \<Longrightarrow> of_nat n = (b :: byte)"
  by simp

lemma b64_decode_group:
  assumes "x < 64" "y < 64"
  shows "z < 64 \<Longrightarrow> w < 64 \<Longrightarrow> b64_decode (b64_char x # b64_char y # b64_char z # b64_char w # rest) =
      map_option (\<lambda>bs. of_nat (x * 4 + y div 16) # of_nat (y mod 16 * 16 + z div 4) # of_nat (z mod 4 * 64 + w) # bs) (b64_decode rest)"
    and "z < 64 \<Longrightarrow> b64_decode [b64_char x, b64_char y, b64_char z, CHR ''=''] =
      Some [of_nat (x * 4 + y div 16), of_nat (y mod 16 * 16 + z div 4)]"
    and "b64_decode [b64_char x, b64_char y, CHR ''='', CHR ''=''] = Some [of_nat (x * 4 + y div 16)]"
  using assms by (simp_all del: of_nat_add of_nat_mult split: option.split)

lemma b64_pad: "(3 - length (a # b # c # rest) mod 3) mod 3 = (3 - length rest mod 3) mod 3"
  by simp

lemma b64_std_groups:
  "b64_std (a # b # c # rest) = b64_char (unat a div 4) # b64_char (unat a mod 4 * 16 + unat b div 16) #
     b64_char (unat b mod 16 * 4 + unat c div 64) # b64_char (unat c mod 64) # b64_std rest"
  "b64_std [a] = [b64_char (unat a div 4), b64_char (unat a mod 4 * 16), CHR ''='', CHR ''='']"
  "b64_std [a, b] = [b64_char (unat a div 4), b64_char (unat a mod 4 * 16 + unat b div 16),
     b64_char (unat b mod 16 * 4), CHR ''='']"
  by (simp only: b64_std_def b64_raw.simps b64_pad append.simps) (simp_all add: b64_std_def numeral_2_eq_2)

lemma b64_roundtrip: "b64_decode (b64_std bs) = Some bs"
proof (induction bs rule: b64_raw.induct)
  case (4 a b c rest)
  show ?case
    unfolding b64_std_groups b64_decode_group(1) [OF byte_bounds(1-4)] 4 byte_merge by simp
next
  case (2 a)
  show ?case
    unfolding b64_std_groups b64_decode_group(3) [OF byte_bounds(1,5)] byte_merge by simp
next
  case (3 a b)
  show ?case
    unfolding b64_std_groups b64_decode_group(2) [OF byte_bounds(1,2,6)] byte_merge by simp
qed (simp add: b64_std_def)

lemma b64_std_graphic: "list_all graphic (b64_std bs)"
proof -
  have "list_all graphic (b64_raw bs)"
    by (induction bs rule: b64_raw.induct) (use byte_bounds b64_char_ok in auto)
  moreover have "graphic (CHR ''='')" by (simp add: graphic_def)
  ultimately show ?thesis by (auto simp: b64_std_def list_all_iff)
qed

lemma b64_std_empty: "b64_std bs = [] \<longleftrightarrow> bs = []"
  by (cases bs rule: b64_raw.cases) (simp_all add: b64_std_def)

text \<open>Text of graphic ASCII characters has no white space.\<close>

lemma graphic_space: "graphic c \<Longrightarrow> space_width (c # s) = 0"
proof -
  assume "graphic c"
  then have "of_char c \<ge> (33 :: nat)" "of_char c \<le> (126 :: nat)"
    by (simp_all add: graphic_def less_eq_char_def)
  then show ?thesis by (simp add: space_width_def split: list.split)
qed

lemma fields_graphic:
  "list_all graphic w \<Longrightarrow> fields_from cur (w @ s) = fields_from (rev w @ cur) s"
  by (induction w arbitrary: cur) (auto simp: graphic_space)

end
