(* ===== verification/State_Model.thy ===== *)
theory State_Model
  imports Go_Text
begin

text \<open>
  The persistent state of the gateway: the data of \<open>state/model.go\<close> with its queries and mutations, and
  the key functions of \<open>state/validate.go\<close> they use. A \<open>ZonedTime\<close> is its instant (the
  text it was read from is only kept for printing), a pointer that may be nil is an option, and a state is never
  nil. The messages of errors are not modelled, the branches are.
\<close>

section \<open>Data\<close>

record key_rec =
  ky_Fingerprint :: string
  ky_Pub :: string
  ky_Added :: instant

record person =
  pe_Name :: string
  pe_Role :: string
  pe_Keys :: "key_rec list"

record state_door =
  sd_ID :: string
  sd_PubKey :: string
  sd_Opened :: instant
  sd_Sessions :: "int option"
  sd_ClosesWhenIdle :: "instant option"
  sd_ClosesAtTheLatest :: "instant option"

record enrol_pending =
  ep_SecretHash :: "byte list"
  ep_PublicKey :: string
  ep_Expires :: instant

record pending_enrolment =
  pd_Name :: string
  pd_OSUser :: string
  pd_SecretHash :: "byte list"
  pd_PublicKey :: string
  pd_Expires :: instant

record bootstrap_pending =
  bp_SecretHash :: "byte list"
  bp_PublicKey :: string
  bp_Expires :: instant

record pairing_pending =
  pp_SecretHash :: "byte list"
  pp_Expires :: instant
  pp_Misses :: int

record machine_rec =
  mc_ID :: string
  mc_Name :: string
  mc_State :: string
  mc_MachineKey :: string
  mc_SSHDHostKey :: "string option"
  mc_ObservedSSHDHostKey :: "string option"
  mc_HostKeyStatus :: string
  mc_RequestedOSUser :: string
  mc_VerifiedOSUser :: "string option"
  mc_OSUserStatus :: string
  mc_OSUser :: string
  mc_Door :: "state_door option"
  mc_EnrolPending :: "enrol_pending option"

record grant_rec =
  gr_Person :: string
  gr_Machine :: string
  gr_MachineKeyFingerprint :: string
  gr_Until :: "instant option"
  gr_Caps :: "string list"

record goal_entry =
  ge_Goal :: string
  ge_SetAt :: instant

record goal_record =
  go_Person :: string
  go_Machine :: string
  go_Current :: string
  go_History :: "goal_entry list"

record recent_command =
  rc_Command :: string
  rc_Exit :: string
  rc_Response :: string
  rc_At :: instant

record command_history =
  ch_Person :: string
  ch_Machine :: string
  ch_Entries :: "recent_command list"

record risk_key_state =
  rk_Present :: bool
  rk_Fingerprint :: string

record gw_state =
  gs_Schema :: int
  gs_People :: "person list"
  gs_Machines :: "machine_rec list"
  gs_Grants :: "grant_rec list"
  gs_PendingEnrolments :: "pending_enrolment list"
  gs_BootstrapPending :: "bootstrap_pending option"
  gs_PairingPending :: "pairing_pending option"
  gs_Goals :: "goal_record list"
  gs_CommandHistory :: "command_history list"
  gs_ExternalRiskKey :: "risk_key_state option"

definition CurrentSchema :: int where "CurrentSchema = 1"
definition MaxGoalHistory :: nat where "MaxGoalHistory = 20"
definition MaxGoalBytes :: nat where "MaxGoalBytes = 4096"
definition MaxRecentCommands :: int where "MaxRecentCommands = 20"
definition RecentCommandBudgetOverhead :: int where "RecentCommandBudgetOverhead = 8"

definition NewState :: gw_state where
  "NewState = \<lparr>gs_Schema = CurrentSchema, gs_People = [], gs_Machines = [], gs_Grants = [], gs_PendingEnrolments = [],
     gs_BootstrapPending = None, gs_PairingPending = None, gs_Goals = [], gs_CommandHistory = [], gs_ExternalRiskKey = None\<rparr>"

section \<open>Public keys\<close>

datatype key_fault = KeyEmpty | KeyNotBase64 | KeyBodyEmpty | KeyNotWire | KeyMislabelled

definition decode_body :: "string \<Rightarrow> key_fault + byte list" where
  "decode_body encoded = (case b64_decode encoded of
     None \<Rightarrow> Inl KeyNotBase64
   | Some blob \<Rightarrow> if blob = [] then Inl KeyBodyEmpty else Inr blob)"

definition DecodeKeyBlob :: "string \<Rightarrow> key_fault + byte list" where
  "DecodeKeyBlob pub = (case Fields (TrimSpace pub) of
     [] \<Rightarrow> Inl KeyEmpty
   | [f] \<Rightarrow> decode_body f
   | _ # f # _ \<Rightarrow> decode_body f)"

definition ComputeFingerprint :: "string \<Rightarrow> key_fault + string" where
  "ComputeFingerprint pub = (case DecodeKeyBlob pub of
     Inl err \<Rightarrow> Inl err | Inr blob \<Rightarrow> Inr (''SHA256:'' @ b64_raw (sha256 blob)))"

definition blobAlgorithm :: "byte list \<Rightarrow> string option" where
  "blobAlgorithm blob =
    (if length blob < 4 then None
     else let n = uint (blob ! 0) * 2 ^ 24 + uint (blob ! 1) * 2 ^ 16 + uint (blob ! 2) * 2 ^ 8 + uint (blob ! 3)
          in if n \<le> 0 \<or> n > 64 \<or> 4 + n > int (length blob) then None
             else Some (string_of (take (nat n) (drop 4 blob))))"

definition ValidateKeyMaterial :: "string \<Rightarrow> key_fault option" where
  "ValidateKeyMaterial pub = (case DecodeKeyBlob pub of
     Inl err \<Rightarrow> Some err
   | Inr blob \<Rightarrow> (case blobAlgorithm blob of
       None \<Rightarrow> Some KeyNotWire
     | Some alg \<Rightarrow>
        (case Fields (TrimSpace pub) of
           label # _ # _ \<Rightarrow> if label \<noteq> alg then Some KeyMislabelled else None
         | _ \<Rightarrow> None)))"

text \<open>HMAC-SHA-256 under a 32-byte key; an all-zero key panics.\<close>

definition HashEnrolSecret :: "byte list \<Rightarrow> byte list \<Rightarrow> byte list option" where
  "HashEnrolSecret k raw =
    (if list_all (\<lambda>b. b = 0) k then None
     else let pad = k @ replicate (64 - length k) 0;
              inner = sha256 (map (\<lambda>b. xor b 0x36) pad @ raw)
          in Some (sha256 (map (\<lambda>b. xor b 0x5C) pad @ inner)))"

section \<open>Closed sets and defaults\<close>

definition HostKeyStatusUnverified :: string where "HostKeyStatusUnverified = ''unverified''"
definition HostKeyStatusMatch :: string where "HostKeyStatusMatch = ''match''"
definition HostKeyStatusMismatch :: string where "HostKeyStatusMismatch = ''mismatch''"
definition OSUserStatusPending :: string where "OSUserStatusPending = ''pending''"
definition OSUserStatusVerified :: string where "OSUserStatusVerified = ''verified''"
definition OSUserStatusRejected :: string where "OSUserStatusRejected = ''rejected''"

definition IsValidHostKeyStatus :: "string \<Rightarrow> bool" where
  "IsValidHostKeyStatus s \<longleftrightarrow> s \<in> {HostKeyStatusUnverified, HostKeyStatusMatch, HostKeyStatusMismatch}"

definition IsValidOSUserStatus :: "string \<Rightarrow> bool" where
  "IsValidOSUserStatus s \<longleftrightarrow> s \<in> {OSUserStatusPending, OSUserStatusVerified, OSUserStatusRejected}"

definition applySpecDefaults :: "machine_rec \<Rightarrow> machine_rec" where
  "applySpecDefaults m = m\<lparr>
     mc_HostKeyStatus := (if mc_HostKeyStatus m = '''' then HostKeyStatusUnverified else mc_HostKeyStatus m),
     mc_OSUserStatus := (if mc_OSUserStatus m = '''' then OSUserStatusPending else mc_OSUserStatus m)\<rparr>"

definition applyMachineDefaults :: "gw_state \<Rightarrow> gw_state" where
  "applyMachineDefaults s = s\<lparr>gs_Machines := map applySpecDefaults (gs_Machines s)\<rparr>"

definition applyGrantCapsCompat :: "gw_state \<Rightarrow> gw_state" where
  "applyGrantCapsCompat s = s\<lparr>gs_Grants := map (\<lambda>g.
     if length (gr_Caps g) < 2 then g
     else if list_all (\<lambda>c. c = ''shell'') (gr_Caps g) then g\<lparr>gr_Caps := [''shell'']\<rparr>
     else g) (gs_Grants s)\<rparr>"


section \<open>Copies\<close>

text \<open>
  \<open>Clone\<close> rebuilds every record field by field; here it is the identity, and the lemma below says that no field
  is forgotten.
\<close>

definition clone_person :: "person \<Rightarrow> person" where
  "clone_person p = \<lparr>pe_Name = pe_Name p, pe_Role = pe_Role p, pe_Keys = pe_Keys p\<rparr>"

definition clone_door :: "state_door \<Rightarrow> state_door" where
  "clone_door d = d\<lparr>sd_Sessions := sd_Sessions d, sd_ClosesWhenIdle := sd_ClosesWhenIdle d,
     sd_ClosesAtTheLatest := sd_ClosesAtTheLatest d\<rparr>"

definition clone_machine :: "machine_rec \<Rightarrow> machine_rec" where
  "clone_machine m =
    (let cp = \<lparr>mc_ID = mc_ID m, mc_Name = mc_Name m, mc_State = mc_State m, mc_MachineKey = mc_MachineKey m,
          mc_SSHDHostKey = None, mc_ObservedSSHDHostKey = None, mc_HostKeyStatus = mc_HostKeyStatus m,
          mc_RequestedOSUser = mc_RequestedOSUser m, mc_VerifiedOSUser = None, mc_OSUserStatus = mc_OSUserStatus m,
          mc_OSUser = mc_OSUser m, mc_Door = None, mc_EnrolPending = None\<rparr>;
         cp = (case mc_SSHDHostKey m of None \<Rightarrow> cp | Some v \<Rightarrow> cp\<lparr>mc_SSHDHostKey := Some v\<rparr>);
         cp = (case mc_ObservedSSHDHostKey m of None \<Rightarrow> cp | Some v \<Rightarrow> cp\<lparr>mc_ObservedSSHDHostKey := Some v\<rparr>);
         cp = (case mc_VerifiedOSUser m of None \<Rightarrow> cp | Some v \<Rightarrow> cp\<lparr>mc_VerifiedOSUser := Some v\<rparr>);
         cp = (case mc_Door m of None \<Rightarrow> cp | Some d \<Rightarrow> cp\<lparr>mc_Door := Some (clone_door d)\<rparr>)
     in case mc_EnrolPending m of None \<Rightarrow> cp | Some e \<Rightarrow> cp\<lparr>mc_EnrolPending := Some e\<rparr>)"

definition clone_grant :: "grant_rec \<Rightarrow> grant_rec" where
  "clone_grant g =
    (let cp = \<lparr>gr_Person = gr_Person g, gr_Machine = gr_Machine g, gr_MachineKeyFingerprint = gr_MachineKeyFingerprint g,
          gr_Until = None, gr_Caps = gr_Caps g\<rparr>
     in case gr_Until g of None \<Rightarrow> cp | Some u \<Rightarrow> cp\<lparr>gr_Until := Some u\<rparr>)"

definition cloneGoalRecord :: "goal_record \<Rightarrow> goal_record" where
  "cloneGoalRecord g = \<lparr>go_Person = go_Person g, go_Machine = go_Machine g, go_Current = go_Current g, go_History = go_History g\<rparr>"

definition cloneCommandHistoryRecord :: "command_history \<Rightarrow> command_history" where
  "cloneCommandHistoryRecord h = \<lparr>ch_Person = ch_Person h, ch_Machine = ch_Machine h, ch_Entries = ch_Entries h\<rparr>"

definition Clone :: "gw_state \<Rightarrow> gw_state" where
  "Clone s =
    (let cp = \<lparr>gs_Schema = gs_Schema s, gs_People = map clone_person (gs_People s), gs_Machines = map clone_machine (gs_Machines s),
          gs_Grants = map clone_grant (gs_Grants s), gs_PendingEnrolments = gs_PendingEnrolments s, gs_BootstrapPending = None,
          gs_PairingPending = None, gs_Goals = map cloneGoalRecord (gs_Goals s),
          gs_CommandHistory = map cloneCommandHistoryRecord (gs_CommandHistory s), gs_ExternalRiskKey = None\<rparr>;
         cp = (case gs_BootstrapPending s of None \<Rightarrow> cp | Some b \<Rightarrow> cp\<lparr>gs_BootstrapPending := Some b\<rparr>);
         cp = (case gs_PairingPending s of None \<Rightarrow> cp | Some p \<Rightarrow> cp\<lparr>gs_PairingPending := Some p\<rparr>)
     in case gs_ExternalRiskKey s of None \<Rightarrow> cp | Some k \<Rightarrow> cp\<lparr>gs_ExternalRiskKey := Some k\<rparr>)"

lemma clone_parts [simp]:
  "clone_person = id" "clone_machine = id" "clone_grant = id" "cloneGoalRecord = id" "cloneCommandHistoryRecord = id"
  by (auto simp: clone_person_def clone_machine_def clone_door_def clone_grant_def cloneGoalRecord_def
      cloneCommandHistoryRecord_def Let_def split: option.splits)

lemma Clone_id [simp]: "Clone s = s"
  by (simp add: Clone_def Let_def split: option.split)

section \<open>Queries\<close>

definition MachineByID :: "gw_state \<Rightarrow> string \<Rightarrow> machine_rec option" where
  "MachineByID s i = find (\<lambda>m. mc_ID m = i) (gs_Machines s)"

definition HasPerson :: "gw_state \<Rightarrow> string \<Rightarrow> bool" where
  "HasPerson s name \<longleftrightarrow> list_ex (\<lambda>p. pe_Name p = name) (gs_People s)"

definition HasAnyAdmin :: "gw_state \<Rightarrow> bool" where
  "HasAnyAdmin s \<longleftrightarrow> list_ex (\<lambda>p. pe_Role p = ''admin'') (gs_People s)"

definition FindEnrolPendingByKey :: "gw_state \<Rightarrow> string \<Rightarrow> (string \<times> enrol_pending) option" where
  "FindEnrolPendingByKey s pubKey =
    (case find (\<lambda>m. case mc_EnrolPending m of None \<Rightarrow> False | Some e \<Rightarrow> ep_PublicKey e = pubKey) (gs_Machines s) of
       None \<Rightarrow> None | Some m \<Rightarrow> map_option (\<lambda>e. (mc_ID m, e)) (mc_EnrolPending m))"

definition FindPendingEnrolmentBySecretHash :: "gw_state \<Rightarrow> byte list \<Rightarrow> pending_enrolment option" where
  "FindPendingEnrolmentBySecretHash s hash = find (\<lambda>e. pd_SecretHash e = hash) (gs_PendingEnrolments s)"

definition FindPendingEnrolmentByFingerprint :: "gw_state \<Rightarrow> string \<Rightarrow> pending_enrolment option" where
  "FindPendingEnrolmentByFingerprint s fingerprint =
    (if fingerprint = '''' then None
     else find (\<lambda>e. ComputeFingerprint (pd_PublicKey e) = Inr fingerprint) (gs_PendingEnrolments s))"

definition GoalFor :: "gw_state \<Rightarrow> string \<Rightarrow> string \<Rightarrow> goal_record option" where
  "GoalFor s person machine =
     map_option cloneGoalRecord (find (\<lambda>g. go_Person g = person \<and> go_Machine g = machine) (gs_Goals s))"

definition RecentCommandsFor :: "gw_state \<Rightarrow> string \<Rightarrow> string \<Rightarrow> command_history option" where
  "RecentCommandsFor s person machine =
     map_option cloneCommandHistoryRecord
       (find (\<lambda>h. ch_Person h = person \<and> ch_Machine h = machine) (gs_CommandHistory s))"

section \<open>Goals\<close>

datatype goal_fault = GoalNotUtf8 | GoalTooLong | GoalHasNul

definition ValidateGoalText :: "string \<Rightarrow> goal_fault option" where
  "ValidateGoalText goal =
    (if \<not> ValidString goal then Some GoalNotUtf8
     else if length goal > MaxGoalBytes then Some GoalTooLong
     else if CHR 0x00 \<in> set goal then Some GoalHasNul
     else None)"

datatype model_error = PersonMissing | MachineMissing | BadGoal goal_fault | EmptyCommand | ZeroTimestamp
  | BadMachineKey key_fault | AlreadyGranted | NameTaken

text \<open>A record of a pair is changed in place, or appended when the pair has none.\<close>

fun upd_or_append :: "('a \<Rightarrow> bool) \<Rightarrow> 'a \<Rightarrow> ('a \<Rightarrow> 'a) \<Rightarrow> 'a list \<Rightarrow> 'a list" where
  "upd_or_append P new f [] = [f new]"
| "upd_or_append P new f (x # xs) = (if P x then f x # xs else x # upd_or_append P new f xs)"

definition put_goal :: "string \<Rightarrow> instant \<Rightarrow> goal_record \<Rightarrow> goal_record" where
  "put_goal goal now r =
    (if goal = '''' then r\<lparr>go_Current := ''''\<rparr>
     else r\<lparr>go_Current := goal,
           go_History := take MaxGoalHistory (\<lparr>ge_Goal = goal, ge_SetAt = now\<rparr> # go_History r)\<rparr>)"

definition SetGoal :: "gw_state \<Rightarrow> string \<Rightarrow> string \<Rightarrow> string \<Rightarrow> instant \<Rightarrow> model_error + (gw_state \<times> goal_record)" where
  "SetGoal s person machine goal now =
    (if \<not> HasPerson s person then Inl PersonMissing
     else if MachineByID s machine = None then Inl MachineMissing
     else case ValidateGoalText goal of
       Some err \<Rightarrow> Inl (BadGoal err)
     | None \<Rightarrow> (case ValidateGoalText (TrimSpace goal) of
         Some err \<Rightarrow> Inl (BadGoal err)
       | None \<Rightarrow>
          (let s' = s\<lparr>gs_Goals := upd_or_append (\<lambda>g. go_Person g = person \<and> go_Machine g = machine)
                 \<lparr>go_Person = person, go_Machine = machine, go_Current = '''', go_History = []\<rparr>
                 (put_goal (TrimSpace goal) now) (gs_Goals s)\<rparr>
           in Inr (s', the (GoalFor s' person machine)))))"

section \<open>Recent commands\<close>

fun cut_down :: "string \<Rightarrow> nat \<Rightarrow> nat" where
  "cut_down s 0 = 0"
| "cut_down s (Suc n) = (if RuneStart (s ! Suc n) then Suc n else cut_down s n)"

definition utf8Cut :: "string \<Rightarrow> int \<Rightarrow> nat" where
  "utf8Cut s limit = (if limit \<ge> int (length s) then length s else cut_down s (nat limit))"

definition ellipsis :: string where "ellipsis = [CHR 0xE2, CHR 0x80, CHR 0xA6]"

definition command_cost :: "recent_command \<Rightarrow> int" where
  "command_cost e = int (length (rc_Command e)) + int (length (rc_Response e)) + int (length (rc_Exit e)) +
     RecentCommandBudgetOverhead"

definition truncateRecentCommand :: "recent_command \<Rightarrow> int \<Rightarrow> recent_command" where
  "truncateRecentCommand e budget =
    (let base = int (length (rc_Command e)) + int (length (rc_Exit e)) + RecentCommandBudgetOverhead in
     if base > budget then
       (let keep = budget - int (length (rc_Exit e)) - RecentCommandBudgetOverhead - int (length ellipsis);
            keep = (if keep < 0 then 0 else keep)
        in e\<lparr>rc_Command := take (utf8Cut (rc_Command e) keep) (rc_Command e) @ ellipsis, rc_Response := ''''\<rparr>)
     else
       (let room = budget - base - int (length ellipsis); room = (if room < 0 then 0 else room)
        in e\<lparr>rc_Response := take (utf8Cut (rc_Response e) room) (rc_Response e) @ ellipsis\<rparr>))"

fun keep_within :: "int \<Rightarrow> int \<Rightarrow> recent_command list \<Rightarrow> recent_command list" where
  "keep_within used budget [] = []"
| "keep_within used budget (e # es) =
    (if used + command_cost e \<le> budget then e # keep_within (used + command_cost e) budget es else [])"

text \<open>Slicing to a negative maximum panics: \<open>None\<close>.\<close>

definition TrimRecentCommands :: "recent_command list \<Rightarrow> int \<Rightarrow> int \<Rightarrow> recent_command list option" where
  "TrimRecentCommands entries maxCommands budget =
    (if maxCommands < 0 then None
     else let budget = (if budget < 1 then 1 else budget) in
       Some (case take (nat maxCommands) entries of
           [] \<Rightarrow> []
         | e # es \<Rightarrow>
            (let e' = (if command_cost e > budget then truncateRecentCommand e budget else e)
             in e' # keep_within (command_cost e') budget es)))"

definition clamp_commands :: "int \<Rightarrow> int" where
  "clamp_commands n = (let n = (if n < 1 then 1 else n) in if n > MaxRecentCommands then MaxRecentCommands else n)"

definition RecordCommand :: "gw_state \<Rightarrow> string \<Rightarrow> string \<Rightarrow> recent_command \<Rightarrow> int \<Rightarrow> int \<Rightarrow>
    model_error + (gw_state \<times> command_history)" where
  "RecordCommand s person machine entry maxCommands budget =
    (if \<not> HasPerson s person then Inl PersonMissing
     else if MachineByID s machine = None then Inl MachineMissing
     else if TrimSpace (rc_Command entry) = '''' then Inl EmptyCommand
     else if isZero (rc_At entry) then Inl ZeroTimestamp
     else
      (let s' = s\<lparr>gs_CommandHistory := upd_or_append (\<lambda>h. ch_Person h = person \<and> ch_Machine h = machine)
                 \<lparr>ch_Person = person, ch_Machine = machine, ch_Entries = []\<rparr>
                 (\<lambda>h. h\<lparr>ch_Entries := the (TrimRecentCommands (entry # ch_Entries h) (clamp_commands maxCommands) budget)\<rparr>)
                 (gs_CommandHistory s)\<rparr>
       in Inr (s', the (RecentCommandsFor s' person machine))))"


section \<open>Grants and names\<close>

definition is_pair :: "string \<Rightarrow> string \<Rightarrow> grant_rec \<Rightarrow> bool" where
  "is_pair person machineID g \<longleftrightarrow> gr_Person g = person \<and> gr_Machine g = machineID"

definition GrantAccess :: "gw_state \<Rightarrow> string \<Rightarrow> string \<Rightarrow> instant option \<Rightarrow> string list \<Rightarrow> model_error + gw_state" where
  "GrantAccess s person machineID until caps =
    (if \<not> HasPerson s person then Inl PersonMissing
     else case MachineByID s machineID of
       None \<Rightarrow> Inl MachineMissing
     | Some m \<Rightarrow>
        (case ComputeFingerprint (mc_MachineKey m) of
           Inl err \<Rightarrow> Inl (BadMachineKey err)
         | Inr fp \<Rightarrow>
            if list_ex (is_pair person machineID) (gs_Grants s) then Inl AlreadyGranted
            else
             (let caps = (if caps = [] then [''shell''] else caps)
              in Inr (s\<lparr>gs_Grants := gs_Grants s @ [\<lparr>gr_Person = person, gr_Machine = machineID,
                   gr_MachineKeyFingerprint = fp, gr_Until = until, gr_Caps = caps\<rparr>]\<rparr>))))"

text \<open>The loops that act on the first grant of a pair and stop.\<close>

fun upd_first :: "('a \<Rightarrow> bool) \<Rightarrow> ('a \<Rightarrow> 'a) \<Rightarrow> 'a list \<Rightarrow> 'a list" where
  "upd_first P f [] = []"
| "upd_first P f (x # xs) = (if P x then f x # xs else x # upd_first P f xs)"

fun del_first :: "('a \<Rightarrow> bool) \<Rightarrow> 'a list \<Rightarrow> 'a list" where
  "del_first P [] = []"
| "del_first P (x # xs) = (if P x then xs else x # del_first P xs)"

definition RevokeAccess :: "gw_state \<Rightarrow> string \<Rightarrow> string \<Rightarrow> gw_state \<times> bool" where
  "RevokeAccess s person machineID =
    (if list_ex (is_pair person machineID) (gs_Grants s)
     then (s\<lparr>gs_Grants := del_first (is_pair person machineID) (gs_Grants s)\<rparr>, True)
     else (s, False))"

definition SetGrantCaps :: "gw_state \<Rightarrow> string \<Rightarrow> string \<Rightarrow> string list \<Rightarrow> gw_state \<times> string option" where
  "SetGrantCaps s person machineID caps =
    (case find (is_pair person machineID) (gs_Grants s) of
       None \<Rightarrow> (s, None)
     | Some g \<Rightarrow> (s\<lparr>gs_Grants := upd_first (is_pair person machineID) (\<lambda>g. g\<lparr>gr_Caps := caps\<rparr>) (gs_Grants s)\<rparr>,
         Some (case gr_Caps g of [] \<Rightarrow> '''' | c # _ \<Rightarrow> c)))"

definition SetGrantUntil :: "gw_state \<Rightarrow> string \<Rightarrow> string \<Rightarrow> instant option \<Rightarrow> gw_state \<times> instant option option" where
  "SetGrantUntil s person machineID until =
    (case find (is_pair person machineID) (gs_Grants s) of
       None \<Rightarrow> (s, None)
     | Some g \<Rightarrow> (s\<lparr>gs_Grants := upd_first (is_pair person machineID) (\<lambda>g. g\<lparr>gr_Until := until\<rparr>) (gs_Grants s)\<rparr>,
         Some (gr_Until g)))"

definition RenamePerson :: "gw_state \<Rightarrow> string \<Rightarrow> string \<Rightarrow> model_error + (gw_state \<times> bool)" where
  "RenamePerson s src dst =
    (if \<not> HasPerson s src then Inr (s, False)
     else if HasPerson s dst then Inl NameTaken
     else Inr (s\<lparr>
        gs_People := map (\<lambda>p. if pe_Name p = src then p\<lparr>pe_Name := dst\<rparr> else p) (gs_People s),
        gs_Grants := map (\<lambda>g. if gr_Person g = src then g\<lparr>gr_Person := dst\<rparr> else g) (gs_Grants s),
        gs_Goals := map (\<lambda>g. if go_Person g = src then g\<lparr>go_Person := dst\<rparr> else g) (gs_Goals s)\<rparr>, True))"

definition RenameMachine :: "gw_state \<Rightarrow> string \<Rightarrow> string \<Rightarrow> model_error + (gw_state \<times> bool)" where
  "RenameMachine s i name =
    (if MachineByID s i = None then Inr (s, False)
     else if list_ex (\<lambda>m. mc_ID m \<noteq> i \<and> (mc_Name m = name \<or> mc_ID m = name)) (gs_Machines s) then Inl NameTaken
     else Inr (s\<lparr>gs_Machines := map (\<lambda>m. if mc_ID m = i then m\<lparr>mc_Name := name\<rparr> else m) (gs_Machines s)\<rparr>, True))"

section \<open>Reconciliation\<close>

datatype revocation_reason = RevokedMachineRemoved | RevokedMachineRekeyed | RevokedPersonRemoved

record revocation =
  rv_Person :: string
  rv_Machine :: string
  rv_PinnedKeyFP :: string
  rv_CurrentKeyFP :: string
  rv_Caps :: "string list"
  rv_Reason :: revocation_reason

type_synonym grant_pair = "string \<times> string"

abbreviation pair_of :: "grant_rec \<Rightarrow> grant_pair" where
  "pair_of g \<equiv> (gr_Person g, gr_Machine g)"

text \<open>A map filled by a loop: a later entry of the same key replaces an earlier one.\<close>

definition prev_grants :: "gw_state \<Rightarrow> grant_pair \<Rightarrow> grant_rec option" where
  "prev_grants prev = map_of (rev (map (\<lambda>g. (pair_of g, g)) (gs_Grants prev)))"

definition machine_fps :: "gw_state \<Rightarrow> string \<Rightarrow> string option" where
  "machine_fps s = map_of (rev (map (\<lambda>m. (mc_ID m,
     case ComputeFingerprint (mc_MachineKey m) of Inl _ \<Rightarrow> '''' | Inr fp \<Rightarrow> fp)) (gs_Machines s)))"

definition reconcile_grant :: "gw_state \<Rightarrow> gw_state \<Rightarrow> grant_rec \<Rightarrow> grant_rec + revocation" where
  "reconcile_grant prev draft g =
    (case prev_grants prev (pair_of g) of
       None \<Rightarrow>
         Inl (if gr_MachineKeyFingerprint g = '''' then
                (case machine_fps draft (gr_Machine g) of
                   Some fp \<Rightarrow> if fp \<noteq> '''' then g\<lparr>gr_MachineKeyFingerprint := fp\<rparr> else g
                 | None \<Rightarrow> g)
              else g)
     | Some old \<Rightarrow>
        (let g = g\<lparr>gr_MachineKeyFingerprint := gr_MachineKeyFingerprint old\<rparr>;
             rv = \<lparr>rv_Person = gr_Person g, rv_Machine = gr_Machine g, rv_PinnedKeyFP = gr_MachineKeyFingerprint g,
               rv_CurrentKeyFP = '''', rv_Caps = gr_Caps g, rv_Reason = RevokedPersonRemoved\<rparr>
         in if \<not> HasPerson draft (gr_Person g) then Inr rv
            else case machine_fps draft (gr_Machine g) of
              None \<Rightarrow> Inr (rv\<lparr>rv_Reason := RevokedMachineRemoved\<rparr>)
            | Some fp \<Rightarrow>
                if fp \<noteq> gr_MachineKeyFingerprint g
                then Inr (rv\<lparr>rv_CurrentKeyFP := fp, rv_Reason := RevokedMachineRekeyed\<rparr>)
                else Inl g))"

fun partition_sum :: "('a + 'b) list \<Rightarrow> 'a list \<times> 'b list" where
  "partition_sum [] = ([], [])"
| "partition_sum (Inl a # r) = (case partition_sum r of (as, bs) \<Rightarrow> (a # as, bs))"
| "partition_sum (Inr b # r) = (case partition_sum r of (as, bs) \<Rightarrow> (as, b # bs))"

definition reconcileGrants :: "gw_state \<Rightarrow> gw_state \<Rightarrow> gw_state \<times> revocation list" where
  "reconcileGrants prev draft =
    (case partition_sum (map (reconcile_grant prev draft) (gs_Grants draft)) of
       (kept, revocations) \<Rightarrow> (draft\<lparr>gs_Grants := kept\<rparr>, revocations))"

definition reconcileGoals :: "gw_state \<Rightarrow> gw_state" where
  "reconcileGoals draft = draft\<lparr>gs_Goals :=
     filter (\<lambda>g. HasPerson draft (go_Person g) \<and> MachineByID draft (go_Machine g) \<noteq> None) (gs_Goals draft)\<rparr>"

definition reconcileRecentCommands :: "gw_state \<Rightarrow> gw_state" where
  "reconcileRecentCommands draft = draft\<lparr>gs_CommandHistory :=
     filter (\<lambda>h. HasPerson draft (ch_Person h) \<and> MachineByID draft (ch_Machine h) \<noteq> None) (gs_CommandHistory draft)\<rparr>"

end
