(* ===== verification/State_Validate.thy ===== *)
theory State_Validate
  imports State_Model Username
begin

text \<open>
  The rules of \<open>state/validate.go\<close>: names, operating-system users, door deadlines and \<open>Validate\<close>, the check every
  state passes before it is kept. \<open>Validate\<close> is written as the source has it, one error per rule in the order of
  the rules, with the sets it fills on the way; \<open>wf_state\<close> below it is what the rules mean.
\<close>

section \<open>Sequences of checks\<close>

definition fail_if :: "bool \<Rightarrow> 'e \<Rightarrow> 'e option" where
  "fail_if b e = (if b then Some e else None)"

fun first_of :: "'e option list \<Rightarrow> 'e option" where
  "first_of [] = None"
| "first_of (None # cs) = first_of cs"
| "first_of (Some e # cs) = Some e"

definition check :: "'e option \<Rightarrow> 'e + 'a \<Rightarrow> 'e + 'a" where
  "check c k = (case c of Some e \<Rightarrow> Inl e | None \<Rightarrow> k)"

definition sbind :: "'e + 'a \<Rightarrow> ('a \<Rightarrow> 'e + 'b) \<Rightarrow> 'e + 'b" where
  "sbind x f = (case x of Inl e \<Rightarrow> Inl e | Inr a \<Rightarrow> f a)"

fun check_all :: "('a \<Rightarrow> 's \<Rightarrow> 'e + 's) \<Rightarrow> 'a list \<Rightarrow> 's \<Rightarrow> 'e + 's" where
  "check_all f [] s = Inr s"
| "check_all f (x # xs) s = sbind (f x s) (check_all f xs)"

text \<open>
  The maps a loop fills to notice duplicates are one list of tagged entries; \<open>claim\<close> adds an entry or reports
  that it is taken.
\<close>

datatype seen = SeenPerson string | SeenFP string | SeenID string | SeenName string | SeenHash "byte list" | SeenPair string

definition claim :: "seen \<Rightarrow> 'e \<Rightarrow> seen list \<Rightarrow> 'e + seen list" where
  "claim x e sn = (if x \<in> set sn then Inl e else Inr (sn @ [x]))"

section \<open>Names and users\<close>

datatype name_fault = NameEmpty | NameTooLong | NameNonASCII | NameSpace | NameUpper | NameFirst | NamePattern

fun scan_name :: "string \<Rightarrow> name_fault option" where
  "scan_name [] = None"
| "scan_name (r # rs) =
    (if of_char r > (127 :: nat) then Some NameNonASCII
     else if of_char r \<in> {9, 10, 11, 12, 13, 32 :: nat} then Some NameSpace
     else if CHR ''A'' \<le> r \<and> r \<le> CHR ''Z'' then Some NameUpper
     else scan_name rs)"

definition ValidateName :: "string \<Rightarrow> name_fault option" where
  "ValidateName name =
    (if name = '''' then Some NameEmpty
     else if length name > 32 then Some NameTooLong
     else case scan_name name of
       Some err \<Rightarrow> Some err
     | None \<Rightarrow>
        if \<not> name_first (hd name) then Some NameFirst
        else if \<not> nameRe name then Some NamePattern
        else None)"

datatype os_fault = UserEmpty | UserForm | UserPartLong | UserChar | UserLong | UserFirst

definition windowsPrincipalByte :: "char \<Rightarrow> bool" where
  "windowsPrincipalByte c \<longleftrightarrow> in_range (CHR ''a'') (CHR ''z'') c \<or> in_range (CHR ''A'') (CHR ''Z'') c \<or>
     in_range (CHR ''0'') (CHR ''9'') c \<or> c \<in> {CHR ''.'', CHR ''_'', CHR ''-'', CHR ''@'', CHR ''$''}"

definition posix_char :: "char \<Rightarrow> bool" where
  "posix_char c \<longleftrightarrow> in_range (CHR ''a'') (CHR ''z'') c \<or> in_range (CHR ''0'') (CHR ''9'') c \<or> c = CHR ''_'' \<or> c = CHR ''-''"

fun principal_parts :: "string list \<Rightarrow> os_fault option" where
  "principal_parts [] = None"
| "principal_parts (p # ps) =
    (if length p > 64 then Some UserPartLong
     else if \<not> list_all windowsPrincipalByte p then Some UserChar
     else principal_parts ps)"

definition ValidateOSUser :: "string \<Rightarrow> os_fault option" where
  "ValidateOSUser user =
    (let trimmed = TrimSpace user in
     if trimmed = '''' then Some UserEmpty
     else if CHR 0x5C \<in> set trimmed then
       (let parts = split_char (CHR 0x5C) trimmed in
        if length parts \<noteq> 2 \<or> parts ! 0 = '''' \<or> parts ! 1 = '''' then Some UserForm
        else principal_parts parts)
     else if length trimmed > 32 then Some UserLong
     else if \<not> (CHR ''a'' \<le> hd trimmed \<and> hd trimmed \<le> CHR ''z'' \<or> hd trimmed = CHR ''_'') then Some UserFirst
     else if \<not> list_all posix_char (tl trimmed) then Some UserChar
     else None)"

section \<open>Door deadlines\<close>

definition after_opt :: "instant option \<Rightarrow> instant option \<Rightarrow> bool" where
  "after_opt a b = (case (a, b) of (Some x, Some y) \<Rightarrow> x > y | _ \<Rightarrow> False)"

text \<open>True when the two deadlines do not contradict each other.\<close>

definition ValidateDeadlinePair :: "instant option \<Rightarrow> instant option \<Rightarrow> bool" where
  "ValidateDeadlinePair idle ceiling = (\<not> after_opt idle ceiling)"

definition prev_doors :: "gw_state \<Rightarrow> string \<Rightarrow> state_door option" where
  "prev_doors prev = map_of (rev (List.map_filter (\<lambda>m. map_option (\<lambda>d. (mc_ID m, d)) (mc_Door m)) (gs_Machines prev)))"

definition stale_field :: "instant \<Rightarrow> instant option \<Rightarrow> instant option \<Rightarrow> bool" where
  "stale_field now was new = (case new of None \<Rightarrow> False | Some t \<Rightarrow> was \<noteq> Some t \<and> \<not> t > now)"

definition stale_door :: "gw_state \<Rightarrow> instant \<Rightarrow> machine_rec \<Rightarrow> bool" where
  "stale_door prev now m = (case mc_Door m of
     None \<Rightarrow> False
   | Some d \<Rightarrow>
      (let (wasIdle, wasCeiling) =
            (case prev_doors prev (mc_ID m) of
               Some old \<Rightarrow> if sd_ID old = sd_ID d then (sd_ClosesWhenIdle old, sd_ClosesAtTheLatest old) else (None, None)
             | None \<Rightarrow> (None, None))
       in stale_field now wasIdle (sd_ClosesWhenIdle d) \<or> stale_field now wasCeiling (sd_ClosesAtTheLatest d)))"

definition checkFreshDoorDeadlines :: "gw_state \<Rightarrow> gw_state \<Rightarrow> instant \<Rightarrow> bool" where
  "checkFreshDoorDeadlines prev draft now \<longleftrightarrow> \<not> list_ex (stale_door prev now) (gs_Machines draft)"


section \<open>Validate\<close>

datatype key_rule = NoFingerprint | NoBody | NoAdded | Material key_fault | FingerprintWrong | FingerprintShared

datatype machine_rule = IDDuplicate | NameDuplicate | StateBad | NoMachineKey | OSUserStatusBad | OSUserBad os_fault
  | NameIsAnotherID

datatype host_key_rule = StatusBad | Observed | NotObserved | PinMissing | Undecodable key_fault | Unequal

datatype door_rule = NoDoorID | NoDoorKey | OpenedZero | SessionsNegative | DeadlinesBad

datatype secret_rule = HashBad | NoSecretKey | NoExpiry | HashDuplicate

datatype ref_rule = NoPerson | NoMachine | ByName | PairDuplicate

datatype goal_rule = TextBad goal_fault | NotNewest | HistoryLong | EmptyGoal | NoSetAt

datatype history_rule = TooManyCommands | NoCommandText | NoCommandTime

datatype risk_key_rule = RiskKeyAbsent | RiskKeyNoFingerprint | RiskKeyLong

datatype grant_rule = NotPinned | PinStale | CapsBad

datatype validate_error = SchemaUnsupported | BadName name_fault | PersonDuplicate | PersonRole
  | KeyRule key_rule | MachineRule machine_rule | HostKeyRule host_key_rule | DoorRule door_rule | SecretRule secret_rule
  | RefRule ref_rule | GoalRule goal_rule | HistoryRule history_rule | RiskKeyRule risk_key_rule | GrantRule grant_rule

text \<open>The fingerprint of a key, entered into the one namespace all keys share.\<close>

definition claim_key :: "string \<Rightarrow> seen list \<Rightarrow> validate_error + seen list" where
  "claim_key pub sn = (case ComputeFingerprint pub of
     Inl e \<Rightarrow> Inl (KeyRule (Material e)) | Inr fp \<Rightarrow> claim (SeenFP fp) (KeyRule FingerprintShared) sn)"

definition validate_key :: "key_rec \<Rightarrow> seen list \<Rightarrow> validate_error + seen list" where
  "validate_key k sn =
    check (first_of [
        fail_if (TrimSpace (ky_Fingerprint k) = '''') (KeyRule NoFingerprint),
        fail_if (TrimSpace (ky_Pub k) = '''') (KeyRule NoBody),
        fail_if (isZero (ky_Added k)) (KeyRule NoAdded),
        map_option (KeyRule \<circ> Material) (ValidateKeyMaterial (ky_Pub k))])
      (case ComputeFingerprint (ky_Pub k) of
         Inl e \<Rightarrow> Inl (KeyRule (Material e))
       | Inr computed \<Rightarrow>
           check (fail_if (computed \<noteq> ky_Fingerprint k) (KeyRule FingerprintWrong)) (claim (SeenFP computed) (KeyRule FingerprintShared) sn))"

definition validate_person :: "person \<Rightarrow> seen list \<Rightarrow> validate_error + seen list" where
  "validate_person p sn =
    check (map_option BadName (ValidateName (pe_Name p)))
      (sbind (claim (SeenPerson (pe_Name p)) PersonDuplicate sn)
        (\<lambda>sn. check (fail_if (pe_Role p \<noteq> ''user'' \<and> pe_Role p \<noteq> ''admin'') PersonRole)
          (check_all validate_key (pe_Keys p) sn)))"

definition host_key_rules :: "machine_rec \<Rightarrow> validate_error option" where
  "host_key_rules m =
    (if mc_HostKeyStatus m = '''' then None
     else if mc_HostKeyStatus m = HostKeyStatusUnverified then
       fail_if (mc_ObservedSSHDHostKey m \<noteq> None) (HostKeyRule Observed)
     else if mc_HostKeyStatus m = HostKeyStatusMatch \<or> mc_HostKeyStatus m = HostKeyStatusMismatch then
       (case mc_ObservedSSHDHostKey m of
          None \<Rightarrow> Some (HostKeyRule NotObserved)
        | Some obs \<Rightarrow> (case mc_SSHDHostKey m of
            None \<Rightarrow> Some (HostKeyRule PinMissing)
          | Some pin \<Rightarrow>
             if mc_HostKeyStatus m = HostKeyStatusMatch then
               (case DecodeKeyBlob pin of
                  Inl e \<Rightarrow> Some (HostKeyRule (Undecodable e))
                | Inr a \<Rightarrow> (case DecodeKeyBlob obs of
                    Inl e \<Rightarrow> Some (HostKeyRule (Undecodable e))
                  | Inr b \<Rightarrow> fail_if (a \<noteq> b) (HostKeyRule Unequal)))
             else None))
     else None)"

definition validate_door :: "state_door \<Rightarrow> seen list \<Rightarrow> validate_error + seen list" where
  "validate_door d sn =
    check (first_of [
        fail_if (TrimSpace (sd_ID d) = '''') (DoorRule NoDoorID),
        fail_if (TrimSpace (sd_PubKey d) = '''') (DoorRule NoDoorKey),
        map_option (KeyRule \<circ> Material) (ValidateKeyMaterial (sd_PubKey d))])
      (sbind (claim_key (sd_PubKey d) sn)
        (\<lambda>sn. check (first_of [
            fail_if (isZero (sd_Opened d)) (DoorRule OpenedZero),
            fail_if (case sd_Sessions d of Some n \<Rightarrow> n < 0 | None \<Rightarrow> False) (DoorRule SessionsNegative),
            fail_if (\<not> ValidateDeadlinePair (sd_ClosesWhenIdle d) (sd_ClosesAtTheLatest d)) (DoorRule DeadlinesBad),
            fail_if (after_opt (Some (sd_Opened d)) (sd_ClosesWhenIdle d)) (DoorRule DeadlinesBad),
            fail_if (after_opt (Some (sd_Opened d)) (sd_ClosesAtTheLatest d)) (DoorRule DeadlinesBad)])
          (Inr sn)))"

text \<open>The rules the three kinds of one-time secrets share.\<close>

definition validate_secret :: "byte list \<Rightarrow> string \<Rightarrow> instant \<Rightarrow> seen list \<Rightarrow> validate_error + seen list" where
  "validate_secret hash pub expires sn =
    check (first_of [
        fail_if (length hash \<noteq> 32) (SecretRule HashBad),
        fail_if (TrimSpace pub = '''') (SecretRule NoSecretKey),
        map_option (KeyRule \<circ> Material) (ValidateKeyMaterial pub),
        fail_if (isZero expires) (SecretRule NoExpiry)])
      (claim_key pub sn)"

definition validate_machine :: "machine_rec \<Rightarrow> seen list \<Rightarrow> validate_error + seen list" where
  "validate_machine m sn =
    check (first_of [map_option BadName (ValidateName (mc_ID m)), map_option BadName (ValidateName (mc_Name m)),
        fail_if (SeenID (mc_ID m) \<in> set sn) (MachineRule IDDuplicate)])
     (sbind (claim (SeenName (mc_Name m)) (MachineRule NameDuplicate) sn)
      (\<lambda>sn. sbind (claim (SeenID (mc_ID m)) (MachineRule IDDuplicate) sn)
       (\<lambda>sn. check (first_of [
            fail_if (mc_State m \<noteq> ''enrolled'' \<and> mc_State m \<noteq> ''verified'') (MachineRule StateBad),
            fail_if (TrimSpace (mc_MachineKey m) = '''') (MachineRule NoMachineKey),
            fail_if (mc_HostKeyStatus m \<noteq> '''' \<and> \<not> IsValidHostKeyStatus (mc_HostKeyStatus m)) (HostKeyRule StatusBad),
            host_key_rules m,
            fail_if (mc_OSUserStatus m \<noteq> '''' \<and> \<not> IsValidOSUserStatus (mc_OSUserStatus m)) (MachineRule OSUserStatusBad),
            map_option (KeyRule \<circ> Material) (ValidateKeyMaterial (mc_MachineKey m))])
        (sbind (claim_key (mc_MachineKey m) sn)
         (\<lambda>sn. check (map_option (MachineRule \<circ> OSUserBad) (ValidateOSUser (mc_OSUser m)))
          (sbind (case mc_Door m of None \<Rightarrow> Inr sn | Some d \<Rightarrow> validate_door d sn)
           (\<lambda>sn. case mc_EnrolPending m of
              None \<Rightarrow> Inr sn
            | Some e \<Rightarrow> validate_secret (ep_SecretHash e) (ep_PublicKey e) (ep_Expires e) sn)))))))"

definition validate_pending :: "pending_enrolment \<Rightarrow> seen list \<Rightarrow> validate_error + seen list" where
  "validate_pending pe sn =
    check (fail_if (length (pd_SecretHash pe) \<noteq> 32) (SecretRule HashBad))
      (sbind (claim (SeenHash (pd_SecretHash pe)) (SecretRule HashDuplicate) sn)
        (validate_secret (pd_SecretHash pe) (pd_PublicKey pe) (pd_Expires pe)))"

definition ref_pair :: "string \<Rightarrow> string \<Rightarrow> string" where
  "ref_pair person machine = person @ [CHR 0x00] @ machine"

text \<open>The rules goals, histories and grants share for the pair they belong to.\<close>

definition validate_ref :: "bool \<Rightarrow> string \<Rightarrow> string \<Rightarrow> seen list \<Rightarrow> validate_error option" where
  "validate_ref by_name person machine sn =
    first_of [map_option BadName (ValidateName person), map_option BadName (ValidateName machine),
      fail_if (SeenPerson person \<notin> set sn) (RefRule NoPerson),
      fail_if (by_name \<and> SeenID machine \<notin> set sn \<and> SeenName machine \<in> set sn) (RefRule ByName),
      fail_if (SeenID machine \<notin> set sn) (RefRule NoMachine)]"

definition goal_entry_rules :: "goal_entry \<Rightarrow> validate_error option" where
  "goal_entry_rules e = first_of [fail_if (TrimSpace (ge_Goal e) = '''') (GoalRule EmptyGoal),
     map_option (GoalRule \<circ> TextBad) (ValidateGoalText (ge_Goal e)), fail_if (isZero (ge_SetAt e)) (GoalRule NoSetAt)]"

definition validate_goal :: "seen list \<Rightarrow> goal_record \<Rightarrow> seen list \<Rightarrow> validate_error + seen list" where
  "validate_goal ids g sn =
    check (validate_ref False (go_Person g) (go_Machine g) ids)
      (sbind (claim (SeenPair (ref_pair (go_Person g) (go_Machine g))) (RefRule PairDuplicate) sn)
        (\<lambda>sn. check (first_of ([
            map_option (GoalRule \<circ> TextBad) (ValidateGoalText (go_Current g)),
            fail_if (go_Current g \<noteq> '''' \<and> (go_History g = [] \<or> ge_Goal (hd (go_History g)) \<noteq> go_Current g)) (GoalRule NotNewest),
            fail_if (length (go_History g) > MaxGoalHistory) (GoalRule HistoryLong)] @ map goal_entry_rules (go_History g)))
          (Inr sn)))"

definition command_rules :: "recent_command \<Rightarrow> validate_error option" where
  "command_rules e = first_of [fail_if (TrimSpace (rc_Command e) = '''') (HistoryRule NoCommandText),
     fail_if (isZero (rc_At e)) (HistoryRule NoCommandTime)]"

definition validate_history :: "seen list \<Rightarrow> command_history \<Rightarrow> seen list \<Rightarrow> validate_error + seen list" where
  "validate_history ids h sn =
    check (validate_ref False (ch_Person h) (ch_Machine h) ids)
      (sbind (claim (SeenPair (ref_pair (ch_Person h) (ch_Machine h))) (RefRule PairDuplicate) sn)
        (\<lambda>sn. check (first_of ([
            fail_if (int (length (ch_Entries h)) > MaxRecentCommands) (HistoryRule TooManyCommands)] @ map command_rules (ch_Entries h)))
          (Inr sn)))"

definition validate_risk_key :: "risk_key_state option \<Rightarrow> validate_error option" where
  "validate_risk_key k = (case k of
     None \<Rightarrow> None
   | Some k \<Rightarrow>
      if \<not> rk_Present k then fail_if (rk_Fingerprint k \<noteq> '''') (RiskKeyRule RiskKeyAbsent)
      else if TrimSpace (rk_Fingerprint k) = '''' then Some (RiskKeyRule RiskKeyNoFingerprint)
      else fail_if (length (rk_Fingerprint k) > 128) (RiskKeyRule RiskKeyLong))"

definition validate_grant :: "(string \<Rightarrow> string option) \<Rightarrow> seen list \<Rightarrow> grant_rec \<Rightarrow> seen list \<Rightarrow> validate_error + seen list" where
  "validate_grant machineFPs ids g sn =
    check (first_of [validate_ref True (gr_Person g) (gr_Machine g) ids,
        fail_if (TrimSpace (gr_MachineKeyFingerprint g) = '''') (GrantRule NotPinned),
        fail_if (machineFPs (gr_Machine g) \<noteq> Some (gr_MachineKeyFingerprint g)) (GrantRule PinStale)])
      (sbind (claim (SeenPair (ref_pair (gr_Person g) (gr_Machine g))) (RefRule PairDuplicate) sn)
        (\<lambda>sn. check (fail_if (gr_Caps g \<noteq> [''shell''] \<and> gr_Caps g \<noteq> [''exec'']) (GrantRule CapsBad)) (Inr sn)))"

text \<open>The identities and secrets, in the order their keys are entered, and then everything that refers to them.\<close>

definition validate_ids :: "gw_state \<Rightarrow> validate_error + seen list" where
  "validate_ids s =
    check (fail_if (gs_Schema s \<noteq> CurrentSchema) SchemaUnsupported)
     (sbind (check_all validate_person (gs_People s) [])
      (\<lambda>sn. sbind (check_all validate_machine (gs_Machines s) sn)
       (\<lambda>sn. sbind (case gs_BootstrapPending s of None \<Rightarrow> Inr sn
             | Some b \<Rightarrow> validate_secret (bp_SecretHash b) (bp_PublicKey b) (bp_Expires b) sn)
        (check_all validate_pending (gs_PendingEnrolments s)))))"

definition validate_refs :: "gw_state \<Rightarrow> seen list \<Rightarrow> validate_error + seen list" where
  "validate_refs s ids =
    check (fail_if (list_ex (\<lambda>m. mc_Name m \<noteq> mc_ID m \<and> SeenID (mc_Name m) \<in> set ids) (gs_Machines s)) (MachineRule NameIsAnotherID))
     (sbind (check_all (validate_goal ids) (gs_Goals s) [])
      (\<lambda>_. sbind (check_all (validate_history ids) (gs_CommandHistory s) [])
       (\<lambda>_. check (validate_risk_key (gs_ExternalRiskKey s))
         (check_all (validate_grant (machine_fps s) ids) (gs_Grants s) []))))"

definition Validate :: "gw_state \<Rightarrow> validate_error option" where
  "Validate s = (case sbind (validate_ids s) (validate_refs s) of Inl e \<Rightarrow> Some e | Inr _ \<Rightarrow> None)"


section \<open>What the checks mean\<close>

named_theorems checks

lemma check_Inr [checks]: "check c k = Inr v \<longleftrightarrow> c = None \<and> k = Inr v"
  by (auto simp: check_def split: option.split)

lemma sbind_Inr [checks]: "sbind x f = Inr v \<longleftrightarrow> (\<exists>a. x = Inr a \<and> f a = Inr v)"
  by (auto simp: sbind_def split: sum.split)

lemma claim_Inr [checks]: "claim x e sn = Inr sn' \<longleftrightarrow> x \<notin> set sn \<and> sn' = sn @ [x]"
  by (auto simp: claim_def)

lemma fail_if_None [checks]: "fail_if b e = None \<longleftrightarrow> \<not> b"
  by (simp add: fail_if_def)

lemma first_of_None [checks]:
  "first_of (c # cs) = None \<longleftrightarrow> c = None \<and> first_of cs = None"
  "first_of (map f xs) = None \<longleftrightarrow> (\<forall>x \<in> set xs. f x = None)"
  by (cases c, simp_all) (induction xs, simp_all, case_tac "f a", simp_all)

definition fp_of :: "string \<Rightarrow> string" where
  "fp_of pub = (case ComputeFingerprint pub of Inl _ \<Rightarrow> '''' | Inr fp \<Rightarrow> fp)"

lemma claim_key_Inr [checks]:
  "claim_key pub sn = Inr sn' \<longleftrightarrow> ComputeFingerprint pub = Inr (fp_of pub) \<and> SeenFP (fp_of pub) \<notin> set sn \<and>
     sn' = sn @ [SeenFP (fp_of pub)]"
  by (auto simp: claim_key_def fp_of_def claim_Inr split: sum.split)

text \<open>The contract of one step of a loop that checks an item and enters what it claims.\<close>

definition fresh :: "seen list \<Rightarrow> seen list \<Rightarrow> bool" where
  "fresh xs sn \<longleftrightarrow> distinct xs \<and> set xs \<inter> set sn = {}"

lemma fresh_simps [simp]:
  "fresh [] sn" "fresh (x # xs) sn \<longleftrightarrow> x \<notin> set sn \<and> fresh xs (sn @ [x])" "fresh (xs @ ys) sn \<longleftrightarrow> fresh xs sn \<and> fresh ys (sn @ xs)"
  by (auto simp: fresh_def)

locale threaded_check =
  fixes step :: "'a \<Rightarrow> seen list \<Rightarrow> 'e + seen list" and ok :: "'a \<Rightarrow> bool" and items :: "'a \<Rightarrow> seen list"
  assumes step_Inr: "step x sn = Inr sn' \<longleftrightarrow> ok x \<and> fresh (items x) sn \<and> sn' = sn @ items x"
begin

lemma check_all_Inr:
  "check_all step xs sn = Inr sn' \<longleftrightarrow> (\<forall>x \<in> set xs. ok x) \<and> fresh (concat (map items xs)) sn \<and> sn' = sn @ concat (map items xs)"
  by (induction xs arbitrary: sn) (auto simp: sbind_Inr step_Inr)

end

lemma material_fp: "ValidateKeyMaterial pub = None \<Longrightarrow> ComputeFingerprint pub = Inr (fp_of pub)"
  by (auto simp: ValidateKeyMaterial_def ComputeFingerprint_def fp_of_def split: sum.splits)

lemma material_nonblank: "ValidateKeyMaterial pub = None \<Longrightarrow> TrimSpace pub \<noteq> ''''"
  by (auto simp: ValidateKeyMaterial_def DecodeKeyBlob_def Fields_def)

definition wf_key :: "key_rec \<Rightarrow> bool" where
  "wf_key k \<longleftrightarrow> ky_Added k \<noteq> 0 \<and> ValidateKeyMaterial (ky_Pub k) = None \<and> ky_Fingerprint k = fp_of (ky_Pub k)"

lemma trim_left_graphic: "graphic c \<Longrightarrow> trim_left (c # s) = c # s"
  by (simp add: trim_left.simps [of "c # s"] graphic_space)

lemma last_space_width_graphic: "graphic c \<Longrightarrow> last_space_width (c # s) \<le> length s"
  using graphic_space [of c s] graphic_space [of c "[]"]
  by (cases s; cases "tl s"; cases "tl (tl s)") (auto simp: last_space_width_def)

lemma trim_end_graphic: "graphic c \<Longrightarrow> \<exists>t. trim_end (c # s) = c # t"
proof (induction s rule: length_induct)
  case (1 s)
  show ?case
  proof (cases "last_space_width (c # s) = 0")
    case True
    then show ?thesis by (simp add: trim_end.simps [of "c # s"])
  next
    case False
    define w where "w = last_space_width (c # s)"
    have "0 < w" "w \<le> length s" using False last_space_width_graphic [OF 1(2), of s] by (simp_all add: w_def)
    then have "take (length (c # s) - w) (c # s) = c # take (length s - w) s"
      by (simp add: Suc_diff_le)
    moreover have "\<exists>t. trim_end (c # take (length s - w) s) = c # t"
      using 1 \<open>0 < w\<close> \<open>w \<le> length s\<close> by (simp)
    ultimately show ?thesis using False by (simp add: trim_end.simps [of "c # s"] w_def)
  qed
qed

lemma TrimSpace_graphic: "graphic c \<Longrightarrow> TrimSpace (c # s) \<noteq> ''''"
  using trim_end_graphic [of c s] by (auto simp: TrimSpace_def trim_left_graphic)

lemma fp_of_nonblank: "ComputeFingerprint pub = Inr (fp_of pub) \<Longrightarrow> TrimSpace (fp_of pub) \<noteq> ''''"
  by (auto simp: ComputeFingerprint_def fp_of_def graphic_def intro!: TrimSpace_graphic split: sum.splits)

interpretation key_check: threaded_check validate_key wf_key "\<lambda>k. [SeenFP (ky_Fingerprint k)]"
proof
  fix k sn sn'
  show "validate_key k sn = Inr sn' \<longleftrightarrow> wf_key k \<and> fresh [SeenFP (ky_Fingerprint k)] sn \<and> sn' = sn @ [SeenFP (ky_Fingerprint k)]"
    using material_fp [of "ky_Pub k"] material_nonblank [of "ky_Pub k"] fp_of_nonblank [of "ky_Pub k"]
    by (auto simp: validate_key_def wf_key_def checks isZero_def)
qed

lemma scan_name_None: "list_all name_char s \<Longrightarrow> scan_name s = None"
  by (induction s) (auto simp: name_char_def name_first_def less_eq_char_def)

lemma ValidateName_exact [checks]: "ValidateName n = None \<longleftrightarrow> nameRe n"
proof -
  have "scan_name n = None" if "nameRe n"
    using that by (intro scan_name_None) (auto simp: nameRe_def name_char_def split: list.splits)
  moreover have "n \<noteq> ''''" "length n \<le> 32" "name_first (hd n)" if "nameRe n"
    using that by (auto simp: nameRe_def split: list.splits)
  ultimately show ?thesis by (auto simp: ValidateName_def split: option.split)
qed


section \<open>Well-formed states\<close>

definition wf_person :: "person \<Rightarrow> bool" where
  "wf_person p \<longleftrightarrow> nameRe (pe_Name p) \<and> pe_Role p \<in> {''user'', ''admin''} \<and> (\<forall>k \<in> set (pe_Keys p). wf_key k)"

definition wf_host_key :: "machine_rec \<Rightarrow> bool" where
  "wf_host_key m \<longleftrightarrow>
     mc_HostKeyStatus m = '''' \<or>
     mc_HostKeyStatus m = HostKeyStatusUnverified \<and> mc_ObservedSSHDHostKey m = None \<or>
     mc_HostKeyStatus m = HostKeyStatusMatch \<and>
       (\<exists>pin obs blob. mc_SSHDHostKey m = Some pin \<and> mc_ObservedSSHDHostKey m = Some obs \<and>
          DecodeKeyBlob pin = Inr blob \<and> DecodeKeyBlob obs = Inr blob) \<or>
     mc_HostKeyStatus m = HostKeyStatusMismatch \<and> mc_SSHDHostKey m \<noteq> None \<and> mc_ObservedSSHDHostKey m \<noteq> None"

definition wf_door :: "state_door \<Rightarrow> bool" where
  "wf_door d \<longleftrightarrow> TrimSpace (sd_ID d) \<noteq> '''' \<and> ValidateKeyMaterial (sd_PubKey d) = None \<and> sd_Opened d \<noteq> 0 \<and>
     (\<forall>n. sd_Sessions d = Some n \<longrightarrow> 0 \<le> n) \<and>
     (\<forall>t. sd_ClosesWhenIdle d = Some t \<or> sd_ClosesAtTheLatest d = Some t \<longrightarrow> sd_Opened d \<le> t) \<and>
     (\<forall>t u. sd_ClosesWhenIdle d = Some t \<longrightarrow> sd_ClosesAtTheLatest d = Some u \<longrightarrow> t \<le> u)"

definition wf_secret :: "byte list \<Rightarrow> string \<Rightarrow> instant \<Rightarrow> bool" where
  "wf_secret hash pub expires \<longleftrightarrow> length hash = 32 \<and> ValidateKeyMaterial pub = None \<and> expires \<noteq> 0"

definition wf_machine :: "machine_rec \<Rightarrow> bool" where
  "wf_machine m \<longleftrightarrow> nameRe (mc_ID m) \<and> nameRe (mc_Name m) \<and> mc_State m \<in> {''enrolled'', ''verified''} \<and>
     ValidateKeyMaterial (mc_MachineKey m) = None \<and> wf_host_key m \<and>
     (mc_OSUserStatus m = '''' \<or> IsValidOSUserStatus (mc_OSUserStatus m)) \<and> ValidateOSUser (mc_OSUser m) = None \<and>
     (\<forall>d. mc_Door m = Some d \<longrightarrow> wf_door d) \<and>
     (\<forall>e. mc_EnrolPending m = Some e \<longrightarrow> wf_secret (ep_SecretHash e) (ep_PublicKey e) (ep_Expires e))"

definition wf_pending :: "pending_enrolment \<Rightarrow> bool" where
  "wf_pending e \<longleftrightarrow> wf_secret (pd_SecretHash e) (pd_PublicKey e) (pd_Expires e)"

definition machine_keys :: "machine_rec \<Rightarrow> string list" where
  "machine_keys m = mc_MachineKey m # (case mc_Door m of None \<Rightarrow> [] | Some d \<Rightarrow> [sd_PubKey d]) @
     (case mc_EnrolPending m of None \<Rightarrow> [] | Some e \<Rightarrow> [ep_PublicKey e])"

definition person_items :: "person \<Rightarrow> seen list" where
  "person_items p = SeenPerson (pe_Name p) # map (\<lambda>k. SeenFP (ky_Fingerprint k)) (pe_Keys p)"

definition machine_items :: "machine_rec \<Rightarrow> seen list" where
  "machine_items m = SeenName (mc_Name m) # SeenID (mc_ID m) # map (SeenFP \<circ> fp_of) (machine_keys m)"

definition pending_items :: "pending_enrolment \<Rightarrow> seen list" where
  "pending_items e = [SeenHash (pd_SecretHash e), SeenFP (fp_of (pd_PublicKey e))]"

interpretation person_check: threaded_check validate_person wf_person person_items
  by unfold_locales
    (auto simp: validate_person_def wf_person_def person_items_def checks key_check.check_all_Inr comp_def)

lemma host_key_rules_None:
  "(mc_HostKeyStatus m = '''' \<or> IsValidHostKeyStatus (mc_HostKeyStatus m)) \<and> host_key_rules m = None \<longleftrightarrow> wf_host_key m"
  by (auto simp: host_key_rules_def wf_host_key_def IsValidHostKeyStatus_def HostKeyStatusUnverified_def
      HostKeyStatusMatch_def HostKeyStatusMismatch_def checks split: option.splits sum.splits if_splits)

lemma validate_door_Inr [checks]:
  "validate_door d sn = Inr sn' \<longleftrightarrow> wf_door d \<and> SeenFP (fp_of (sd_PubKey d)) \<notin> set sn \<and> sn' = sn @ [SeenFP (fp_of (sd_PubKey d))]"
  using material_fp [of "sd_PubKey d"] material_nonblank [of "sd_PubKey d"]
  by (auto simp: validate_door_def wf_door_def checks isZero_def ValidateDeadlinePair_def after_opt_def not_less
      split: option.splits)

lemma validate_secret_Inr [checks]:
  "validate_secret hash pub e sn = Inr sn' \<longleftrightarrow> wf_secret hash pub e \<and> SeenFP (fp_of pub) \<notin> set sn \<and> sn' = sn @ [SeenFP (fp_of pub)]"
  using material_fp [of pub] material_nonblank [of pub]
  by (auto simp: validate_secret_def wf_secret_def checks isZero_def)

interpretation machine_check: threaded_check validate_machine wf_machine machine_items
proof
  fix m sn sn'
  show "validate_machine m sn = Inr sn' \<longleftrightarrow> wf_machine m \<and> fresh (machine_items m) sn \<and> sn' = sn @ machine_items m"
    using material_fp [of "mc_MachineKey m"] material_nonblank [of "mc_MachineKey m"] host_key_rules_None [of m]
    by (cases "mc_Door m"; cases "mc_EnrolPending m")
      (auto simp: validate_machine_def wf_machine_def machine_items_def machine_keys_def checks)
qed

interpretation pending_check: threaded_check validate_pending wf_pending pending_items
  by unfold_locales (auto simp: validate_pending_def wf_pending_def pending_items_def checks wf_secret_def)


definition wf_goal :: "goal_record \<Rightarrow> bool" where
  "wf_goal g \<longleftrightarrow> ValidateGoalText (go_Current g) = None \<and> length (go_History g) \<le> MaxGoalHistory \<and>
     (go_Current g \<noteq> '''' \<longrightarrow> (\<exists>e es. go_History g = e # es \<and> ge_Goal e = go_Current g)) \<and>
     (\<forall>e \<in> set (go_History g). TrimSpace (ge_Goal e) \<noteq> '''' \<and> ValidateGoalText (ge_Goal e) = None \<and> ge_SetAt e \<noteq> 0)"

definition wf_history :: "command_history \<Rightarrow> bool" where
  "wf_history h \<longleftrightarrow> int (length (ch_Entries h)) \<le> MaxRecentCommands \<and>
     (\<forall>e \<in> set (ch_Entries h). TrimSpace (rc_Command e) \<noteq> '''' \<and> rc_At e \<noteq> 0)"

definition wf_grant :: "gw_state \<Rightarrow> grant_rec \<Rightarrow> bool" where
  "wf_grant s g \<longleftrightarrow> gr_Caps g \<in> {[''shell''], [''exec'']} \<and>
     (\<exists>m \<in> set (gs_Machines s). mc_ID m = gr_Machine g \<and> fp_of (mc_MachineKey m) = gr_MachineKeyFingerprint g)"

definition all_fps :: "gw_state \<Rightarrow> string list" where
  "all_fps s = concat (map (\<lambda>p. map ky_Fingerprint (pe_Keys p)) (gs_People s)) @
     map fp_of (concat (map machine_keys (gs_Machines s))) @
     (case gs_BootstrapPending s of None \<Rightarrow> [] | Some b \<Rightarrow> [fp_of (bp_PublicKey b)]) @
     map (\<lambda>e. fp_of (pd_PublicKey e)) (gs_PendingEnrolments s)"

definition refers :: "gw_state \<Rightarrow> string \<Rightarrow> string \<Rightarrow> bool" where
  "refers s person machine \<longleftrightarrow> person \<in> pe_Name ` set (gs_People s) \<and> machine \<in> mc_ID ` set (gs_Machines s)"

definition wf_risk_key :: "risk_key_state \<Rightarrow> bool" where
  "wf_risk_key k \<longleftrightarrow> (if rk_Present k then TrimSpace (rk_Fingerprint k) \<noteq> '''' \<and> length (rk_Fingerprint k) \<le> 128
     else rk_Fingerprint k = '''')"

text \<open>The identities of a state, and what refers to them.\<close>

definition wf_ids :: "gw_state \<Rightarrow> bool" where
  "wf_ids s \<longleftrightarrow> gs_Schema s = CurrentSchema \<and>
     (\<forall>p \<in> set (gs_People s). wf_person p) \<and> distinct (map pe_Name (gs_People s)) \<and>
     (\<forall>m \<in> set (gs_Machines s). wf_machine m) \<and> distinct (map mc_ID (gs_Machines s)) \<and> distinct (map mc_Name (gs_Machines s)) \<and>
     (\<forall>b. gs_BootstrapPending s = Some b \<longrightarrow> wf_secret (bp_SecretHash b) (bp_PublicKey b) (bp_Expires b)) \<and>
     (\<forall>e \<in> set (gs_PendingEnrolments s). wf_pending e) \<and> distinct (map pd_SecretHash (gs_PendingEnrolments s)) \<and>
     distinct (all_fps s)"

definition wf_refs :: "gw_state \<Rightarrow> bool" where
  "wf_refs s \<longleftrightarrow>
     (\<forall>m \<in> set (gs_Machines s). mc_Name m \<in> mc_ID ` set (gs_Machines s) \<longrightarrow> mc_Name m = mc_ID m) \<and>
     (\<forall>g \<in> set (gs_Goals s). refers s (go_Person g) (go_Machine g) \<and> wf_goal g) \<and>
     distinct (map (\<lambda>g. (go_Person g, go_Machine g)) (gs_Goals s)) \<and>
     (\<forall>h \<in> set (gs_CommandHistory s). refers s (ch_Person h) (ch_Machine h) \<and> wf_history h) \<and>
     distinct (map (\<lambda>h. (ch_Person h, ch_Machine h)) (gs_CommandHistory s)) \<and>
     (\<forall>k. gs_ExternalRiskKey s = Some k \<longrightarrow> wf_risk_key k) \<and>
     (\<forall>g \<in> set (gs_Grants s). refers s (gr_Person g) (gr_Machine g) \<and> wf_grant s g) \<and>
     distinct (map pair_of (gs_Grants s))"

definition wf_state :: "gw_state \<Rightarrow> bool" where
  "wf_state s \<longleftrightarrow> wf_ids s \<and> wf_refs s"

definition ref_ok :: "seen list \<Rightarrow> string \<Rightarrow> string \<Rightarrow> bool" where
  "ref_ok ids person machine \<longleftrightarrow> nameRe person \<and> nameRe machine \<and> SeenPerson person \<in> set ids \<and> SeenID machine \<in> set ids"

lemma validate_ref_None [checks]: "validate_ref by_name person machine ids = None \<longleftrightarrow> ref_ok ids person machine"
  by (auto simp: validate_ref_def ref_ok_def checks)

lemma goal_rules_None [checks]:
  "goal_entry_rules e = None \<longleftrightarrow> TrimSpace (ge_Goal e) \<noteq> '''' \<and> ValidateGoalText (ge_Goal e) = None \<and> ge_SetAt e \<noteq> 0"
  "command_rules c = None \<longleftrightarrow> TrimSpace (rc_Command c) \<noteq> '''' \<and> rc_At c \<noteq> 0"
  by (auto simp: goal_entry_rules_def command_rules_def checks isZero_def)

interpretation goal_check: threaded_check "validate_goal ids"
    "\<lambda>g. ref_ok ids (go_Person g) (go_Machine g) \<and> wf_goal g" "\<lambda>g. [SeenPair (ref_pair (go_Person g) (go_Machine g))]" for ids
proof
  fix g sn sn'
  show "validate_goal ids g sn = Inr sn' \<longleftrightarrow> (ref_ok ids (go_Person g) (go_Machine g) \<and> wf_goal g) \<and>
     fresh [SeenPair (ref_pair (go_Person g) (go_Machine g))] sn \<and> sn' = sn @ [SeenPair (ref_pair (go_Person g) (go_Machine g))]"
    by (cases "go_History g") (auto simp: validate_goal_def wf_goal_def checks)
qed

interpretation history_check: threaded_check "validate_history ids"
    "\<lambda>h. ref_ok ids (ch_Person h) (ch_Machine h) \<and> wf_history h" "\<lambda>h. [SeenPair (ref_pair (ch_Person h) (ch_Machine h))]" for ids
  by unfold_locales (auto simp: validate_history_def wf_history_def checks)

definition pinned_ok :: "(string \<Rightarrow> string option) \<Rightarrow> grant_rec \<Rightarrow> bool" where
  "pinned_ok fps g \<longleftrightarrow> gr_Caps g \<in> {[''shell''], [''exec'']} \<and> TrimSpace (gr_MachineKeyFingerprint g) \<noteq> '''' \<and>
     fps (gr_Machine g) = Some (gr_MachineKeyFingerprint g)"

interpretation grant_check: threaded_check "validate_grant fps ids"
    "\<lambda>g. ref_ok ids (gr_Person g) (gr_Machine g) \<and> pinned_ok fps g" "\<lambda>g. [SeenPair (ref_pair (gr_Person g) (gr_Machine g))]" for fps ids
  by unfold_locales (auto simp: validate_grant_def pinned_ok_def checks)

lemma validate_risk_key_None [checks]: "validate_risk_key k = None \<longleftrightarrow> (\<forall>r. k = Some r \<longrightarrow> wf_risk_key r)"
  by (auto simp: validate_risk_key_def wf_risk_key_def checks split: option.splits)


section \<open>Validate is well-formedness\<close>

text \<open>A list of tagged entries is duplicate-free when each of its namespaces is.\<close>

definition only :: "(seen \<Rightarrow> 'a option) \<Rightarrow> seen list \<Rightarrow> 'a list" where
  "only f sn = concat (map (\<lambda>x. case f x of None \<Rightarrow> [] | Some a \<Rightarrow> [a]) sn)"

lemma only_simps [simp]:
  "only f [] = []" "only f (x # sn) = (case f x of None \<Rightarrow> [] | Some a \<Rightarrow> [a]) @ only f sn"
  "only f (sn @ sn') = only f sn @ only f sn'"
  by (simp_all add: only_def)

lemma only_concat [simp]: "only f (concat (map g xs)) = concat (map (\<lambda>x. only f (g x)) xs)"
  by (induction xs) simp_all

lemma only_map [simp]: "only f (map g xs) = concat (map (\<lambda>x. case f (g x) of None \<Rightarrow> [] | Some a \<Rightarrow> [a]) xs)"
  by (simp add: only_def comp_def)

fun as_person where "as_person (SeenPerson x) = Some x" | "as_person _ = None"
fun as_fp where "as_fp (SeenFP x) = Some x" | "as_fp _ = None"
fun as_id where "as_id (SeenID x) = Some x" | "as_id _ = None"
fun as_name where "as_name (SeenName x) = Some x" | "as_name _ = None"
fun as_hash where "as_hash (SeenHash x) = Some x" | "as_hash _ = None"
fun as_pair where "as_pair (SeenPair x) = Some x" | "as_pair _ = None"

lemma mem_only:
  "SeenPerson x \<in> set sn \<longleftrightarrow> x \<in> set (only as_person sn)" "SeenFP x \<in> set sn \<longleftrightarrow> x \<in> set (only as_fp sn)"
  "SeenID x \<in> set sn \<longleftrightarrow> x \<in> set (only as_id sn)" "SeenName x \<in> set sn \<longleftrightarrow> x \<in> set (only as_name sn)"
  "SeenHash y \<in> set sn \<longleftrightarrow> y \<in> set (only as_hash sn)" "SeenPair x \<in> set sn \<longleftrightarrow> x \<in> set (only as_pair sn)"
proof -
  have mem: "C x \<in> set sn \<longleftrightarrow> x \<in> set (only f sn)" if "\<And>y z. f y = Some z \<longleftrightarrow> y = C z" for f :: "seen \<Rightarrow> 'b option" and C x
  proof (induction sn)
    case (Cons y sn)
    have "C x = y \<longleftrightarrow> f y = Some x" using that by metis
    with Cons show ?case by (auto split: option.split)
  qed simp
  have as: "as_person y = Some z \<longleftrightarrow> y = SeenPerson z" "as_fp y = Some z \<longleftrightarrow> y = SeenFP z" "as_id y = Some z \<longleftrightarrow> y = SeenID z"
    "as_name y = Some z \<longleftrightarrow> y = SeenName z" "as_hash y = Some w \<longleftrightarrow> y = SeenHash w" "as_pair y = Some z \<longleftrightarrow> y = SeenPair z" for y z w
    by (cases y; simp)+
  show "SeenPerson x \<in> set sn \<longleftrightarrow> x \<in> set (only as_person sn)" by (rule mem [OF as(1)])
  show "SeenFP x \<in> set sn \<longleftrightarrow> x \<in> set (only as_fp sn)" by (rule mem [OF as(2)])
  show "SeenID x \<in> set sn \<longleftrightarrow> x \<in> set (only as_id sn)" by (rule mem [OF as(3)])
  show "SeenName x \<in> set sn \<longleftrightarrow> x \<in> set (only as_name sn)" by (rule mem [OF as(4)])
  show "SeenHash y \<in> set sn \<longleftrightarrow> y \<in> set (only as_hash sn)" by (rule mem [OF as(5)])
  show "SeenPair x \<in> set sn \<longleftrightarrow> x \<in> set (only as_pair sn)" by (rule mem [OF as(6)])
qed

lemma distinct_only:
  "distinct sn \<longleftrightarrow> distinct (only as_person sn) \<and> distinct (only as_fp sn) \<and> distinct (only as_id sn) \<and>
     distinct (only as_name sn) \<and> distinct (only as_hash sn) \<and> distinct (only as_pair sn)"
proof (induction sn)
  case (Cons x sn)
  then show ?case by (cases x) (auto simp: mem_only)
qed simp

definition state_items :: "gw_state \<Rightarrow> seen list" where
  "state_items s = concat (map person_items (gs_People s)) @ concat (map machine_items (gs_Machines s)) @
     (case gs_BootstrapPending s of None \<Rightarrow> [] | Some b \<Rightarrow> [SeenFP (fp_of (bp_PublicKey b))]) @
     concat (map pending_items (gs_PendingEnrolments s))"

lemma concat_single [simp]: "concat (map (\<lambda>x. [f x]) xs) = map f xs" "concat (map (\<lambda>x. []) xs) = []"
  by (induction xs) simp_all

lemma state_items_only:
  "only as_person (state_items s) = map pe_Name (gs_People s)"
  "only as_id (state_items s) = map mc_ID (gs_Machines s)"
  "only as_name (state_items s) = map mc_Name (gs_Machines s)"
  "only as_hash (state_items s) = map pd_SecretHash (gs_PendingEnrolments s)"
  "only as_pair (state_items s) = []"
  "only as_fp (state_items s) = all_fps s"
  by (simp_all add: state_items_def person_items_def machine_items_def pending_items_def all_fps_def comp_def map_concat
      split: option.split)

lemma ref_pair_eq:
  assumes "nameRe p" "nameRe p'"
  shows "ref_pair p m = ref_pair p' m' \<longleftrightarrow> p = p' \<and> m = m'"
proof -
  have nul: "CHR 0x00 \<notin> set q" if "nameRe q" for q
    using that by (auto simp: nameRe_def list_all_iff name_char_def name_first_def split: list.splits)
  have "takeWhile (\<lambda>c. c \<noteq> CHR 0x00) (ref_pair q n) = q" if "nameRe q" for q n
    using nul [OF that] unfolding ref_pair_def by (subst takeWhile_append2) auto
  then have "p = p'" if "ref_pair p m = ref_pair p' m'" using assms that by metis
  then show ?thesis by (auto simp: ref_pair_def)
qed

lemma distinct_pairs:
  assumes "\<forall>x \<in> set xs. nameRe (f x)"
  shows "fresh (concat (map (\<lambda>x. [SeenPair (ref_pair (f x) (g x))]) xs)) [] \<longleftrightarrow> distinct (map (\<lambda>x. (f x, g x)) xs)"
proof -
  have "inj_on (\<lambda>(p, m). SeenPair (ref_pair p m)) ((\<lambda>x. (f x, g x)) ` set xs)"
    using assms by (auto simp: inj_on_def ref_pair_eq)
  then have "distinct (map (\<lambda>x. SeenPair (ref_pair (f x) (g x))) xs) \<longleftrightarrow> distinct (map (\<lambda>x. (f x, g x)) xs)"
    using distinct_map [of "\<lambda>(p, m). SeenPair (ref_pair p m)" "map (\<lambda>x. (f x, g x)) xs"] by (simp add: comp_def)
  then show ?thesis by (simp add: fresh_def)
qed

lemma machine_fps_wf:
  assumes "distinct (map mc_ID (gs_Machines s))"
  shows "machine_fps s i = Some fp \<longleftrightarrow> (\<exists>m \<in> set (gs_Machines s). mc_ID m = i \<and> fp_of (mc_MachineKey m) = fp)"
proof -
  have "distinct (map fst (rev (map (\<lambda>m. (mc_ID m, fp_of (mc_MachineKey m))) (gs_Machines s))))"
    using assms by (simp add: rev_map [symmetric] comp_def)
  then show ?thesis unfolding machine_fps_def fp_of_def [symmetric]
    by (subst map_of_eq_Some_iff) auto
qed


definition ids_ok :: "gw_state \<Rightarrow> bool" where
  "ids_ok s \<longleftrightarrow> gs_Schema s = CurrentSchema \<and> (\<forall>p \<in> set (gs_People s). wf_person p) \<and>
     (\<forall>m \<in> set (gs_Machines s). wf_machine m) \<and>
     (\<forall>b. gs_BootstrapPending s = Some b \<longrightarrow> wf_secret (bp_SecretHash b) (bp_PublicKey b) (bp_Expires b)) \<and>
     (\<forall>e \<in> set (gs_PendingEnrolments s). wf_pending e) \<and> fresh (state_items s) []"

lemma validate_ids_Inr: "validate_ids s = Inr sn \<longleftrightarrow> ids_ok s \<and> sn = state_items s"
  by (cases "gs_BootstrapPending s")
    (auto simp: validate_ids_def ids_ok_def checks person_check.check_all_Inr machine_check.check_all_Inr
      pending_check.check_all_Inr state_items_def)

definition refs_ok :: "gw_state \<Rightarrow> seen list \<Rightarrow> bool" where
  "refs_ok s ids \<longleftrightarrow>
     (\<forall>m \<in> set (gs_Machines s). SeenID (mc_Name m) \<in> set ids \<longrightarrow> mc_Name m = mc_ID m) \<and>
     (\<forall>g \<in> set (gs_Goals s). ref_ok ids (go_Person g) (go_Machine g) \<and> wf_goal g) \<and>
     distinct (map (\<lambda>g. (go_Person g, go_Machine g)) (gs_Goals s)) \<and>
     (\<forall>h \<in> set (gs_CommandHistory s). ref_ok ids (ch_Person h) (ch_Machine h) \<and> wf_history h) \<and>
     distinct (map (\<lambda>h. (ch_Person h, ch_Machine h)) (gs_CommandHistory s)) \<and>
     (\<forall>k. gs_ExternalRiskKey s = Some k \<longrightarrow> wf_risk_key k) \<and>
     (\<forall>g \<in> set (gs_Grants s). ref_ok ids (gr_Person g) (gr_Machine g) \<and> pinned_ok (machine_fps s) g) \<and>
     distinct (map pair_of (gs_Grants s))"

lemma fresh_pairs:
  "(\<forall>x \<in> set xs. ref_ok ids (f x) (g x) \<and> P x) \<and> fresh (concat (map (\<lambda>x. [SeenPair (ref_pair (f x) (g x))]) xs)) [] \<longleftrightarrow>
   (\<forall>x \<in> set xs. ref_ok ids (f x) (g x) \<and> P x) \<and> distinct (map (\<lambda>x. (f x, g x)) xs)"
  using distinct_pairs [of xs f g] by (auto simp: ref_ok_def simp del: concat_single)

lemma validate_refs_Inr: "(\<exists>sn. validate_refs s ids = Inr sn) \<longleftrightarrow> refs_ok s ids"
  using fresh_pairs [of "gs_Goals s" ids go_Person go_Machine wf_goal]
    fresh_pairs [of "gs_CommandHistory s" ids ch_Person ch_Machine wf_history]
    fresh_pairs [of "gs_Grants s" ids gr_Person gr_Machine "pinned_ok (machine_fps s)"]
  unfolding validate_refs_def refs_ok_def checks goal_check.check_all_Inr history_check.check_all_Inr grant_check.check_all_Inr
  by (simp add: list_ex_iff del: concat_single) blast


lemma ids_ok_wf: "ids_ok s \<longleftrightarrow> wf_ids s"
  unfolding ids_ok_def wf_ids_def fresh_def distinct_only [of "state_items s"] state_items_only by auto

lemma wf_grant_pinned:
  assumes "wf_ids s"
  shows "pinned_ok (machine_fps s) g \<longleftrightarrow> wf_grant s g"
proof -
  have d: "distinct (map mc_ID (gs_Machines s))" using assms by (simp add: wf_ids_def)
  have "TrimSpace (fp_of (mc_MachineKey m)) \<noteq> ''''" if "m \<in> set (gs_Machines s)" for m
    using assms that by (intro fp_of_nonblank material_fp) (auto simp: wf_ids_def wf_machine_def)
  then show ?thesis
    unfolding pinned_ok_def wf_grant_def machine_fps_wf [OF d] by metis
qed

lemma refs_ok_wf:
  assumes "wf_ids s"
  shows "refs_ok s (state_items s) \<longleftrightarrow> wf_refs s"
proof -
  have n: "nameRe p \<and> nameRe m" if "refers s p m" for p m
    using assms that by (auto simp: refers_def wf_ids_def wf_person_def wf_machine_def)
  have r: "ref_ok (state_items s) p m \<longleftrightarrow> refers s p m" for p m
    using n [of p m] by (auto simp: ref_ok_def refers_def mem_only state_items_only)
  show ?thesis
    unfolding refs_ok_def wf_refs_def r wf_grant_pinned [OF assms] mem_only state_items_only set_map ..
qed

lemma Validate_wf: "Validate s = None \<longleftrightarrow> wf_state s"
proof -
  have "Validate s = None \<longleftrightarrow> (\<exists>v. sbind (validate_ids s) (validate_refs s) = Inr v)"
    by (simp add: Validate_def split: sum.split)
  also have "\<dots> \<longleftrightarrow> ids_ok s \<and> refs_ok s (state_items s)"
    unfolding sbind_Inr validate_ids_Inr validate_refs_Inr [symmetric] by auto
  also have "\<dots> \<longleftrightarrow> wf_state s"
    unfolding ids_ok_wf wf_state_def by (auto simp: refs_ok_wf)
  finally show ?thesis .
qed

text \<open>
  C8. Validate decides well-formedness: it accepts a state exactly when every record is well formed, names, ids and
  pairs are unique, no machine wears another machine's id as its name, every fingerprint of a person's key, a machine
  key, a door key and a one-time key is owned once and was computed from its key, every goal, history and grant
  refers to a person and a machine that exist, and every grant is pinned to the key its machine presents.
\<close>

theorem validate_exact: "Validate s = None \<longleftrightarrow> wf_state s"
  by (rule Validate_wf)

end
