(* ===== verification/State_Store.thy ===== *)
theory State_Store
  imports State_Validate Auth
begin

text \<open>
  The store that keeps the state on disk (\<open>state/store.go\<close>), schema migrations (\<open>state/migrate.go\<close>) and the lookups
  the rest of the gateway makes in it (\<open>lookup.go\<close>). The file \<open>state.json\<close> is its bytes, absent before the first write;
  the outcome of each system call is an input. The JSON codec of the standard library is a set of arguments:
  \<open>enc\<close> (\<open>marshalState\<close>), \<open>dec\<close> (\<open>json.Unmarshal\<close> into a state) and \<open>schema_of\<close> (\<open>json.Unmarshal\<close> of the schema number).
\<close>

section \<open>Migration\<close>

type_synonym migrations = "int \<Rightarrow> (byte list \<Rightarrow> byte list option) option"

datatype migrate_error = Downgrade | NoMigration | MigrationFailed | MigratedNotJSON | NotAdvanced | Overshot

function migrate_loop :: "(byte list \<Rightarrow> int option) \<Rightarrow> migrations \<Rightarrow> int \<Rightarrow> byte list \<Rightarrow> int \<Rightarrow> migrate_error + byte list" where
  "migrate_loop schema_of migs target raw ver =
    (if ver = target then Inr raw
     else case migs ver of
       None \<Rightarrow> Inl NoMigration
     | Some f \<Rightarrow> (case f raw of
         None \<Rightarrow> Inl MigrationFailed
       | Some raw' \<Rightarrow> (case schema_of raw' of
           None \<Rightarrow> Inl MigratedNotJSON
         | Some v \<Rightarrow>
             if v \<le> ver then Inl NotAdvanced
             else if v > target then Inl Overshot
             else migrate_loop schema_of migs target raw' v)))"
  by pat_completeness auto
termination
  by (relation "measure (\<lambda>(_, _, target, _, ver). nat (target - ver))") auto

declare migrate_loop.simps [simp del]

definition Migrate :: "(byte list \<Rightarrow> int option) \<Rightarrow> migrations \<Rightarrow> byte list \<Rightarrow> int \<Rightarrow> int \<Rightarrow> migrate_error + byte list" where
  "Migrate schema_of migs raw ver target =
    (if ver > target then Inl Downgrade else migrate_loop schema_of migs target raw ver)"

definition builtinMigrations :: migrations where
  "builtinMigrations = (\<lambda>_. None)"

section \<open>Reading the file\<close>

datatype parse_result = Parsed gw_state | CorruptFile | SchemaTooNew

definition parseStateBytes :: "(byte list \<Rightarrow> int option) \<Rightarrow> (byte list \<Rightarrow> gw_state option) \<Rightarrow> byte list \<Rightarrow> parse_result" where
  "parseStateBytes schema_of dec data =
    (if TrimSpace (string_of data) = '''' then CorruptFile
     else case schema_of data of
       None \<Rightarrow> CorruptFile
     | Some v \<Rightarrow>
        if v > CurrentSchema then SchemaTooNew
        else
         (case (if v < CurrentSchema then Migrate schema_of builtinMigrations data v CurrentSchema else Inr data) of
            Inl _ \<Rightarrow> CorruptFile
          | Inr payload \<Rightarrow> (case dec payload of
              None \<Rightarrow> CorruptFile
            | Some parsed \<Rightarrow>
               (let parsed = applyGrantCapsCompat (applyMachineDefaults parsed)
                in if Validate parsed = None then Parsed parsed else CorruptFile))))"

section \<open>The store\<close>

record store =
  so_state :: gw_state
  so_disk :: "byte list option"
  so_readOnly :: bool
  so_corrupt :: bool
  so_revocations :: "revocation list"

datatype store_error = ErrReadOnly | TransactionError | DeadlineInThePast | InvalidState validate_error
  | MarshalError | SaveError | SyncError | LockError | HmacKeyError | FileReadError | CorruptStateError | SchemaError

text \<open>
  How a save goes: completely; with an error before the rename, which leaves the old file; or with the rename done and
  the directory not synced, which is an error with the new file in place.
\<close>

datatype save_io = SaveDone | SaveRefused | SaveUnsynced

record store_in =
  si_save :: save_io
  si_reread :: bool
  si_now :: instant

type_synonym senc = "gw_state \<Rightarrow> byte list option"

definition saveAtomicLocked :: "senc \<Rightarrow> save_io \<Rightarrow> store \<Rightarrow> store \<times> store_error option" where
  "saveAtomicLocked enc io s = (case enc (so_state s) of
     None \<Rightarrow> (s, Some MarshalError)
   | Some raw \<Rightarrow> (case io of
       SaveDone \<Rightarrow> (s\<lparr>so_disk := Some raw\<rparr>, None)
     | SaveRefused \<Rightarrow> (s, Some SaveError)
     | SaveUnsynced \<Rightarrow> (s\<lparr>so_disk := Some raw\<rparr>, Some SyncError)))"

text \<open>The error of this check is only appended to the message of the failed save.\<close>

definition verifyDiskMatchesLocked :: "senc \<Rightarrow> bool \<Rightarrow> store \<Rightarrow> store" where
  "verifyDiskMatchesLocked enc readable s =
    (case so_disk s of
       None \<Rightarrow> s
     | Some onDisk \<Rightarrow>
        if \<not> readable then s
        else (case enc (so_state s) of
          None \<Rightarrow> s
        | Some expected \<Rightarrow> if onDisk = expected then s else s\<lparr>so_readOnly := True, so_corrupt := True\<rparr>))"

definition commitLocked :: "senc \<Rightarrow> store_in \<Rightarrow> gw_state \<Rightarrow> store \<Rightarrow> store \<times> store_error option" where
  "commitLocked enc i next_state s =
    (case saveAtomicLocked enc (si_save i) (s\<lparr>so_state := applyMachineDefaults next_state\<rparr>) of
       (s', None) \<Rightarrow> (s', None)
     | (s', Some err) \<Rightarrow> (verifyDiskMatchesLocked enc (si_reread i) (s'\<lparr>so_state := so_state s\<rparr>), Some err))"

text \<open>What \<open>Set\<close> and \<open>Update\<close> do with a draft.\<close>

definition transact :: "senc \<Rightarrow> store_in \<Rightarrow> gw_state \<Rightarrow> store \<Rightarrow> store \<times> store_error option" where
  "transact enc i draft s =
    (if \<not> checkFreshDoorDeadlines (so_state s) draft (si_now i) then (s, Some DeadlineInThePast)
     else case reconcileGrants (so_state s) draft of (draft, revocations) \<Rightarrow>
      (let draft = reconcileRecentCommands (reconcileGoals draft) in
       case Validate draft of
         Some err \<Rightarrow> (s, Some (InvalidState err))
       | None \<Rightarrow> (case commitLocked enc i draft s of
           (s', Some err) \<Rightarrow> (s', Some err)
         | (s', None) \<Rightarrow> (s'\<lparr>so_revocations := so_revocations s' @ revocations\<rparr>, None))))"

definition store_Set :: "senc \<Rightarrow> store_in \<Rightarrow> gw_state \<Rightarrow> store \<Rightarrow> store \<times> store_error option" where
  "store_Set enc i newState s = (if so_readOnly s then (s, Some ErrReadOnly) else transact enc i (Clone newState) s)"

definition Update :: "senc \<Rightarrow> store_in \<Rightarrow> (gw_state \<Rightarrow> gw_state option) \<Rightarrow> store \<Rightarrow> store \<times> store_error option" where
  "Update enc i fn s =
    (if so_readOnly s then (s, Some ErrReadOnly)
     else case fn (Clone (so_state s)) of
       None \<Rightarrow> (s, Some TransactionError)
     | Some draft \<Rightarrow> transact enc i draft s)"

definition Save :: "senc \<Rightarrow> store_in \<Rightarrow> store \<Rightarrow> store \<times> store_error option" where
  "Save enc i s = (if so_readOnly s then (s, Some ErrReadOnly) else commitLocked enc i (Clone (so_state s)) s)"

definition DrainRevocations :: "store \<Rightarrow> store \<times> revocation list" where
  "DrainRevocations s = (s\<lparr>so_revocations := []\<rparr>, so_revocations s)"

record open_in =
  oi_mkdir :: bool
  oi_lock :: bool
  oi_hmac :: bool
  oi_read :: bool
  oi_save :: save_io

text \<open>\<open>Open\<close>: no store, or a store that may come with the error of a corrupt file.\<close>

definition Open :: "senc \<Rightarrow> (byte list \<Rightarrow> int option) \<Rightarrow> (byte list \<Rightarrow> gw_state option) \<Rightarrow> open_in \<Rightarrow> byte list option \<Rightarrow>
    store option \<times> store_error option" where
  "Open enc schema_of dec i disk =
    (let s = \<lparr>so_state = NewState, so_disk = disk, so_readOnly = False, so_corrupt = False, so_revocations = []\<rparr> in
     if \<not> oi_mkdir i then (None, Some FileReadError)
     else if \<not> oi_lock i then (None, Some LockError)
     else if \<not> oi_hmac i then (None, Some HmacKeyError)
     else case disk of
       None \<Rightarrow> (case saveAtomicLocked enc (oi_save i) s of
           (s', None) \<Rightarrow> (Some s', None) | (_, Some err) \<Rightarrow> (None, Some err))
     | Some data \<Rightarrow>
        if \<not> oi_read i then (None, Some FileReadError)
        else (case parseStateBytes schema_of dec data of
          CorruptFile \<Rightarrow> (Some (s\<lparr>so_readOnly := True, so_corrupt := True\<rparr>), Some CorruptStateError)
        | SchemaTooNew \<Rightarrow> (None, Some SchemaError)
        | Parsed st \<Rightarrow> (Some (s\<lparr>so_state := st\<rparr>), None)))"

text \<open>\<open>OpenForRead\<close> of an existing file, with the lock file present (free or held) or absent.\<close>

datatype lock_file = LockFree | LockHeld | LockAbsent

definition OpenForRead :: "(byte list \<Rightarrow> int option) \<Rightarrow> (byte list \<Rightarrow> gw_state option) \<Rightarrow> lock_file \<Rightarrow> bool \<Rightarrow> byte list option \<Rightarrow>
    store option \<times> store_error option" where
  "OpenForRead schema_of dec lock readable disk = (case disk of
     None \<Rightarrow> (None, Some FileReadError)
   | Some data \<Rightarrow>
      if lock = LockHeld then (None, Some LockError)
      else if \<not> readable then (None, Some FileReadError)
      else
       (let s = \<lparr>so_state = NewState, so_disk = disk, so_readOnly = True, so_corrupt = False, so_revocations = []\<rparr>
        in case parseStateBytes schema_of dec data of
             CorruptFile \<Rightarrow> (Some (s\<lparr>so_corrupt := True\<rparr>), Some CorruptStateError)
           | SchemaTooNew \<Rightarrow> (None, Some SchemaError)
           | Parsed st \<Rightarrow> (Some (s\<lparr>so_state := st\<rparr>), None)))"

section \<open>Lookups\<close>

definition personWithKey :: "gw_state \<Rightarrow> string \<Rightarrow> string option" where
  "personWithKey st fingerprint =
     map_option pe_Name (find (\<lambda>p. list_ex (\<lambda>k. ky_Fingerprint k = fingerprint) (pe_Keys p)) (gs_People st))"

definition view_Resolve :: "gw_state \<Rightarrow> string \<Rightarrow> subject option" where
  "view_Resolve st fingerprint =
    (case personWithKey st fingerprint of
       Some person \<Rightarrow> Some \<lparr>sub_name = person, sub_role = RolePerson\<rparr>
     | None \<Rightarrow> (case find (\<lambda>m. ComputeFingerprint (mc_MachineKey m) = Inr fingerprint) (gs_Machines st) of
         Some m \<Rightarrow> Some \<lparr>sub_name = mc_ID m, sub_role = RoleMachine\<rparr>
       | None \<Rightarrow>
          if list_ex (\<lambda>e. ComputeFingerprint (pd_PublicKey e) = Inr fingerprint) (gs_PendingEnrolments st)
          then Some \<lparr>sub_name = '''', sub_role = RoleEnrol\<rparr>
          else (case gs_BootstrapPending st of
              Some b \<Rightarrow>
                if ComputeFingerprint (bp_PublicKey b) = Inr fingerprint
                then Some \<lparr>sub_name = '''', sub_role = RoleBootstrap\<rparr> else None
            | None \<Rightarrow> None)))"

definition knownFingerprint :: "gw_state \<Rightarrow> string \<Rightarrow> bool" where
  "knownFingerprint st fingerprint \<longleftrightarrow> view_Resolve st fingerprint \<noteq> None"

definition MachineVerified :: "gw_state \<Rightarrow> string \<Rightarrow> bool" where
  "MachineVerified st machine = (case MachineByID st machine of None \<Rightarrow> False | Some m \<Rightarrow> mc_State m = ''verified'')"


section \<open>Migration ends at the target\<close>

lemma migrate_loop_target:
  assumes "migrate_loop schema_of migs target raw ver = Inr out"
  shows "ver = target \<and> out = raw \<or> schema_of out = Some target"
  using assms
proof (induction schema_of migs target raw ver rule: migrate_loop.induct)
  case (1 schema_of migs target raw ver)
  show ?case
  proof (cases "ver = target")
    case False
    with "1.prems" obtain f raw' v where s: "migs ver = Some f" "f raw = Some raw'" "schema_of raw' = Some v" "\<not> v \<le> ver" "\<not> v > target"
      "migrate_loop schema_of migs target raw' v = Inr out"
      by (subst (asm) migrate_loop.simps) (auto split: option.splits if_splits)
    from "1.IH" [OF False s] s(3) show ?thesis by auto
  qed (use "1.prems" in \<open>simp add: migrate_loop.simps\<close>)
qed

lemma migrate_loop_returns:
  assumes "ver \<le> target" and "\<And>v raw. ver \<le> v \<Longrightarrow> v < target \<Longrightarrow>
    \<exists>f raw' w. migs v = Some f \<and> f raw = Some raw' \<and> schema_of raw' = Some w \<and> v < w \<and> w \<le> target"
  shows "\<exists>out. migrate_loop schema_of migs target raw ver = Inr out"
  using assms
proof (induction schema_of migs target raw ver rule: migrate_loop.induct)
  case (1 schema_of migs target raw ver)
  show ?case
  proof (cases "ver = target")
    case False
    with "1.prems"(1) "1.prems"(2) [of ver raw] obtain f raw' w where s: "migs ver = Some f" "f raw = Some raw'"
      "schema_of raw' = Some w" "\<not> w \<le> ver" "\<not> w > target" by (auto simp: not_le not_less)
    have "\<exists>out. migrate_loop schema_of migs target raw' w = Inr out"
      using s "1.prems"(2) by (intro "1.IH" [OF False s]) auto
    with False s show ?thesis by (subst migrate_loop.simps) simp
  qed (simp add: migrate_loop.simps)
qed


definition demo_schema :: "byte list \<Rightarrow> int option" where
  "demo_schema raw = (case raw of [] \<Rightarrow> None | b # _ \<Rightarrow> Some (int (unat b)))"

definition demo_migrations :: migrations where
  "demo_migrations v = (if 0 \<le> v \<and> v < 200 then Some (\<lambda>raw. Some [of_int (v + 1)]) else None)"



section \<open>The store agrees with its file\<close>

text \<open>
  What the store relies on of the JSON codec: a state can always be encoded, the encoding is not blank, carries the
  schema number and, for states whose text is valid UTF-8 (\<open>plain\<close>), reads back as the same state.
\<close>

definition codec_ok :: "senc \<Rightarrow> (byte list \<Rightarrow> int option) \<Rightarrow> (byte list \<Rightarrow> gw_state option) \<Rightarrow> (gw_state \<Rightarrow> bool) \<Rightarrow> bool" where
  "codec_ok enc schema_of dec plain \<longleftrightarrow> (\<forall>s. \<exists>raw. enc s = Some raw \<and> TrimSpace (string_of raw) \<noteq> '''' \<and>
     (plain s \<longrightarrow> schema_of raw = Some (gs_Schema s) \<and> dec raw = Some s))"

text \<open>A draft whose observed host keys all come with a status, as the gateway writes them.\<close>

definition settled :: "gw_state \<Rightarrow> bool" where
  "settled s \<longleftrightarrow> (\<forall>m \<in> set (gs_Machines s). mc_HostKeyStatus m = '''' \<longrightarrow> mc_ObservedSSHDHostKey m = None)"

definition filled :: "gw_state \<Rightarrow> bool" where
  "filled s \<longleftrightarrow> (\<forall>m \<in> set (gs_Machines s). mc_HostKeyStatus m \<noteq> '''' \<and> mc_OSUserStatus m \<noteq> '''')"

lemma applyMachineDefaults_simps [simp]:
  "gs_Schema (applyMachineDefaults s) = gs_Schema s" "gs_People (applyMachineDefaults s) = gs_People s"
  "gs_Grants (applyMachineDefaults s) = gs_Grants s" "gs_PendingEnrolments (applyMachineDefaults s) = gs_PendingEnrolments s"
  "gs_BootstrapPending (applyMachineDefaults s) = gs_BootstrapPending s" "gs_PairingPending (applyMachineDefaults s) = gs_PairingPending s"
  "gs_Goals (applyMachineDefaults s) = gs_Goals s" "gs_CommandHistory (applyMachineDefaults s) = gs_CommandHistory s"
  "gs_ExternalRiskKey (applyMachineDefaults s) = gs_ExternalRiskKey s"
  "gs_Machines (applyMachineDefaults s) = map applySpecDefaults (gs_Machines s)"
  by (simp_all add: applyMachineDefaults_def)

lemma applySpecDefaults_simps [simp]:
  "mc_ID (applySpecDefaults m) = mc_ID m" "mc_Name (applySpecDefaults m) = mc_Name m" "mc_State (applySpecDefaults m) = mc_State m"
  "mc_MachineKey (applySpecDefaults m) = mc_MachineKey m" "mc_SSHDHostKey (applySpecDefaults m) = mc_SSHDHostKey m"
  "mc_ObservedSSHDHostKey (applySpecDefaults m) = mc_ObservedSSHDHostKey m" "mc_OSUser (applySpecDefaults m) = mc_OSUser m"
  "mc_Door (applySpecDefaults m) = mc_Door m" "mc_EnrolPending (applySpecDefaults m) = mc_EnrolPending m"
  by (simp_all add: applySpecDefaults_def)

lemma machine_keys_defaults [simp]: "machine_keys (applySpecDefaults m) = machine_keys m"
  by (simp add: machine_keys_def)

lemma wf_machine_defaults:
  "wf_machine m \<Longrightarrow> mc_HostKeyStatus m = '''' \<longrightarrow> mc_ObservedSSHDHostKey m = None \<Longrightarrow> wf_machine (applySpecDefaults m)"
  by (auto simp: wf_machine_def wf_host_key_def applySpecDefaults_def IsValidOSUserStatus_def)

lemma all_fps_defaults [simp]: "all_fps (applyMachineDefaults s) = all_fps s"
  by (simp add: all_fps_def comp_def)

lemma wf_stateD:
  "wf_state s \<Longrightarrow> p \<in> set (gs_People s) \<Longrightarrow> wf_person p"
  "wf_state s \<Longrightarrow> m \<in> set (gs_Machines s) \<Longrightarrow> wf_machine m"
  "wf_state s \<Longrightarrow> g \<in> set (gs_Grants s) \<Longrightarrow> wf_grant s g \<and> refers s (gr_Person g) (gr_Machine g)"
  "wf_state s \<Longrightarrow> distinct (map pe_Name (gs_People s)) \<and> distinct (map mc_ID (gs_Machines s)) \<and> distinct (all_fps s) \<and>
     distinct (map pair_of (gs_Grants s))"
  by (simp_all add: wf_state_def wf_ids_def wf_refs_def)

lemma wf_refs_defaults: "wf_refs (applyMachineDefaults s) = wf_refs s"
proof -
  have "refers (applyMachineDefaults s) = refers s" by (simp add: fun_eq_iff refers_def image_image)
  moreover have "wf_grant (applyMachineDefaults s) = wf_grant s" by (simp add: fun_eq_iff wf_grant_def)
  ultimately show ?thesis by (simp add: wf_refs_def image_image)
qed

lemma wf_ids_defaults:
  assumes "wf_ids s" "\<forall>m \<in> set (gs_Machines s). wf_machine (applySpecDefaults m)"
  shows "wf_ids (applyMachineDefaults s)"
  using assms by (simp add: wf_ids_def comp_def)

lemma wf_defaults: "wf_state s \<Longrightarrow> settled s \<Longrightarrow> wf_state (applyMachineDefaults s)"
  using wf_stateD(2) [of s] unfolding wf_state_def wf_refs_defaults
  by (auto simp: settled_def intro!: wf_ids_defaults wf_machine_defaults)

lemma filled_defaults: "filled (applyMachineDefaults s)"
  by (auto simp: filled_def applySpecDefaults_def HostKeyStatusUnverified_def OSUserStatusPending_def)

lemma defaults_filled: "filled s \<Longrightarrow> applyMachineDefaults s = s"
  by (simp add: applyMachineDefaults_def filled_def applySpecDefaults_def cong: map_cong)

lemma compat_wf: "wf_state s \<Longrightarrow> applyGrantCapsCompat s = s"
proof -
  assume "wf_state s"
  then have "length (gr_Caps g) < 2" if "g \<in> set (gs_Grants s)" for g
    using that wf_stateD(3) [of s g] by (auto simp: wf_grant_def)
  then show ?thesis by (simp add: applyGrantCapsCompat_def cong: map_cong)
qed

text \<open>Reading back what was written gives the state that was written.\<close>

lemma parse_written:
  assumes "codec_ok enc schema_of dec plain" "enc s = Some raw" "plain s" "wf_state s" "filled s"
  shows "parseStateBytes schema_of dec raw = Parsed s"
proof -
  have "TrimSpace (string_of raw) \<noteq> ''''" "schema_of raw = Some (gs_Schema s)" "dec raw = Some s"
    using assms(1-3) unfolding codec_ok_def by (metis option.inject)+
  moreover have "gs_Schema s = CurrentSchema" using assms(4) by (simp add: wf_state_def wf_ids_def)
  ultimately show ?thesis
    using assms(4) by (simp add: parseStateBytes_def defaults_filled [OF assms(5)] compat_wf Validate_wf)
qed

lemma parse_wf: "parseStateBytes schema_of dec raw = Parsed s \<Longrightarrow> wf_state s"
  by (auto simp: parseStateBytes_def Let_def Validate_wf split: if_splits option.splits sum.splits)

lemma compat_filled: "filled (applyGrantCapsCompat s) = filled s"
  by (simp add: filled_def applyGrantCapsCompat_def)

lemma parse_filled: "parseStateBytes schema_of dec raw = Parsed s \<Longrightarrow> filled s"
  by (auto simp: parseStateBytes_def Let_def compat_filled filled_defaults split: if_splits option.splits sum.splits)

definition store_inv :: "(byte list \<Rightarrow> int option) \<Rightarrow> (byte list \<Rightarrow> gw_state option) \<Rightarrow> store \<Rightarrow> bool" where
  "store_inv schema_of dec s \<longleftrightarrow> wf_state (so_state s) \<and> filled (so_state s) \<and>
     (so_readOnly s \<or> (\<exists>raw. so_disk s = Some raw \<and> parseStateBytes schema_of dec raw = Parsed (so_state s)))"

lemma commit_inv:
  assumes "codec_ok enc schema_of dec plain" "store_inv schema_of dec s" "wf_state d" "settled d" "si_reread i"
    and "commitLocked enc i d s = (t, r)" "plain (so_state t)"
  shows "store_inv schema_of dec t \<and> (r = None \<longrightarrow> so_state t = applyMachineDefaults d) \<and> so_revocations t = so_revocations s \<and>
    (r \<noteq> None \<longrightarrow> so_state t = so_state s)"
proof -
  let ?n = "applyMachineDefaults d"
  obtain raw where raw: "enc ?n = Some raw" using assms(1) by (auto simp: codec_ok_def)
  obtain old where old: "enc (so_state s) = Some old" using assms(1) unfolding codec_ok_def by blast
  show ?thesis
  proof (cases "si_save i")
    case SaveDone
    with assms(6) raw have t: "t = s\<lparr>so_state := ?n, so_disk := Some raw\<rparr>" "r = None"
      by (auto simp: commitLocked_def saveAtomicLocked_def)
    with assms(7) parse_written [OF assms(1) raw _ wf_defaults [OF assms(3,4)] filled_defaults]
    show ?thesis by (simp add: store_inv_def wf_defaults [OF assms(3,4)] filled_defaults)
  next
    case SaveRefused
    with assms(2,6) raw old show ?thesis
      by (cases "so_disk s") (auto simp: commitLocked_def saveAtomicLocked_def verifyDiskMatchesLocked_def store_inv_def split: if_splits)
  next
    case SaveUnsynced
    with assms(5,6) raw old have t: "r = Some SyncError" "so_state t = so_state s" "so_revocations t = so_revocations s"
        "raw = old \<and> so_disk t = Some raw \<or> so_readOnly t"
      by (auto simp: commitLocked_def saveAtomicLocked_def verifyDiskMatchesLocked_def split: if_splits)
    then have "parseStateBytes schema_of dec raw = Parsed (so_state s)" if "\<not> so_readOnly t"
      using that assms(2,7) old by (intro parse_written [OF assms(1)]) (auto simp: store_inv_def)
    with t assms(2) show ?thesis by (auto simp: store_inv_def)
  qed
qed

definition final_draft :: "gw_state \<Rightarrow> gw_state \<Rightarrow> gw_state" where
  "final_draft prev draft = reconcileRecentCommands (reconcileGoals (fst (reconcileGrants prev draft)))"

lemma final_draft_simps [simp]:
  "gs_Machines (final_draft prev draft) = gs_Machines draft" "gs_People (final_draft prev draft) = gs_People draft"
  "gs_Grants (final_draft prev draft) = gs_Grants (fst (reconcileGrants prev draft))"
  by (simp_all add: final_draft_def reconcileRecentCommands_def reconcileGoals_def reconcileGrants_def split: prod.split)

lemma transact_eq:
  "transact enc i draft s =
    (if \<not> checkFreshDoorDeadlines (so_state s) draft (si_now i) then (s, Some DeadlineInThePast)
     else case Validate (final_draft (so_state s) draft) of
       Some err \<Rightarrow> (s, Some (InvalidState err))
     | None \<Rightarrow> (case commitLocked enc i (final_draft (so_state s) draft) s of
         (s', Some err) \<Rightarrow> (s', Some err)
       | (s', None) \<Rightarrow> (s'\<lparr>so_revocations := so_revocations s' @ snd (reconcileGrants (so_state s) draft)\<rparr>, None)))"
  by (simp only: transact_def final_draft_def Let_def split_beta)

lemma transact_cases:
  assumes "transact enc i draft s = (t, r)"
  obtains (refused) "t = s" "r \<noteq> None"
  | (committed) u where "wf_state (final_draft (so_state s) draft)" "commitLocked enc i (final_draft (so_state s) draft) s = (u, r)"
      "t = (if r = None then u\<lparr>so_revocations := so_revocations u @ snd (reconcileGrants (so_state s) draft)\<rparr> else u)"
proof (cases "checkFreshDoorDeadlines (so_state s) draft (si_now i) \<and> Validate (final_draft (so_state s) draft) = None")
  case True
  obtain u r' where c: "commitLocked enc i (final_draft (so_state s) draft) s = (u, r')" by force
  with True assms have "r' = r \<and> t = (if r = None then u\<lparr>so_revocations := so_revocations u @ snd (reconcileGrants (so_state s) draft)\<rparr> else u)"
    by (auto simp: transact_eq split: prod.splits option.splits)
  with True c committed show ?thesis by (auto simp: Validate_wf)
next
  case False
  with assms refused show ?thesis
    by (auto simp: transact_eq split: prod.splits option.splits if_splits)
qed

text \<open>
  The steps of a store: a transaction, a replacement of the state, a save, and handing the revocations to the journal. A
  transaction leaves every observed host key with its status, a failed save can be looked at again, and the text
  of the state is valid UTF-8.
\<close>

inductive store_step :: "senc \<Rightarrow> (gw_state \<Rightarrow> bool) \<Rightarrow> store \<Rightarrow> store \<Rightarrow> bool" for enc plain where
  step_update: "\<lbrakk>Update enc i fn s = (t, r); \<forall>d. fn (so_state s) = Some d \<longrightarrow> settled d; si_reread i; plain (so_state t)\<rbrakk> \<Longrightarrow>
    store_step enc plain s t"
| step_set: "\<lbrakk>store_Set enc i d s = (t, r); settled d; si_reread i; plain (so_state t)\<rbrakk> \<Longrightarrow> store_step enc plain s t"
| step_save: "\<lbrakk>Save enc i s = (t, r); si_reread i; plain (so_state t)\<rbrakk> \<Longrightarrow> store_step enc plain s t"
| step_drain: "DrainRevocations s = (t, revs) \<Longrightarrow> store_step enc plain s t"

definition store_init :: "senc \<Rightarrow> (byte list \<Rightarrow> int option) \<Rightarrow> (byte list \<Rightarrow> gw_state option) \<Rightarrow> (gw_state \<Rightarrow> bool) \<Rightarrow> store \<Rightarrow> bool" where
  "store_init enc schema_of dec plain s \<longleftrightarrow> plain NewState \<and> (\<exists>i disk err. Open enc schema_of dec i disk = (Some s, err))"

lemma wf_NewState: "wf_state NewState \<and> filled NewState"
  by (simp add: NewState_def wf_state_def wf_ids_def wf_refs_def all_fps_def filled_def)

lemma init_store_inv:
  assumes "codec_ok enc schema_of dec plain" "store_init enc schema_of dec plain s"
  shows "store_inv schema_of dec s"
proof -
  obtain i disk err where o: "Open enc schema_of dec i disk = (Some s, err)" and p: "plain NewState"
    using assms(2) by (auto simp: store_init_def)
  have n: "parseStateBytes schema_of dec raw = Parsed NewState" if "enc NewState = Some raw" for raw
    using parse_written [OF assms(1) that p] wf_NewState by blast
  show ?thesis
  proof (cases disk)
    case None
    with o n wf_NewState show ?thesis
      by (auto simp: Open_def Let_def saveAtomicLocked_def store_inv_def split: if_splits option.splits save_io.splits prod.splits)
  next
    case (Some data)
    with o wf_NewState show ?thesis
      by (auto simp: Open_def Let_def store_inv_def parse_wf parse_filled split: if_splits parse_result.splits)
  qed
qed

lemma filled_settled: "filled s \<Longrightarrow> settled s"
  by (simp add: filled_def settled_def)

lemma transact_inv:
  assumes "codec_ok enc schema_of dec plain" "store_inv schema_of dec s" "settled d" "si_reread i"
    "transact enc i d s = (t, r)" "plain (so_state t)"
  shows "store_inv schema_of dec t"
  using assms(5)
proof (cases rule: transact_cases)
  case refused
  then show ?thesis using assms(2) by simp
next
  case (committed u)
  have "settled (final_draft (so_state s) d)" using assms(3) by (simp add: settled_def)
  moreover have "plain (so_state u)" using committed(3) assms(6) by (simp split: if_splits)
  ultimately have "store_inv schema_of dec u"
    using commit_inv [OF assms(1,2) committed(1) _ assms(4) committed(2)] by simp
  with committed(3) show ?thesis by (simp add: store_inv_def)
qed

lemma step_store_inv:
  assumes "codec_ok enc schema_of dec plain" "store_inv schema_of dec s" "store_step enc plain s t"
  shows "store_inv schema_of dec t"
  using assms(3)
proof cases
  case (step_update i fn r)
  show ?thesis
  proof (cases "so_readOnly s \<or> fn (so_state s) = None")
    case True
    with step_update(1) assms(2) show ?thesis by (auto simp: Update_def split: option.splits if_splits)
  next
    case False
    then obtain d where "fn (so_state s) = Some d" "transact enc i d s = (t, r)"
      using step_update(1) by (auto simp: Update_def)
    with step_update show ?thesis by (intro transact_inv [OF assms(1,2)]) auto
  qed
next
  case (step_set i d r)
  show ?thesis
  proof (cases "so_readOnly s")
    case True
    with step_set(1) assms(2) show ?thesis by (auto simp: store_Set_def)
  next
    case False
    with step_set(1) have "transact enc i d s = (t, r)" by (simp add: store_Set_def)
    with step_set show ?thesis by (intro transact_inv [OF assms(1,2)]) auto
  qed
next
  case (step_save i r)
  show ?thesis
  proof (cases "so_readOnly s")
    case True
    with step_save(1) assms(2) show ?thesis by (auto simp: Save_def)
  next
    case False
    with step_save(1) have "commitLocked enc i (so_state s) s = (t, r)" by (simp add: Save_def)
    moreover have "wf_state (so_state s)" "settled (so_state s)"
      using assms(2) filled_settled by (simp_all add: store_inv_def)
    ultimately show ?thesis using commit_inv [OF assms(1,2)] step_save(2,3) by blast
  qed
next
  case (step_drain revs)
  then show ?thesis using assms(2) by (auto simp: DrainRevocations_def store_inv_def)
qed


section \<open>A small store\<close>

definition demo_state :: gw_state where
  "demo_state = NewState\<lparr>gs_People := [\<lparr>pe_Name = ''alice'', pe_Role = ''admin'', pe_Keys = []\<rparr>]\<rparr>"

definition demo_senc :: senc where
  "demo_senc s = Some (bytes_of (if s = demo_state then ''B'' else ''A''))"

definition demo_sdec :: "byte list \<Rightarrow> gw_state option" where
  "demo_sdec raw = Some (if raw = bytes_of ''B'' then demo_state else NewState)"

definition demo_schema_of :: "byte list \<Rightarrow> int option" where
  "demo_schema_of raw = Some 1"

definition demo_plain :: "gw_state \<Rightarrow> bool" where
  "demo_plain s \<longleftrightarrow> s = NewState \<or> s = demo_state"

lemma demo_differ: "demo_state \<noteq> NewState"
  by (simp add: demo_state_def NewState_def)

lemma demo_codec: "codec_ok demo_senc demo_schema_of demo_sdec demo_plain"
proof -
  have "TrimSpace ''A'' \<noteq> ''''" "TrimSpace ''B'' \<noteq> ''''" by code_simp+
  moreover have "bytes_of ''A'' \<noteq> bytes_of ''B''" by code_simp
  moreover have "gs_Schema NewState = 1" "gs_Schema demo_state = 1"
    by (simp_all add: demo_state_def NewState_def CurrentSchema_def)
  ultimately show ?thesis
    using demo_differ by (auto simp: codec_ok_def demo_senc_def demo_sdec_def demo_schema_of_def demo_plain_def)
qed

definition demo_sin :: store_in where
  "demo_sin = \<lparr>si_save = SaveDone, si_reread = True, si_now = 1\<rparr>"

definition demo_store :: "gw_state \<Rightarrow> string \<Rightarrow> store" where
  "demo_store s file = \<lparr>so_state = s, so_disk = Some (bytes_of file), so_readOnly = False, so_corrupt = False, so_revocations = []\<rparr>"

lemma demo_open: "store_init demo_senc demo_schema_of demo_sdec demo_plain (demo_store NewState ''A'')"
  unfolding store_init_def
  by (intro conjI exI [of _ "\<lparr>oi_mkdir = True, oi_lock = True, oi_hmac = True, oi_read = True, oi_save = SaveDone\<rparr>"]
      exI [of _ None])
    (use demo_differ in \<open>simp_all add: demo_plain_def Open_def Let_def saveAtomicLocked_def demo_senc_def demo_store_def\<close>)

lemma demo_update: "Update demo_senc demo_sin (\<lambda>_. Some demo_state) (demo_store NewState ''A'') = (demo_store demo_state ''B'', None)"
proof -
  have "final_draft NewState demo_state = demo_state"
    by (simp add: final_draft_def reconcileGrants_def reconcileGoals_def reconcileRecentCommands_def demo_state_def NewState_def)
  moreover have "snd (reconcileGrants NewState demo_state) = []" by (simp add: reconcileGrants_def demo_state_def NewState_def)
  moreover have "Validate demo_state = None" by code_simp
  moreover have "applyMachineDefaults demo_state = demo_state"
    by (simp add: applyMachineDefaults_def demo_state_def NewState_def)
  moreover have "checkFreshDoorDeadlines NewState demo_state 1"
    by (simp add: checkFreshDoorDeadlines_def demo_state_def NewState_def)
  ultimately show ?thesis
    by (simp add: Update_def transact_eq demo_store_def demo_sin_def commitLocked_def saveAtomicLocked_def
        demo_senc_def)
qed


end
