(* ===== verification/State_Grants.thy ===== *)
theory State_Grants
  imports State_Store
begin

text \<open>
  What transactions of the store do to access: grants and their pins, the revocations handed to the journal, the owner of a
  key, and the renaming of a person.
\<close>


section \<open>Grants through a transaction\<close>

lemma partition_sum_eq: "partition_sum xs = (concat (map (case_sum (\<lambda>a. [a]) (\<lambda>_. [])) xs), concat (map (case_sum (\<lambda>_. []) (\<lambda>b. [b])) xs))"
  by (induction xs rule: partition_sum.induct) simp_all

definition existing :: "gw_state \<Rightarrow> grant_rec \<Rightarrow> grant_rec \<Rightarrow> bool" where
  "existing prev g old \<longleftrightarrow> old \<in> set (gs_Grants prev) \<and> pair_of old = pair_of g"

lemma prev_grants_wf:
  assumes "distinct (map pair_of (gs_Grants prev))"
  shows "prev_grants prev (pair_of g) = Some old \<longleftrightarrow> existing prev g old"
proof -
  have "distinct (map fst (rev (map (\<lambda>g. (pair_of g, g)) (gs_Grants prev))))"
    using assms by (simp add: rev_map [symmetric] comp_def)
  then show ?thesis unfolding prev_grants_def existing_def by (subst map_of_eq_Some_iff) (auto simp: image_iff)
qed

text \<open>A grant that existed before and lost its person, its machine, or the key it was pinned to.\<close>

definition doomed :: "gw_state \<Rightarrow> gw_state \<Rightarrow> grant_rec \<Rightarrow> bool" where
  "doomed prev d g \<longleftrightarrow> (\<exists>old. existing prev g old \<and> (gr_Person g \<notin> pe_Name ` set (gs_People d) \<or>
     \<not> (\<exists>m \<in> set (gs_Machines d). mc_ID m = gr_Machine g \<and> fp_of (mc_MachineKey m) = gr_MachineKeyFingerprint old)))"

definition why :: "gw_state \<Rightarrow> grant_rec \<Rightarrow> revocation_reason" where
  "why d g = (if gr_Person g \<notin> pe_Name ` set (gs_People d) then RevokedPersonRemoved
     else if gr_Machine g \<notin> mc_ID ` set (gs_Machines d) then RevokedMachineRemoved else RevokedMachineRekeyed)"

lemma HasPerson_iff: "HasPerson s p \<longleftrightarrow> p \<in> pe_Name ` set (gs_People s)"
  by (auto simp: HasPerson_def list_ex_iff)

lemma machine_fps_None: "machine_fps s i = None \<longleftrightarrow> i \<notin> mc_ID ` set (gs_Machines s)"
  by (auto simp: machine_fps_def map_of_eq_None_iff rev_map [symmetric] image_image)

lemma reconcile_grant_spec:
  assumes "distinct (map pair_of (gs_Grants prev))" "distinct (map mc_ID (gs_Machines d))"
  shows "(doomed prev d g \<longrightarrow> (\<exists>r. reconcile_grant prev d g = Inr r \<and> (rv_Person r, rv_Machine r, rv_Reason r) = (gr_Person g, gr_Machine g, why d g))) \<and>
    (\<not> doomed prev d g \<longrightarrow> (\<exists>g'. reconcile_grant prev d g = Inl g' \<and> pair_of g' = pair_of g \<and>
       (\<forall>old. existing prev g old \<longrightarrow> gr_MachineKeyFingerprint g' = gr_MachineKeyFingerprint old)))"
proof (cases "prev_grants prev (pair_of g)")
  case None
  then have "\<not> existing prev g old" for old using prev_grants_wf [OF assms(1), of g old] by simp
  with None show ?thesis by (auto simp: doomed_def reconcile_grant_def split: option.split)
next
  case (Some old)
  have ex: "existing prev g o' \<longleftrightarrow> o' = old" for o' using prev_grants_wf [OF assms(1), of g o'] Some by auto
  show ?thesis
  proof (cases "machine_fps d (gr_Machine g)")
    case None
    with machine_fps_None [of d "gr_Machine g"] Some show ?thesis
      by (force simp: doomed_def ex reconcile_grant_def Let_def HasPerson_iff why_def)
  next
    case (Some fp)
    have key: "(\<exists>m \<in> set (gs_Machines d). mc_ID m = gr_Machine g \<and> fp_of (mc_MachineKey m) = fp') \<longleftrightarrow> fp' = fp" for fp'
      unfolding machine_fps_wf [OF assms(2), symmetric] using Some by auto
    have "gr_Machine g \<in> mc_ID ` set (gs_Machines d)" using Some machine_fps_None [of d "gr_Machine g"] by (metis option.simps(3))
    then show ?thesis using Some \<open>prev_grants prev (pair_of g) = Some old\<close>
      by (auto simp: doomed_def ex key reconcile_grant_def Let_def HasPerson_iff why_def)
  qed
qed

lemma reconcileGrants_spec:
  assumes "distinct (map pair_of (gs_Grants prev))" "distinct (map mc_ID (gs_Machines d))"
  shows "map pair_of (gs_Grants (fst (reconcileGrants prev d))) = map pair_of (filter (\<lambda>g. \<not> doomed prev d g) (gs_Grants d))"
    and "map (\<lambda>r. (rv_Person r, rv_Machine r, rv_Reason r)) (snd (reconcileGrants prev d)) =
      map (\<lambda>g. (gr_Person g, gr_Machine g, why d g)) (filter (doomed prev d) (gs_Grants d))"
    and "g' \<in> set (gs_Grants (fst (reconcileGrants prev d))) \<Longrightarrow> existing prev g' old \<Longrightarrow>
      gr_MachineKeyFingerprint g' = gr_MachineKeyFingerprint old"
proof -
  note spec = reconcile_grant_spec [OF assms]
  have "map pair_of (concat (map (\<lambda>g. case reconcile_grant prev d g of Inl a \<Rightarrow> [a] | Inr _ \<Rightarrow> []) gs)) =
      map pair_of (filter (\<lambda>g. \<not> doomed prev d g) gs)" for gs
  proof (induction gs)
    case (Cons g gs)
    then show ?case using spec [of g] by (cases "doomed prev d g") auto
  qed simp
  then show "map pair_of (gs_Grants (fst (reconcileGrants prev d))) = map pair_of (filter (\<lambda>g. \<not> doomed prev d g) (gs_Grants d))"
    by (simp add: reconcileGrants_def partition_sum_eq comp_def)
  have "map (\<lambda>r. (rv_Person r, rv_Machine r, rv_Reason r)) (concat (map (\<lambda>g. case reconcile_grant prev d g of Inl _ \<Rightarrow> [] | Inr r \<Rightarrow> [r]) gs)) =
      map (\<lambda>g. (gr_Person g, gr_Machine g, why d g)) (filter (doomed prev d) gs)" for gs
  proof (induction gs)
    case (Cons g gs)
    then show ?case using spec [of g] by (cases "doomed prev d g") auto
  qed simp
  then show "map (\<lambda>r. (rv_Person r, rv_Machine r, rv_Reason r)) (snd (reconcileGrants prev d)) =
      map (\<lambda>g. (gr_Person g, gr_Machine g, why d g)) (filter (doomed prev d) (gs_Grants d))"
    by (simp add: reconcileGrants_def partition_sum_eq comp_def)
  assume "g' \<in> set (gs_Grants (fst (reconcileGrants prev d)))" and ex: "existing prev g' old"
  then obtain g where "reconcile_grant prev d g = Inl g'"
    by (auto simp: reconcileGrants_def partition_sum_eq split: sum.splits)
  with spec [of g] ex show "gr_MachineKeyFingerprint g' = gr_MachineKeyFingerprint old"
    by (cases "doomed prev d g") (auto simp: existing_def)
qed

lemma update_committed:
  assumes "Update enc i fn s = (t, None)" "fn (so_state s) = Some d"
  shows "wf_state (final_draft (so_state s) d) \<and> so_state t = applyMachineDefaults (final_draft (so_state s) d) \<and>
    so_revocations t = so_revocations s @ snd (reconcileGrants (so_state s) d)"
proof -
  have "transact enc i d s = (t, None)" using assms by (simp add: Update_def split: if_splits)
  then show ?thesis
  proof (cases rule: transact_cases)
    case (committed u)
    then have "so_state u = applyMachineDefaults (final_draft (so_state s) d) \<and> so_revocations u = so_revocations s"
      by (auto simp: commitLocked_def saveAtomicLocked_def split: option.splits save_io.splits prod.splits)
    with committed show ?thesis by simp
  qed simp
qed

text \<open>
  C10. A grant is never moved onto another key. Take a well-formed state and any transaction that succeeds. A grant for a pair
  that had one before still carries the pin it had, whatever the transaction wrote there, and the machine of that
  id presents exactly that key now; so a machine that was re-keyed, or removed and enrolled again under the same
  id, does not inherit the access given to the machine before it.
\<close>

theorem grants_never_repinned:
  assumes "wf_state (so_state s)" "Update enc i fn s = (t, None)"
    and "g \<in> set (gs_Grants (so_state s))" "g' \<in> set (gs_Grants (so_state t))" "pair_of g' = pair_of g"
  shows "gr_MachineKeyFingerprint g' = gr_MachineKeyFingerprint g \<and>
    (\<exists>m \<in> set (gs_Machines (so_state t)). mc_ID m = gr_Machine g \<and> ComputeFingerprint (mc_MachineKey m) = Inr (gr_MachineKeyFingerprint g))"
proof -
  obtain d where d: "fn (so_state s) = Some d" using assms(2) by (auto simp: Update_def split: if_splits option.splits)
  note u = update_committed [OF assms(2) d]
  let ?f = "final_draft (so_state s) d"
  have wf: "wf_state ?f" and g': "g' \<in> set (gs_Grants ?f)" using u assms(4) by simp_all
  have "distinct (map pair_of (gs_Grants (so_state s)))" "distinct (map mc_ID (gs_Machines d))"
    using wf_stateD(4) [OF assms(1)] wf_stateD(4) [OF wf] by simp_all
  then have pin: "gr_MachineKeyFingerprint g' = gr_MachineKeyFingerprint g"
    using reconcileGrants_spec(3) [of "so_state s" d g' g] g' assms(3,5) by (auto simp: existing_def)
  obtain m where "m \<in> set (gs_Machines ?f)" "mc_ID m = gr_Machine g'" "fp_of (mc_MachineKey m) = gr_MachineKeyFingerprint g'"
    using wf_stateD(3) [OF wf g'] by (auto simp: wf_grant_def)
  moreover from this(1) have "ComputeFingerprint (mc_MachineKey m) = Inr (fp_of (mc_MachineKey m))"
    using wf_stateD(2) [OF wf] by (intro material_fp) (auto simp: wf_machine_def)
  ultimately show ?thesis using u pin assms(5) by (intro conjI bexI [of _ "applySpecDefaults m"]) auto
qed

text \<open>
  C30. Access never disappears without a record. Of the grants a successful transaction leaves in its draft, exactly those
  that existed before and lost their person, their machine or the key they were pinned to are withdrawn; each is
  reported to the journal once, in order, with the reason, after everything reported before; all the others are kept.
\<close>

theorem revocations_accounted:
  assumes "wf_state (so_state s)" "Update enc i fn s = (t, None)" "fn (so_state s) = Some d"
  shows "map pair_of (gs_Grants (so_state t)) = map pair_of (filter (\<lambda>g. \<not> doomed (so_state s) d g) (gs_Grants d)) \<and>
    map (\<lambda>r. (rv_Person r, rv_Machine r, rv_Reason r)) (so_revocations t) =
      map (\<lambda>r. (rv_Person r, rv_Machine r, rv_Reason r)) (so_revocations s) @
      map (\<lambda>g. (gr_Person g, gr_Machine g, why d g)) (filter (doomed (so_state s) d) (gs_Grants d))"
proof -
  note u = update_committed [OF assms(2,3)]
  have "distinct (map pair_of (gs_Grants (so_state s)))" "distinct (map mc_ID (gs_Machines d))"
    using wf_stateD(4) [OF assms(1)] u wf_stateD(4) [of "final_draft (so_state s) d"] by simp_all
  from reconcileGrants_spec(1,2) [OF this] u show ?thesis by simp
qed


definition demo_pub :: string where "demo_pub = ''AAAAAXg=''"

definition demo_machine :: machine_rec where
  "demo_machine = \<lparr>mc_ID = ''m1'', mc_Name = ''m1'', mc_State = ''verified'', mc_MachineKey = demo_pub, mc_SSHDHostKey = None,
     mc_ObservedSSHDHostKey = None, mc_HostKeyStatus = ''unverified'', mc_RequestedOSUser = '''', mc_VerifiedOSUser = None,
     mc_OSUserStatus = ''pending'', mc_OSUser = ''bob'', mc_Door = None, mc_EnrolPending = None\<rparr>"

definition demo_granted :: gw_state where
  "demo_granted = demo_state\<lparr>gs_Machines := [demo_machine], gs_Grants := [\<lparr>gr_Person = ''alice'', gr_Machine = ''m1'',
     gr_MachineKeyFingerprint = fp_of demo_pub, gr_Until = None, gr_Caps = [''shell'']\<rparr>]\<rparr>"

lemma demo_key_ok: "ValidateKeyMaterial demo_pub = None"
  unfolding demo_pub_def by code_simp

lemma demo_names: "nameRe ''m1''" "nameRe ''alice''" "ValidateOSUser ''bob'' = None"
  by code_simp+

lemma demo_machine_ok: "wf_machine demo_machine"
  by (simp add: wf_machine_def demo_machine_def wf_host_key_def demo_names demo_key_ok IsValidOSUserStatus_def
      OSUserStatusPending_def HostKeyStatusUnverified_def)

lemma demo_granted_ok: "wf_state demo_granted"
  by (simp add: demo_granted_def demo_state_def NewState_def wf_state_def wf_ids_def wf_refs_def demo_machine_ok wf_person_def
      demo_names all_fps_def refers_def wf_grant_def)
    (simp add: demo_machine_def machine_keys_def)

lemma update_runs:
  assumes "\<not> so_readOnly s" "fn (so_state s) = Some d" "checkFreshDoorDeadlines (so_state s) d (si_now i)"
    "wf_state (final_draft (so_state s) d)" "enc (applyMachineDefaults (final_draft (so_state s) d)) \<noteq> None" "si_save i = SaveDone"
  shows "\<exists>t. Update enc i fn s = (t, None)"
  using assms by (auto simp: Update_def transact_eq Validate_wf commitLocked_def saveAtomicLocked_def split: option.split)

lemma demo_machine_fp: "machine_fps demo_granted ''m1'' = Some (fp_of demo_pub)"
  by (simp add: machine_fps_def demo_granted_def demo_machine_def fp_of_def)

lemma demo_kept: "final_draft demo_granted demo_granted = demo_granted"
proof -
  have "reconcileGrants demo_granted demo_granted = (demo_granted, [])"
    by (simp add: reconcileGrants_def reconcile_grant_def demo_machine_fp Let_def)
      (simp add: demo_granted_def demo_state_def NewState_def demo_machine_def prev_grants_def reconcile_grant_def HasPerson_def
        machine_fps_def Let_def fp_of_def [symmetric])
  then show ?thesis
    by (simp add: final_draft_def reconcileGoals_def reconcileRecentCommands_def)
       (simp add: demo_granted_def demo_state_def NewState_def)
qed

theorem grants_never_repinned_witness:
  "\<exists>t. Update demo_senc demo_sin Some (demo_store demo_granted ''A'') = (t, None) \<and>
     (\<forall>g \<in> set (gs_Grants (so_state t)). \<exists>m \<in> set (gs_Machines (so_state t)).
        ComputeFingerprint (mc_MachineKey m) = Inr (gr_MachineKeyFingerprint g))"
proof -
  have fresh: "checkFreshDoorDeadlines demo_granted demo_granted 1"
    by (simp add: checkFreshDoorDeadlines_def stale_door_def demo_granted_def demo_machine_def)
  obtain t where t: "Update demo_senc demo_sin Some (demo_store demo_granted ''A'') = (t, None)"
    using update_runs [of "demo_store demo_granted ''A''" Some demo_granted demo_sin demo_senc] demo_kept demo_granted_ok fresh
    by (auto simp: demo_store_def demo_senc_def demo_sin_def)
  have wf: "wf_state (so_state (demo_store demo_granted ''A''))" using demo_granted_ok by (simp add: demo_store_def)
  have "gs_Grants (so_state t) = gs_Grants (so_state (demo_store demo_granted ''A''))"
    using update_committed [OF t] demo_kept by (simp add: demo_store_def del: final_draft_simps)
  with grants_never_repinned [OF wf t] t show ?thesis by metis
qed

definition demo_without_machine :: gw_state where
  "demo_without_machine = demo_granted\<lparr>gs_Machines := []\<rparr>"

lemma demo_removal:
  "reconcileGrants demo_granted demo_without_machine = (demo_without_machine\<lparr>gs_Grants := []\<rparr>,
     [\<lparr>rv_Person = ''alice'', rv_Machine = ''m1'', rv_PinnedKeyFP = fp_of demo_pub, rv_CurrentKeyFP = '''', rv_Caps = [''shell''],
       rv_Reason = RevokedMachineRemoved\<rparr>])"
  by (simp add: reconcileGrants_def reconcile_grant_def demo_without_machine_def demo_granted_def demo_state_def NewState_def
      prev_grants_def machine_fps_def HasPerson_def Let_def)

theorem revocations_accounted_witness:
  "\<exists>t. Update demo_senc demo_sin (\<lambda>_. Some demo_without_machine) (demo_store demo_granted ''A'') = (t, None) \<and>
     gs_Grants (so_state t) = [] \<and>
     map (\<lambda>r. (rv_Person r, rv_Machine r, rv_Reason r)) (so_revocations t) = [(''alice'', ''m1'', RevokedMachineRemoved)]"
proof -
  have fresh: "checkFreshDoorDeadlines demo_granted demo_without_machine 1"
    by (simp add: checkFreshDoorDeadlines_def demo_without_machine_def)
  have "final_draft demo_granted demo_without_machine = demo_state"
    by (simp add: final_draft_def demo_removal reconcileGoals_def reconcileRecentCommands_def)
      (simp add: demo_without_machine_def demo_granted_def demo_state_def NewState_def)
  moreover have "wf_state demo_state" unfolding Validate_wf [symmetric] by code_simp
  ultimately obtain t where t: "Update demo_senc demo_sin (\<lambda>_. Some demo_without_machine) (demo_store demo_granted ''A'') = (t, None)"
    using update_runs [of "demo_store demo_granted ''A''" "\<lambda>_. Some demo_without_machine" demo_without_machine demo_sin demo_senc] fresh
    by (auto simp: demo_store_def demo_senc_def demo_sin_def)
  have wf: "wf_state (so_state (demo_store demo_granted ''A''))" using demo_granted_ok by (simp add: demo_store_def)
  have "filter (doomed demo_granted demo_without_machine) (gs_Grants demo_without_machine) = gs_Grants demo_without_machine"
    by (simp add: doomed_def existing_def demo_without_machine_def demo_granted_def)
  moreover have "map (\<lambda>g. (gr_Person g, gr_Machine g, why demo_without_machine g)) (gs_Grants demo_without_machine) =
      [(''alice'', ''m1'', RevokedMachineRemoved)]"
    by (simp add: why_def demo_without_machine_def demo_granted_def demo_state_def NewState_def)
  ultimately show ?thesis using revocations_accounted [OF wf t refl] t
    by (auto simp: demo_store_def filter_empty_conv filter_id_conv)
qed

section \<open>Lookups find the one owner\<close>

text \<open>Who a fingerprint belongs to, stated without an order of search.\<close>

inductive owns :: "gw_state \<Rightarrow> subject \<Rightarrow> string \<Rightarrow> bool" for st where
  own_person: "p \<in> set (gs_People st) \<Longrightarrow> k \<in> set (pe_Keys p) \<Longrightarrow>
    owns st \<lparr>sub_name = pe_Name p, sub_role = RolePerson\<rparr> (ky_Fingerprint k)"
| own_machine: "m \<in> set (gs_Machines st) \<Longrightarrow> owns st \<lparr>sub_name = mc_ID m, sub_role = RoleMachine\<rparr> (fp_of (mc_MachineKey m))"
| own_pending: "e \<in> set (gs_PendingEnrolments st) \<Longrightarrow> owns st \<lparr>sub_name = '''', sub_role = RoleEnrol\<rparr> (fp_of (pd_PublicKey e))"
| own_bootstrap: "gs_BootstrapPending st = Some b \<Longrightarrow>
    owns st \<lparr>sub_name = '''', sub_role = RoleBootstrap\<rparr> (fp_of (bp_PublicKey b))"

lemma find_some: "find P xs = Some x \<Longrightarrow> x \<in> set xs \<and> P x"
  by (induction xs) (auto split: if_splits)

lemma find_none: "find P xs = None \<longleftrightarrow> (\<forall>x \<in> set xs. \<not> P x)"
  by (induction xs) auto

lemma view_Resolve_owns:
  assumes "wf_state st"
  shows "view_Resolve st fp = Some sub \<Longrightarrow> owns st sub fp" "view_Resolve st fp = None \<Longrightarrow> \<not> owns st sub fp"
proof -
  have m: "ComputeFingerprint (mc_MachineKey m) = Inr (fp_of (mc_MachineKey m))" if "m \<in> set (gs_Machines st)" for m
    using wf_stateD(2) [OF assms that] by (intro material_fp) (simp add: wf_machine_def)
  have e: "ComputeFingerprint (pd_PublicKey e) = Inr (fp_of (pd_PublicKey e))" if "e \<in> set (gs_PendingEnrolments st)" for e
    using assms that by (intro material_fp) (simp add: wf_state_def wf_ids_def wf_pending_def wf_secret_def)
  have b: "ComputeFingerprint (bp_PublicKey b) = Inr (fp_of (bp_PublicKey b))" if "gs_BootstrapPending st = Some b" for b
    using assms that by (intro material_fp) (simp add: wf_state_def wf_ids_def wf_secret_def)
  show "owns st sub fp" if "view_Resolve st fp = Some sub"
    using that m e b unfolding view_Resolve_def personWithKey_def
    by (fastforce simp: list_ex_iff dest!: find_some split: option.splits if_splits intro: owns.intros)
  show "\<not> owns st sub fp" if "view_Resolve st fp = None"
    using that m e b unfolding view_Resolve_def personWithKey_def
    by (auto simp: list_ex_iff find_none elim!: owns.cases split: option.splits if_splits)
qed


definition owner_list :: "gw_state \<Rightarrow> (string \<times> subject) list" where
  "owner_list st =
     concat (map (\<lambda>p. map (\<lambda>k. (ky_Fingerprint k, \<lparr>sub_name = pe_Name p, sub_role = RolePerson\<rparr>)) (pe_Keys p)) (gs_People st)) @
     map (\<lambda>m. (fp_of (mc_MachineKey m), \<lparr>sub_name = mc_ID m, sub_role = RoleMachine\<rparr>)) (gs_Machines st) @
     (case gs_BootstrapPending st of None \<Rightarrow> [] | Some b \<Rightarrow> [(fp_of (bp_PublicKey b), \<lparr>sub_name = '''', sub_role = RoleBootstrap\<rparr>)]) @
     map (\<lambda>e. (fp_of (pd_PublicKey e), \<lparr>sub_name = '''', sub_role = RoleEnrol\<rparr>)) (gs_PendingEnrolments st)"

lemma owns_iff_listed: "owns st sub fp \<longleftrightarrow> (fp, sub) \<in> set (owner_list st)"
  by (auto simp: owner_list_def elim!: owns.cases intro: owns.intros split: option.splits)

lemma distinct_heads:
  "distinct (concat (map (\<lambda>m. x m # ys m) ms)) \<Longrightarrow> distinct (map x ms)"
  by (induction ms) auto

lemma distinct_narrow:
  "distinct (as @ bs @ cs) \<Longrightarrow> distinct bs' \<Longrightarrow> set bs' \<subseteq> set bs \<Longrightarrow> distinct (as @ bs' @ cs)"
  by auto

lemma distinct_owner_list:
  assumes "distinct (all_fps st)"
  shows "distinct (map fst (owner_list st))"
proof -
  let ?ms = "map fp_of (concat (map machine_keys (gs_Machines st)))"
  have "distinct ?ms" using assms by (simp add: all_fps_def)
  then have "distinct (map (\<lambda>m. fp_of (mc_MachineKey m)) (gs_Machines st))"
    by (intro distinct_heads [of _ "\<lambda>m. map fp_of (tl (machine_keys m))"]) (simp add: map_concat comp_def machine_keys_def)
  moreover have "set (map (\<lambda>m. fp_of (mc_MachineKey m)) (gs_Machines st)) \<subseteq> set ?ms"
    by (auto simp: machine_keys_def)
  ultimately have "distinct (concat (map (\<lambda>p. map ky_Fingerprint (pe_Keys p)) (gs_People st)) @
      map (\<lambda>m. fp_of (mc_MachineKey m)) (gs_Machines st) @
      (case gs_BootstrapPending st of None \<Rightarrow> [] | Some b \<Rightarrow> [fp_of (bp_PublicKey b)]) @
      map (\<lambda>e. fp_of (pd_PublicKey e)) (gs_PendingEnrolments st))"
    by (intro distinct_narrow [OF assms [unfolded all_fps_def]])
  then show ?thesis
    by (simp add: owner_list_def map_concat comp_def split: option.splits)
qed

lemma owner_unique:
  "wf_state st \<Longrightarrow> owns st sub fp \<Longrightarrow> owns st sub' fp \<Longrightarrow> sub = sub'"
  unfolding owns_iff_listed using distinct_owner_list [of st] wf_stateD(4) [of st]
  by (metis eq_key_imp_eq_value)

text \<open>
  C23. A key belongs to one subject, and the lookup finds it. On a well-formed state the search Resolve makes - people, then
  machines, then pending enrolments, then the bootstrap key, the first match winning - returns a subject exactly when
  that subject owns the fingerprint, and nothing exactly when nobody does; so no order of search, and no
  other order of the lists, could answer differently.
\<close>

theorem lookup_finds_the_owner:
  assumes "wf_state st"
  shows "view_Resolve st fp = Some sub \<longleftrightarrow> owns st sub fp"
proof
  assume "owns st sub fp"
  with view_Resolve_owns [OF assms, of fp] obtain sub' where "view_Resolve st fp = Some sub'" "owns st sub' fp"
    by (cases "view_Resolve st fp") auto
  with owner_unique [OF assms _ \<open>owns st sub fp\<close>] show "view_Resolve st fp = Some sub" by blast
qed (rule view_Resolve_owns(1) [OF assms])

theorem lookup_finds_the_owner_witness:
  "view_Resolve demo_granted (fp_of demo_pub) = Some \<lparr>sub_name = ''m1'', sub_role = RoleMachine\<rparr>"
  using lookup_finds_the_owner [OF demo_granted_ok] own_machine [of demo_machine demo_granted]
  by (simp add: demo_granted_def demo_machine_def)

section \<open>Renaming a person\<close>

abbreviation rn :: "string \<Rightarrow> string \<Rightarrow> string \<Rightarrow> string" where
  "rn src dst n \<equiv> if n = src then dst else n"

definition rn_grant :: "string \<Rightarrow> string \<Rightarrow> grant_rec \<Rightarrow> grant_rec" where
  "rn_grant src dst g = (if gr_Person g = src then g\<lparr>gr_Person := dst\<rparr> else g)"

definition rn_goal :: "string \<Rightarrow> string \<Rightarrow> goal_record \<Rightarrow> goal_record" where
  "rn_goal src dst g = (if go_Person g = src then g\<lparr>go_Person := dst\<rparr> else g)"

definition rn_person :: "string \<Rightarrow> string \<Rightarrow> person \<Rightarrow> person" where
  "rn_person src dst p = (if pe_Name p = src then p\<lparr>pe_Name := dst\<rparr> else p)"

lemma rn_fields [simp]:
  "gr_Person (rn_grant src dst g) = rn src dst (gr_Person g)" "gr_Machine (rn_grant src dst g) = gr_Machine g"
  "gr_MachineKeyFingerprint (rn_grant src dst g) = gr_MachineKeyFingerprint g" "gr_Caps (rn_grant src dst g) = gr_Caps g"
  "go_Person (rn_goal src dst r) = rn src dst (go_Person r)" "go_Machine (rn_goal src dst r) = go_Machine r"
  "go_Current (rn_goal src dst r) = go_Current r" "go_History (rn_goal src dst r) = go_History r"
  "pe_Name (rn_person src dst p) = rn src dst (pe_Name p)" "pe_Role (rn_person src dst p) = pe_Role p"
  "pe_Keys (rn_person src dst p) = pe_Keys p"
  by (simp_all add: rn_grant_def rn_goal_def rn_person_def)

definition renamed :: "gw_state \<Rightarrow> string \<Rightarrow> string \<Rightarrow> gw_state" where
  "renamed s src dst = s\<lparr>gs_People := map (rn_person src dst) (gs_People s), gs_Grants := map (rn_grant src dst) (gs_Grants s),
     gs_Goals := map (rn_goal src dst) (gs_Goals s)\<rparr>"

lemma renamed_simps [simp]:
  "gs_People (renamed s src dst) = map (rn_person src dst) (gs_People s)" "gs_Machines (renamed s src dst) = gs_Machines s"
  "gs_Grants (renamed s src dst) = map (rn_grant src dst) (gs_Grants s)" "gs_Goals (renamed s src dst) = map (rn_goal src dst) (gs_Goals s)"
  "gs_CommandHistory (renamed s src dst) = gs_CommandHistory s"
  by (simp_all add: renamed_def)

lemma rename_names: "pe_Name ` set (gs_People (renamed s src dst)) = rn src dst ` pe_Name ` set (gs_People s)"
proof -
  have "pe_Name ` set (map (rn_person src dst) ps) = rn src dst ` pe_Name ` set ps" for ps
    by (induction ps) auto
  then show ?thesis by (simp only: renamed_simps)
qed

lemma refers_renamed: "refers s p m \<Longrightarrow> refers (renamed s src dst) (rn src dst p) m"
  unfolding refers_def rename_names by auto

lemma rename_keeps_grant:
  assumes "wf_state s" "dst \<notin> pe_Name ` set (gs_People s)" "g \<in> set (gs_Grants s)"
  shows "reconcile_grant s (renamed s src dst) (rn_grant src dst g) = Inl (rn_grant src dst g)"
proof -
  let ?g = "rn_grant src dst g"
  have wf: "wf_grant s g" "refers s (gr_Person g) (gr_Machine g)" using wf_stateD(3) [OF assms(1,3)] by auto
  have d: "distinct (map pair_of (gs_Grants s))" "distinct (map mc_ID (gs_Machines s))" using wf_stateD(4) [OF assms(1)] by auto
  have "machine_fps (renamed s src dst) (gr_Machine g) = Some (gr_MachineKeyFingerprint g)"
    using wf(1) d(2) machine_fps_wf [of "renamed s src dst" "gr_Machine g"] by (auto simp: wf_grant_def)
  moreover have "HasPerson (renamed s src dst) (gr_Person ?g)"
    using wf(2) unfolding HasPerson_iff rename_names by (auto simp: refers_def)
  moreover have "gr_MachineKeyFingerprint g \<noteq> ''''"
  proof -
    obtain m where m: "m \<in> set (gs_Machines s)" "fp_of (mc_MachineKey m) = gr_MachineKeyFingerprint g"
      using wf(1) by (auto simp: wf_grant_def)
    then have "ValidateKeyMaterial (mc_MachineKey m) = None" using wf_stateD(2) [OF assms(1)] by (simp add: wf_machine_def)
    from fp_of_nonblank [OF material_fp [OF this]] m show ?thesis by (auto simp: TrimSpace_def trim_left.simps trim_end.simps last_space_width_def)
  qed
  moreover have "prev_grants s (pair_of ?g) = (if gr_Person g = src then None else Some g)"
  proof (cases "gr_Person g = src")
    case True
    have "\<not> existing s ?g old" for old
      using True assms(2) wf_stateD(3) [OF assms(1), of old] by (auto simp: existing_def refers_def)
    then show ?thesis using True prev_grants_wf [OF d(1), of ?g] by (metis option.exhaust)
  next
    case False
    then show ?thesis using prev_grants_wf [OF d(1), of g g] assms(3) by (simp add: existing_def)
  qed
  ultimately show ?thesis by (simp add: reconcile_grant_def Let_def split: if_splits)
qed

lemma partition_Inl: "partition_sum (map Inl xs) = (xs, [])"
  by (induction xs) simp_all

lemma rename_final:
  assumes "wf_state s" "dst \<notin> pe_Name ` set (gs_People s)"
  shows "reconcileGrants s (renamed s src dst) = (renamed s src dst, [])"
    "src \<in> pe_Name ` set (gs_People s) \<Longrightarrow> final_draft s (renamed s src dst) =
       (renamed s src dst)\<lparr>gs_CommandHistory := filter (\<lambda>h. ch_Person h \<noteq> src) (gs_CommandHistory s)\<rparr>"
proof -
  have "map (reconcile_grant s (renamed s src dst)) (gs_Grants (renamed s src dst)) = map Inl (gs_Grants (renamed s src dst))"
    using rename_keeps_grant [OF assms] by simp
  then show r: "reconcileGrants s (renamed s src dst) = (renamed s src dst, [])"
    by (simp only: reconcileGrants_def partition_Inl prod.case) (simp add: renamed_def)
  assume src: "src \<in> pe_Name ` set (gs_People s)"
  have goals: "\<forall>g \<in> set (gs_Goals s). refers s (go_Person g) (go_Machine g)" and
    hist: "\<forall>h \<in> set (gs_CommandHistory s). refers s (ch_Person h) (ch_Machine h)"
    using assms(1) by (simp_all add: wf_state_def wf_refs_def)
  have mach: "MachineByID (renamed s src dst) m \<noteq> None \<longleftrightarrow> m \<in> mc_ID ` set (gs_Machines s)" for m
    by (auto simp: MachineByID_def find_None_iff)
  have "reconcileGoals (renamed s src dst) = renamed s src dst"
  proof -
    have "HasPerson (renamed s src dst) (go_Person g) \<and> MachineByID (renamed s src dst) (go_Machine g) \<noteq> None"
      if "g \<in> set (gs_Goals (renamed s src dst))" for g
      using that goals refers_renamed [of s _ _ src dst] unfolding mach HasPerson_iff rename_names
      by (auto simp: refers_def split: if_splits)
    then have "filter (\<lambda>g. HasPerson (renamed s src dst) (go_Person g) \<and> MachineByID (renamed s src dst) (go_Machine g) \<noteq> None)
        (gs_Goals (renamed s src dst)) = gs_Goals (renamed s src dst)" by (simp only: filter_id_conv) blast
    then show ?thesis unfolding reconcileGoals_def by (simp only:) (simp add: renamed_def)
  qed
  moreover have "filter (\<lambda>h. HasPerson (renamed s src dst) (ch_Person h) \<and> MachineByID (renamed s src dst) (ch_Machine h) \<noteq> None)
      (gs_CommandHistory s) = filter (\<lambda>h. ch_Person h \<noteq> src) (gs_CommandHistory s)"
    using hist assms(2) src unfolding mach HasPerson_iff rename_names
    by (intro filter_cong) (auto simp: refers_def)
  ultimately show "final_draft s (renamed s src dst) =
       (renamed s src dst)\<lparr>gs_CommandHistory := filter (\<lambda>h. ch_Person h \<noteq> src) (gs_CommandHistory s)\<rparr>"
    by (simp add: final_draft_def r reconcileRecentCommands_def)
qed


lemma all_fps_renamed: "all_fps (renamed s src dst) = all_fps s"
  by (simp add: all_fps_def renamed_def comp_def)

lemma distinct_rename:
  assumes "distinct (map (\<lambda>x. (f x, h x)) xs)" "dst \<notin> f ` set xs"
    and "\<And>x. f (r x) = rn src dst (f x)" "\<And>x. h (r x) = h x"
  shows "distinct (map (\<lambda>x. (f x, h x)) (map r xs))"
proof -
  have "inj_on (\<lambda>(p, m). (rn src dst p, m)) ((\<lambda>x. (f x, h x)) ` set xs)"
    using assms(2) by (auto simp: inj_on_def split: if_splits)
  with assms(1) have "distinct (map (\<lambda>(p, m). (rn src dst p, m)) (map (\<lambda>x. (f x, h x)) xs))"
    by (simp only: distinct_map set_map)
  then show ?thesis by (simp add: comp_def assms(3,4))
qed

lemma rename_wf_ids:
  assumes "wf_state s" "dst \<notin> pe_Name ` set (gs_People s)" "nameRe dst"
  shows "wf_ids ((renamed s src dst)\<lparr>gs_CommandHistory := hs\<rparr>)"
proof -
  have p: "distinct (map pe_Name (map (rn_person src dst) (gs_People s)))"
  proof -
    have "distinct (map (\<lambda>p. (pe_Name p, ())) (map (rn_person src dst) (gs_People s)))"
    proof (rule distinct_rename [where dst = dst and src = src])
      show "distinct (map (\<lambda>p. (pe_Name p, ())) (gs_People s))"
        using wf_stateD(4) [OF assms(1)] by (simp add: distinct_map inj_on_def)
    qed (use assms(2) in auto)
    then show ?thesis by (simp add: distinct_map inj_on_def)
  qed
  have w: "\<forall>p \<in> set (gs_People s). wf_person (rn_person src dst p)"
    using wf_stateD(1) [OF assms(1)] assms(3) by (simp add: wf_person_def)
  have "all_fps ((renamed s src dst)\<lparr>gs_CommandHistory := hs\<rparr>) = all_fps s"
    using all_fps_renamed [of s src dst] by (simp add: all_fps_def)
  with p w assms(1) show ?thesis
    unfolding wf_state_def wf_ids_def by (simp add: renamed_def del: map_map)
qed

lemma rename_wf:
  assumes "wf_state s" "dst \<notin> pe_Name ` set (gs_People s)" "nameRe dst"
  shows "wf_state ((renamed s src dst)\<lparr>gs_CommandHistory := filter (\<lambda>h. ch_Person h \<noteq> src) (gs_CommandHistory s)\<rparr>)"
    (is "wf_state ?f")
proof -
  have refs: "wf_refs s" using assms(1) by (simp add: wf_state_def)
  have ref: "refers s p m \<Longrightarrow> refers ?f (rn src dst p) m" for p m
    using refers_renamed [of s p m src dst] by (simp add: refers_def del: renamed_simps)
  have goals: "\<forall>g \<in> set (gs_Goals s). refers s (go_Person g) (go_Machine g) \<and> wf_goal g"
    and hist: "\<forall>h \<in> set (gs_CommandHistory s). refers s (ch_Person h) (ch_Machine h) \<and> wf_history h"
    and grants: "\<forall>g \<in> set (gs_Grants s). refers s (gr_Person g) (gr_Machine g) \<and> wf_grant s g"
    using refs unfolding wf_refs_def by blast+
  have wf': "wf_goal (rn_goal src dst g) = wf_goal g" "wf_grant ?f (rn_grant src dst g') = wf_grant s g'" for g g'
    by (simp_all add: wf_goal_def wf_grant_def)
  have a: "\<forall>m \<in> set (gs_Machines ?f). mc_Name m \<in> mc_ID ` set (gs_Machines ?f) \<longrightarrow> mc_Name m = mc_ID m"
      "\<forall>k. gs_ExternalRiskKey ?f = Some k \<longrightarrow> wf_risk_key k"
      "distinct (map (\<lambda>h. (ch_Person h, ch_Machine h)) (gs_CommandHistory ?f))"
  proof -
    have m: "gs_Machines ?f = gs_Machines s" "gs_ExternalRiskKey ?f = gs_ExternalRiskKey s" by (simp_all add: renamed_def)
    show "\<forall>m \<in> set (gs_Machines ?f). mc_Name m \<in> mc_ID ` set (gs_Machines ?f) \<longrightarrow> mc_Name m = mc_ID m"
      "\<forall>k. gs_ExternalRiskKey ?f = Some k \<longrightarrow> wf_risk_key k"
      using refs unfolding m wf_refs_def by blast+
    have "distinct (map (\<lambda>h. (ch_Person h, ch_Machine h)) (gs_CommandHistory s))" using refs unfolding wf_refs_def by blast
    then show "distinct (map (\<lambda>h. (ch_Person h, ch_Machine h)) (gs_CommandHistory ?f))" by (simp add: distinct_map_filter)
  qed
  have b: "\<forall>g \<in> set (gs_Goals ?f). refers ?f (go_Person g) (go_Machine g) \<and> wf_goal g"
  proof
    fix g assume "g \<in> set (gs_Goals ?f)"
    then obtain g0 where g0: "g0 \<in> set (gs_Goals s)" "g = rn_goal src dst g0" by auto
    with goals have "refers s (go_Person g0) (go_Machine g0)" "wf_goal g0" by auto
    with ref show "refers ?f (go_Person g) (go_Machine g) \<and> wf_goal g"
      unfolding g0(2) rn_fields wf' by blast
  qed
  have c: "\<forall>g \<in> set (gs_Grants ?f). refers ?f (gr_Person g) (gr_Machine g) \<and> wf_grant ?f g"
  proof
    fix g assume "g \<in> set (gs_Grants ?f)"
    then obtain g0 where g0: "g0 \<in> set (gs_Grants s)" "g = rn_grant src dst g0" by auto
    with grants have "refers s (gr_Person g0) (gr_Machine g0)" "wf_grant s g0" by auto
    with ref show "refers ?f (gr_Person g) (gr_Machine g) \<and> wf_grant ?f g"
      unfolding g0(2) rn_fields wf' by blast
  qed
  have d: "\<forall>h \<in> set (gs_CommandHistory ?f). refers ?f (ch_Person h) (ch_Machine h) \<and> wf_history h"
  proof
    fix h assume "h \<in> set (gs_CommandHistory ?f)"
    then have "h \<in> set (gs_CommandHistory s)" "ch_Person h \<noteq> src" by auto
    with hist ref [of "ch_Person h" "ch_Machine h"] show "refers ?f (ch_Person h) (ch_Machine h) \<and> wf_history h" by simp
  qed
  have e: "distinct (map (\<lambda>g. (go_Person g, go_Machine g)) (map (rn_goal src dst) (gs_Goals s)))"
    "distinct (map pair_of (map (rn_grant src dst) (gs_Grants s)))"
  proof -
    have n: "dst \<notin> go_Person ` set (gs_Goals s)" "dst \<notin> gr_Person ` set (gs_Grants s)"
      using goals grants assms(2) unfolding refers_def by blast+
    have q: "distinct (map (\<lambda>g. (go_Person g, go_Machine g)) (gs_Goals s))" "distinct (map pair_of (gs_Grants s))"
      using refs unfolding wf_refs_def by blast+
    show "distinct (map (\<lambda>g. (go_Person g, go_Machine g)) (map (rn_goal src dst) (gs_Goals s)))"
      by (rule distinct_rename [OF q(1) n(1)]) simp_all
    show "distinct (map pair_of (map (rn_grant src dst) (gs_Grants s)))"
      by (rule distinct_rename [OF q(2) n(2)]) simp_all
  qed
  have "gs_Goals ?f = map (rn_goal src dst) (gs_Goals s)" "gs_Grants ?f = map (rn_grant src dst) (gs_Grants s)" by simp_all
  with e have e': "distinct (map (\<lambda>g. (go_Person g, go_Machine g)) (gs_Goals ?f))" "distinct (map pair_of (gs_Grants ?f))"
    by (simp_all only:)
  have "wf_refs ?f" unfolding wf_refs_def by (intro conjI a b c d e')
  then show ?thesis using rename_wf_ids [OF assms] by (simp add: wf_state_def)
qed

lemma fresh_unchanged_doors:
  assumes "distinct (map mc_ID (gs_Machines s))" "gs_Machines d = gs_Machines s"
  shows "checkFreshDoorDeadlines s d now"
proof -
  have "prev_doors s (mc_ID m) = Some dr" if "m \<in> set (gs_Machines s)" "mc_Door m = Some dr" for m dr
  proof -
    let ?ds = "List.map_filter (\<lambda>m. map_option (\<lambda>d. (mc_ID m, d)) (mc_Door m)) (gs_Machines s)"
    have "map fst ?ds = map mc_ID (filter (\<lambda>m. mc_Door m \<noteq> None) (gs_Machines s))"
      by (induction "gs_Machines s") (auto simp: map_filter_def)
    then have "distinct (map fst (rev ?ds))" using assms(1) by (simp add: rev_map [symmetric] distinct_map_filter)
    moreover have "(mc_ID m, dr) \<in> set ?ds" using that by (force simp: map_filter_def)
    ultimately show ?thesis unfolding prev_doors_def by (subst map_of_eq_Some_iff) auto
  qed
  then show ?thesis
    unfolding checkFreshDoorDeadlines_def assms(2)
    by (auto simp: list_ex_iff stale_door_def stale_field_def split: option.splits)
qed

lemma RenamePerson_renamed:
  "src \<in> pe_Name ` set (gs_People s) \<Longrightarrow> dst \<notin> pe_Name ` set (gs_People s) \<Longrightarrow> RenamePerson s src dst = Inr (renamed s src dst, True)"
  by (simp add: RenamePerson_def HasPerson_iff renamed_def rn_person_def rn_grant_def rn_goal_def)



end
