(* ===== verification/State_Ops.thy ===== *)
theory State_Ops
  imports State_Grants
begin

text \<open>
  The single operations on the state: the bounds of the recent-command history, and that every operation keeps a
  well-formed state well formed.
\<close>

section \<open>Recent commands\<close>


lemma cut_down_le: "cut_down s n \<le> n"
  by (induction s n rule: cut_down.induct) (auto split: if_splits)

lemma utf8Cut_le: "0 \<le> limit \<Longrightarrow> int (utf8Cut s limit) \<le> limit \<and> utf8Cut s limit \<le> length s"
  using cut_down_le [of s "nat limit"] by (auto simp: utf8Cut_def)

text \<open>The cut never splits a character: the byte after it starts one.\<close>

lemma cut_down_start: "0 < cut_down s n \<Longrightarrow> RuneStart (s ! cut_down s n)"
  by (induction s n rule: cut_down.induct) (auto split: if_splits)

lemma truncate_cost:
  "command_cost (truncateRecentCommand e budget) \<le> max budget (int (length (rc_Exit e)) + RecentCommandBudgetOverhead) + 3"
proof -
  have c: "int (utf8Cut x k) \<le> k" if "0 \<le> k" for x k using utf8Cut_le that by blast
  show ?thesis
  proof (cases "int (length (rc_Command e)) + int (length (rc_Exit e)) + RecentCommandBudgetOverhead > budget")
    case True
    then show ?thesis
      using c [of "max 0 (budget - int (length (rc_Exit e)) - RecentCommandBudgetOverhead - 3)" "rc_Command e"]
      by (auto simp: truncateRecentCommand_def command_cost_def ellipsis_def Let_def max_def split: if_splits)
  next
    case False
    let ?room = "budget - (int (length (rc_Command e)) + int (length (rc_Exit e)) + RecentCommandBudgetOverhead) - 3"
    have "int (length (take (utf8Cut (rc_Response e) (max 0 ?room)) (rc_Response e))) \<le> max 0 ?room"
      using c [of "max 0 ?room" "rc_Response e"] by simp
    moreover have "truncateRecentCommand e budget = e\<lparr>rc_Response := take (utf8Cut (rc_Response e) (max 0 ?room)) (rc_Response e) @ ellipsis\<rparr>"
      using False by (simp add: truncateRecentCommand_def Let_def ellipsis_def max_def)
    ultimately have "command_cost (truncateRecentCommand e budget) \<le> budget + 3"
      using False by (simp add: command_cost_def ellipsis_def max_def split: if_splits)
    then show ?thesis by linarith
  qed
qed


lemma keep_within_prefix: "keep_within used b es = take (length (keep_within used b es)) es"
  by (induction used b es rule: keep_within.induct) auto

lemma keep_within_cost: "used + (\<Sum>e \<leftarrow> keep_within used b es. command_cost e) \<le> max used b"
  by (induction used b es rule: keep_within.induct) (auto simp: max_def split: if_splits)

text \<open>
  The recent commands of a pair stay bounded. Trimming a non-empty history to at least one command returns at most the
  configured number of entries, the newest among them; older entries are kept whole, newest first, without gaps; and
  together they cost at most the budget plus three characters, the length of the ellipsis a cut appends (or, when the
  budget does not even hold the exit status of the newest entry, that status plus the same overhead).
\<close>

theorem recent_commands_bounded:
  assumes "1 \<le> maxCommands"
  shows "\<exists>e' es'. TrimRecentCommands (e # es) maxCommands budget = Some (e' # es') \<and>
    int (length (e' # es')) \<le> maxCommands \<and> es' = take (length es') es \<and> rc_Exit e' = rc_Exit e \<and> rc_At e' = rc_At e \<and>
    (\<Sum>x \<leftarrow> e' # es'. command_cost x) \<le> max (max 1 budget) (int (length (rc_Exit e)) + RecentCommandBudgetOverhead) + 3"
proof -
  let ?b = "max 1 budget"
  define e' where "e' = (if command_cost e > ?b then truncateRecentCommand e ?b else e)"
  define es' where "es' = keep_within (command_cost e') ?b (take (nat maxCommands - 1) es)"
  have "nat maxCommands = Suc (nat maxCommands - 1)" using assms by simp
  then have "take (nat maxCommands) (e # es) = e # take (nat maxCommands - 1) es" by (metis take_Suc_Cons)
  then have t: "TrimRecentCommands (e # es) maxCommands budget = Some (e' # es')"
    using assms by (simp add: TrimRecentCommands_def Let_def e'_def es'_def max_def)
  have pre: "es' = take (length es') (take (nat maxCommands - 1) es)" unfolding es'_def by (rule keep_within_prefix)
  then have "length es' \<le> nat maxCommands - 1" by (metis length_take min.bounded_iff nle_le)
  with pre have "es' = take (length es') es" "int (length (e' # es')) \<le> maxCommands" using assms by (simp_all add: min_def)
  moreover have "command_cost e' \<le> max ?b (int (length (rc_Exit e)) + RecentCommandBudgetOverhead) + 3"
    using truncate_cost [of e ?b] by (auto simp: e'_def)
  moreover have "(\<Sum>x \<leftarrow> e' # es'. command_cost x) \<le> max (command_cost e') ?b"
    using keep_within_cost [of "command_cost e'" ?b "take (nat maxCommands - 1) es"] by (simp add: es'_def)
  moreover have "rc_Exit e' = rc_Exit e \<and> rc_At e' = rc_At e"
    by (simp add: e'_def truncateRecentCommand_def Let_def)
  ultimately show ?thesis using t by (intro exI [of _ e'] exI [of _ es']) linarith
qed

definition demo_command :: recent_command where
  "demo_command = \<lparr>rc_Command = ''hostname -f '', rc_Exit = '''', rc_Response = ''x'', rc_At = 1\<rparr>"

theorem recent_commands_bounded_witness:
  "\<exists>e'. TrimRecentCommands [demo_command] 1 20 = Some [e'] \<and> command_cost e' \<le> 23"
  using recent_commands_bounded [of 1 demo_command "[]" 20]
  by (auto simp: demo_command_def RecentCommandBudgetOverhead_def)

text \<open>The three characters are real: an entry over its budget of 20 by one character is cut to 23.\<close>

lemma trimming_can_lengthen:
  "command_cost demo_command = 21 \<and> (\<exists>e'. TrimRecentCommands [demo_command] 1 20 = Some [e'] \<and> command_cost e' = 23)"
  by (simp add: demo_command_def TrimRecentCommands_def Let_def command_cost_def truncateRecentCommand_def utf8Cut_def
      ellipsis_def RecentCommandBudgetOverhead_def)

section \<open>Every operation keeps the state well formed\<close>

lemma wf_with:
  "wf_state (s\<lparr>gs_Goals := gs\<rparr>) \<longleftrightarrow> wf_state (s\<lparr>gs_Goals := []\<rparr>) \<and>
     (\<forall>g \<in> set gs. refers s (go_Person g) (go_Machine g) \<and> wf_goal g) \<and> distinct (map (\<lambda>g. (go_Person g, go_Machine g)) gs)"
  "wf_state (s\<lparr>gs_CommandHistory := hs\<rparr>) \<longleftrightarrow> wf_state (s\<lparr>gs_CommandHistory := []\<rparr>) \<and>
     (\<forall>h \<in> set hs. refers s (ch_Person h) (ch_Machine h) \<and> wf_history h) \<and> distinct (map (\<lambda>h. (ch_Person h, ch_Machine h)) hs)"
  "wf_state (s\<lparr>gs_Grants := grs\<rparr>) \<longleftrightarrow> wf_state (s\<lparr>gs_Grants := []\<rparr>) \<and>
     (\<forall>g \<in> set grs. refers s (gr_Person g) (gr_Machine g) \<and> wf_grant s g) \<and> distinct (map pair_of grs)"
  by (auto simp: wf_state_def wf_ids_def wf_refs_def all_fps_def refers_def wf_grant_def)

lemma wf_without:
  assumes "wf_state s"
  shows "wf_state (s\<lparr>gs_Goals := []\<rparr>)" "\<forall>g \<in> set (gs_Goals s). refers s (go_Person g) (go_Machine g) \<and> wf_goal g"
    "distinct (map (\<lambda>g. (go_Person g, go_Machine g)) (gs_Goals s))" "wf_state (s\<lparr>gs_CommandHistory := []\<rparr>)"
    "\<forall>h \<in> set (gs_CommandHistory s). refers s (ch_Person h) (ch_Machine h) \<and> wf_history h"
    "distinct (map (\<lambda>h. (ch_Person h, ch_Machine h)) (gs_CommandHistory s))" "wf_state (s\<lparr>gs_Grants := []\<rparr>)"
    "\<forall>g \<in> set (gs_Grants s). refers s (gr_Person g) (gr_Machine g) \<and> wf_grant s g" "distinct (map pair_of (gs_Grants s))"
proof -
  have id: "s\<lparr>gs_Goals := gs_Goals s\<rparr> = s" "s\<lparr>gs_CommandHistory := gs_CommandHistory s\<rparr> = s" "s\<lparr>gs_Grants := gs_Grants s\<rparr> = s"
    by simp_all
  show "wf_state (s\<lparr>gs_Goals := []\<rparr>)" "\<forall>g \<in> set (gs_Goals s). refers s (go_Person g) (go_Machine g) \<and> wf_goal g"
    "distinct (map (\<lambda>g. (go_Person g, go_Machine g)) (gs_Goals s))" "wf_state (s\<lparr>gs_CommandHistory := []\<rparr>)"
    "\<forall>h \<in> set (gs_CommandHistory s). refers s (ch_Person h) (ch_Machine h) \<and> wf_history h"
    "distinct (map (\<lambda>h. (ch_Person h, ch_Machine h)) (gs_CommandHistory s))" "wf_state (s\<lparr>gs_Grants := []\<rparr>)"
    "\<forall>g \<in> set (gs_Grants s). refers s (gr_Person g) (gr_Machine g) \<and> wf_grant s g" "distinct (map pair_of (gs_Grants s))"
    using assms wf_with(1) [where s = s and gs = "gs_Goals s", unfolded id]
      wf_with(2) [where s = s and hs = "gs_CommandHistory s", unfolded id]
      wf_with(3) [where s = s and grs = "gs_Grants s", unfolded id] by blast+
qed

lemma upd_or_append_props:
  assumes "distinct (map k xs)" "\<And>x. P x \<longleftrightarrow> k x = key" "\<And>x. k (f x) = k x" "k new = key"
  shows "distinct (map k (upd_or_append P new f xs))"
    "x \<in> set (upd_or_append P new f xs) \<Longrightarrow> x \<in> set xs \<or> (\<exists>y. (y = new \<or> y \<in> set xs) \<and> P y \<and> x = f y)"
    "k ` set (upd_or_append P new f xs) \<subseteq> insert key (k ` set xs)"
proof -
  show sub: "k ` set (upd_or_append P new f ys) \<subseteq> insert key (k ` set ys)" for ys
    by (induction ys) (auto simp: assms)
  show "distinct (map k (upd_or_append P new f xs))"
    using assms(1)
  proof (induction xs)
    case (Cons y ys)
    show ?case
    proof (cases "P y")
      case False
      then have "k y \<noteq> key" using assms(2) by blast
      then show ?thesis using Cons False sub [of ys] by (auto simp: assms(3))
    qed (use Cons in \<open>simp add: assms(3)\<close>)
  qed simp
  show "x \<in> set xs \<or> (\<exists>y. (y = new \<or> y \<in> set xs) \<and> P y \<and> x = f y)" if "x \<in> set (upd_or_append P new f xs)"
    using that by (induction xs) (auto simp: assms split: if_splits)
qed


lemma wf_withI:
  assumes "wf_state s"
  shows "\<forall>g \<in> set gs. refers s (go_Person g) (go_Machine g) \<and> wf_goal g \<Longrightarrow> distinct (map (\<lambda>g. (go_Person g, go_Machine g)) gs) \<Longrightarrow>
      wf_state (s\<lparr>gs_Goals := gs\<rparr>)"
    "\<forall>h \<in> set hs. refers s (ch_Person h) (ch_Machine h) \<and> wf_history h \<Longrightarrow> distinct (map (\<lambda>h. (ch_Person h, ch_Machine h)) hs) \<Longrightarrow>
      wf_state (s\<lparr>gs_CommandHistory := hs\<rparr>)"
    "\<forall>g \<in> set grs. refers s (gr_Person g) (gr_Machine g) \<and> wf_grant s g \<Longrightarrow> distinct (map pair_of grs) \<Longrightarrow>
      wf_state (s\<lparr>gs_Grants := grs\<rparr>)"
  using wf_without(1,4,7) [OF assms] wf_with(1) [where s = s and gs = gs] wf_with(2) [where s = s and hs = hs]
    wf_with(3) [where s = s and grs = grs] by blast+

lemma trim_left_space: "space_width (trim_left s) = 0"
  by (induction s rule: trim_left.induct) (subst trim_left.simps, simp)

lemma trim_end_prefix: "\<exists>t. s = trim_end s @ t"
proof (induction s rule: trim_end.induct)
  case (1 s)
  show ?case
  proof (cases "last_space_width s = 0")
    case False
    with 1 obtain t where "take (length s - last_space_width s) s = trim_end (take (length s - last_space_width s) s) @ t" by blast
    then have "s = trim_end (take (length s - last_space_width s) s) @ t @ drop (length s - last_space_width s) s"
      by (metis append.assoc append_take_drop_id)
    moreover have "trim_end s = trim_end (take (length s - last_space_width s) s)" using False by (simp add: trim_end.simps [of s])
    ultimately show ?thesis by metis
  qed (simp add: trim_end.simps)
qed

lemma trim_end_last: "last_space_width (trim_end s) = 0"
  by (induction s rule: trim_end.induct) (subst trim_end.simps, simp)

lemma space_width_append: "space_width s \<noteq> 0 \<Longrightarrow> space_width (s @ t) \<noteq> 0"
  by (cases s; cases "tl s"; cases "tl (tl s)") (auto simp: space_width_def split: if_split_asm)

lemma TrimSpace_idem [simp]: "TrimSpace (TrimSpace s) = TrimSpace s"
proof -
  obtain t where "trim_left s = trim_end (trim_left s) @ t" using trim_end_prefix by blast
  then have "space_width (trim_end (trim_left s)) = 0" using trim_left_space [of s] space_width_append by metis
  then have "trim_left (TrimSpace s) = TrimSpace s" by (simp add: TrimSpace_def trim_left.simps)
  then show ?thesis using trim_end_last [of "trim_left s"] by (simp add: TrimSpace_def trim_end.simps)
qed

lemma ellipsis_kept: "TrimSpace (u @ ellipsis) \<noteq> ''''"
proof -
  have e: "space_width (v @ ellipsis) \<le> length v" for v
    by (cases v; cases "tl v"; cases "tl (tl v)") (simp_all add: space_width_def ellipsis_def)
  have "\<exists>v. trim_left (u @ ellipsis) = v @ ellipsis"
  proof (induction u rule: length_induct)
    case (1 u)
    show ?case
    proof (cases "space_width (u @ ellipsis) = 0")
      case False
      let ?w = "space_width (u @ ellipsis)"
      have "drop ?w (u @ ellipsis) = drop ?w u @ ellipsis" using e [of u] by simp
      moreover have "length (drop ?w u) < length u" using False e [of u] by simp
      ultimately show ?thesis using 1 False by (subst trim_left.simps) simp
    qed (auto simp: trim_left.simps)
  qed
  then obtain v where "trim_left (u @ ellipsis) = v @ ellipsis" ..
  moreover have "last_space_width (v @ ellipsis) = 0"
    by (simp add: last_space_width_def ellipsis_def space_width_def)
  ultimately show ?thesis by (simp add: TrimSpace_def trim_end.simps) (simp add: ellipsis_def)
qed

lemma MachineByID_iff: "MachineByID s i \<noteq> None \<longleftrightarrow> i \<in> mc_ID ` set (gs_Machines s)"
  by (auto simp: MachineByID_def find_None_iff)

lemma put_goal_wf:
  assumes "wf_goal r" "ValidateGoalText (TrimSpace goal) = None" "now \<noteq> 0"
  shows "wf_goal (put_goal (TrimSpace goal) now r)"
proof -
  have "set (take (MaxGoalHistory - 1) (go_History r)) \<subseteq> set (go_History r)" by (rule set_take_subset)
  moreover have "MaxGoalHistory = Suc (MaxGoalHistory - 1)" by (simp add: MaxGoalHistory_def)
  then have "take MaxGoalHistory (x # go_History r) = x # take (MaxGoalHistory - 1) (go_History r)" for x
    by (metis take_Suc_Cons)
  moreover have "ValidateGoalText '''' = None" by (simp add: ValidateGoalText_def ValidString_def)
  ultimately show ?thesis using assms by (auto simp: wf_goal_def put_goal_def MaxGoalHistory_def)
qed

lemma SetGoal_wf:
  assumes "wf_state s" "SetGoal s person machine goal now = Inr (s', r)" "now \<noteq> 0"
  shows "wf_state s'"
proof -
  let ?P = "\<lambda>g. go_Person g = person \<and> go_Machine g = machine"
  let ?new = "\<lparr>go_Person = person, go_Machine = machine, go_Current = '''', go_History = []\<rparr>"
  let ?gs = "upd_or_append ?P ?new (put_goal (TrimSpace goal) now) (gs_Goals s)"
  from assms(2) have h: "HasPerson s person" "MachineByID s machine \<noteq> None" "ValidateGoalText (TrimSpace goal) = None" "s' = s\<lparr>gs_Goals := ?gs\<rparr>"
    by (auto simp: SetGoal_def Let_def split: if_splits option.splits)
  have ref: "refers s person machine" using h(1,2) unfolding refers_def HasPerson_iff MachineByID_iff by simp
  have k: "(go_Person (put_goal t now g), go_Machine (put_goal t now g)) = (go_Person g, go_Machine g)" for t g by (simp add: put_goal_def)
  have P: "?P x \<longleftrightarrow> (go_Person x, go_Machine x) = (person, machine)" for x by simp
  have n: "(go_Person ?new, go_Machine ?new) = (person, machine)" by simp
  note u = upd_or_append_props [where k = "\<lambda>g. (go_Person g, go_Machine g)" and P = ?P and f = "put_goal (TrimSpace goal) now",
      OF wf_without(3) [OF assms(1)] P k n]
  have "ValidateGoalText '''' = None" by (simp add: ValidateGoalText_def ValidString_def)
  then have "wf_goal ?new" by (simp add: wf_goal_def MaxGoalHistory_def)
  then have new: "wf_goal (put_goal (TrimSpace goal) now y)" if "y = ?new \<or> y \<in> set (gs_Goals s)" for y
    using that wf_without(2) [OF assms(1)] put_goal_wf [OF _ h(3) assms(3)] by blast
  have "\<forall>g \<in> set ?gs. refers s (go_Person g) (go_Machine g) \<and> wf_goal g"
  proof
    fix g assume "g \<in> set ?gs"
    from u(2) [OF this] show "refers s (go_Person g) (go_Machine g) \<and> wf_goal g"
      using wf_without(2) [OF assms(1)] ref k new by (elim disjE exE conjE) simp_all
  qed
  then show ?thesis unfolding h(4) using u(1) by (rule wf_withI(1) [OF assms(1)])
qed

lemma truncate_nonblank:
  "TrimSpace (rc_Command e) \<noteq> '''' \<Longrightarrow> TrimSpace (rc_Command (truncateRecentCommand e b)) \<noteq> '''' \<and> rc_At (truncateRecentCommand e b) = rc_At e"
  by (simp add: truncateRecentCommand_def Let_def ellipsis_kept)

lemma keep_within_sub: "set (keep_within used b es) \<subseteq> set es"
  by (subst keep_within_prefix) (rule set_take_subset)

lemma Trim_wf:
  assumes "TrimRecentCommands (e # es) mx budget = Some out" "mx \<le> MaxRecentCommands"
    and "TrimSpace (rc_Command e) \<noteq> ''''" "rc_At e \<noteq> 0" "\<forall>x \<in> set es. TrimSpace (rc_Command x) \<noteq> '''' \<and> rc_At x \<noteq> 0"
  shows "int (length out) \<le> MaxRecentCommands \<and> (\<forall>x \<in> set out. TrimSpace (rc_Command x) \<noteq> '''' \<and> rc_At x \<noteq> 0)"
proof (cases "take (nat mx) (e # es)")
  case Nil
  then have "out = []" using assms(1) by (auto simp: TrimRecentCommands_def split: if_splits)
  then show ?thesis by (simp add: MaxRecentCommands_def)
next
  case (Cons x xs)
  then have x: "x = e" "set xs \<subseteq> set es" by (auto simp: take_Cons' split: if_splits dest: in_set_takeD)
  from Cons assms(1) obtain y b where out: "out = y # keep_within (command_cost y) b xs" "y = e \<or> y = truncateRecentCommand e b" "mx \<ge> 0"
    by (auto simp: TrimRecentCommands_def Let_def x split: if_splits)
  have "length out \<le> length (x # xs)"
    using out(1) keep_within_prefix [of "command_cost y" b xs] by simp (metis length_take min.bounded_iff nle_le)
  also have "\<dots> \<le> nat mx" unfolding Cons [symmetric] by simp
  finally have "int (length out) \<le> MaxRecentCommands" using assms(2) out(3) by linarith
  moreover have "TrimSpace (rc_Command y) \<noteq> '''' \<and> rc_At y \<noteq> 0" using out(2) assms(3,4) truncate_nonblank by auto
  ultimately show ?thesis using out(1) keep_within_sub [of "command_cost y" b xs] x assms(5) by auto
qed

lemma RecordCommand_wf:
  assumes "wf_state s" "RecordCommand s person machine entry mx budget = Inr (s', r)"
  shows "wf_state s'"
proof -
  define mx' where "mx' = clamp_commands mx"
  let ?P = "\<lambda>h. ch_Person h = person \<and> ch_Machine h = machine"
  let ?new = "\<lparr>ch_Person = person, ch_Machine = machine, ch_Entries = []\<rparr>"
  let ?f = "\<lambda>h. h\<lparr>ch_Entries := the (TrimRecentCommands (entry # ch_Entries h) mx' budget)\<rparr>"
  let ?hs = "upd_or_append ?P ?new ?f (gs_CommandHistory s)"
  from assms(2) have h: "HasPerson s person" "MachineByID s machine \<noteq> None" "TrimSpace (rc_Command entry) \<noteq> ''''" "rc_At entry \<noteq> 0"
      "s' = s\<lparr>gs_CommandHistory := ?hs\<rparr>"
    unfolding RecordCommand_def mx'_def isZero_def Let_def by (simp_all split: if_splits)
  have ref: "refers s person machine" using h(1,2) unfolding refers_def HasPerson_iff MachineByID_iff by simp
  have mx: "1 \<le> mx'" "mx' \<le> MaxRecentCommands" by (simp_all add: mx'_def clamp_commands_def MaxRecentCommands_def)
  have f: "wf_history (?f x)" if "wf_history x" for x
  proof -
    obtain out where out: "TrimRecentCommands (entry # ch_Entries x) mx' budget = Some out"
      using mx(1) by (simp add: TrimRecentCommands_def Let_def)
    have "int (length out) \<le> MaxRecentCommands \<and> (\<forall>x \<in> set out. TrimSpace (rc_Command x) \<noteq> '''' \<and> rc_At x \<noteq> 0)"
      using that by (intro Trim_wf [OF out mx(2) h(3,4)]) (simp add: wf_history_def)
    then show ?thesis unfolding wf_history_def out by simp
  qed
  have k: "(ch_Person (?f x), ch_Machine (?f x)) = (ch_Person x, ch_Machine x)" for x by simp
  have P: "?P x \<longleftrightarrow> (ch_Person x, ch_Machine x) = (person, machine)" for x by simp
  have n: "(ch_Person ?new, ch_Machine ?new) = (person, machine)" by simp
  note u = upd_or_append_props [where k = "\<lambda>h. (ch_Person h, ch_Machine h)" and P = ?P and f = ?f,
      OF wf_without(6) [OF assms(1)] P k n]
  have "wf_history ?new" by (simp add: wf_history_def MaxRecentCommands_def)
  then have new: "wf_history (?f y)" if "y = ?new \<or> y \<in> set (gs_CommandHistory s)" for y
    using that wf_without(5) [OF assms(1)] f by blast
  have "\<forall>x \<in> set ?hs. refers s (ch_Person x) (ch_Machine x) \<and> wf_history x"
  proof
    fix g assume "g \<in> set ?hs"
    from u(2) [OF this] consider "g \<in> set (gs_CommandHistory s)" | y where "y = ?new \<or> y \<in> set (gs_CommandHistory s)" "?P y" "g = ?f y"
      by blast
    then show "refers s (ch_Person g) (ch_Machine g) \<and> wf_history g"
    proof cases
      case 1
      then show ?thesis using wf_without(5) [OF assms(1)] by blast
    next
      case 2
      have "refers s (ch_Person g) (ch_Machine g)" using ref 2(2,3) by simp
      with new [OF 2(1)] 2(3) show ?thesis by (simp only:)
    qed
  qed
  then show ?thesis unfolding h(5) using u(1) by (rule wf_withI(2) [OF assms(1)])
qed

lemma GrantAccess_wf:
  assumes "wf_state s" "GrantAccess s person i until caps = Inr s'" "caps \<in> {[], [''shell''], [''exec'']}"
  shows "wf_state s'"
proof -
  from assms(2) obtain m fp where h: "HasPerson s person" "MachineByID s i = Some m" "ComputeFingerprint (mc_MachineKey m) = Inr fp"
      "\<not> list_ex (is_pair person i) (gs_Grants s)"
      "s' = s\<lparr>gs_Grants := gs_Grants s @ [\<lparr>gr_Person = person, gr_Machine = i, gr_MachineKeyFingerprint = fp, gr_Until = until,
         gr_Caps = if caps = [] then [''shell''] else caps\<rparr>]\<rparr>"
    by (auto simp: GrantAccess_def Let_def split: if_splits option.splits sum.splits)
  have m: "m \<in> set (gs_Machines s)" "mc_ID m = i" using find_some [OF h(2) [unfolded MachineByID_def]] by auto
  have "refers s person i" using h(1) m unfolding refers_def HasPerson_iff by auto
  moreover have "fp_of (mc_MachineKey m) = fp" using h(3) by (simp add: fp_of_def)
  moreover have "(person, i) \<notin> pair_of ` set (gs_Grants s)" using h(4) by (auto simp: list_ex_iff is_pair_def)
  ultimately show ?thesis
    using wf_without(8,9) [OF assms(1)] m assms(3) unfolding h(5) by (intro wf_withI(3) [OF assms(1)]) (auto simp: wf_grant_def)
qed

lemma del_first_sub: "set (del_first P xs) \<subseteq> set xs" "distinct (map k xs) \<Longrightarrow> distinct (map k (del_first P xs))"
proof -
  show sub: "set (del_first P ys) \<subseteq> set ys" for ys by (induction ys) auto
  show "distinct (map k (del_first P xs))" if "distinct (map k xs)" using that sub by (induction xs) fastforce+
qed

lemma RevokeAccess_wf: "wf_state s \<Longrightarrow> wf_state (fst (RevokeAccess s person i))"
proof -
  assume wf: "wf_state s"
  let ?gs = "del_first (is_pair person i) (gs_Grants s)"
  have "\<forall>g \<in> set ?gs. refers s (gr_Person g) (gr_Machine g) \<and> wf_grant s g" "distinct (map pair_of ?gs)"
    using wf_without(8) [OF wf] del_first_sub(1) [of "is_pair person i" "gs_Grants s"] del_first_sub(2) [OF wf_without(9) [OF wf]]
    by (blast, simp)
  from wf_withI(3) [OF wf this] wf show ?thesis by (simp add: RevokeAccess_def)
qed

lemma upd_first_props:
  "(\<And>x. k (f x) = k x) \<Longrightarrow> map k (upd_first P f xs) = map k xs" "x \<in> set (upd_first P f xs) \<Longrightarrow> x \<in> set xs \<or> x \<in> f ` set xs"
  by (induction xs) (auto split: if_splits)

lemma SetGrant_wf:
  "wf_state s \<Longrightarrow> caps \<in> {[''shell''], [''exec'']} \<Longrightarrow> wf_state (fst (SetGrantCaps s person i caps))"
  "wf_state s \<Longrightarrow> wf_state (fst (SetGrantUntil s person i until))"
proof -
  assume wf: "wf_state s"
  show "wf_state (fst (SetGrantCaps s person i caps))" if "caps \<in> {[''shell''], [''exec'']}"
  proof -
    let ?gs = "upd_first (is_pair person i) (\<lambda>g. g\<lparr>gr_Caps := caps\<rparr>) (gs_Grants s)"
    have "\<forall>g \<in> set ?gs. refers s (gr_Person g) (gr_Machine g) \<and> wf_grant s g"
      using wf_without(8) [OF wf] that by (auto dest!: upd_first_props(2) simp: wf_grant_def)
    moreover have "map pair_of ?gs = map pair_of (gs_Grants s)" by (rule upd_first_props(1)) simp
    then have "distinct (map pair_of ?gs)" using wf_without(9) [OF wf] by (simp only:)
    ultimately have "wf_state (s\<lparr>gs_Grants := ?gs\<rparr>)" by (rule wf_withI(3) [OF wf])
    with wf show ?thesis by (simp add: SetGrantCaps_def split: option.split)
  qed
  let ?gs = "upd_first (is_pair person i) (\<lambda>g. g\<lparr>gr_Until := until\<rparr>) (gs_Grants s)"
  have "\<forall>g \<in> set ?gs. refers s (gr_Person g) (gr_Machine g) \<and> wf_grant s g"
    using wf_without(8) [OF wf] by (auto dest!: upd_first_props(2) simp: wf_grant_def)
  moreover have "map pair_of ?gs = map pair_of (gs_Grants s)" by (rule upd_first_props(1)) simp
  then have "distinct (map pair_of ?gs)" using wf_without(9) [OF wf] by (simp only:)
  ultimately have "wf_state (s\<lparr>gs_Grants := ?gs\<rparr>)" by (rule wf_withI(3) [OF wf])
  with wf show "wf_state (fst (SetGrantUntil s person i until))" by (simp add: SetGrantUntil_def split: option.split)
qed



end
