(* ===== verification/Config_Names.thy ===== *)
theory Config_Names
  imports State_Ops
begin

text \<open>
  The checks of \<open>internal/config/parse.go\<close> that the commands apply to names, accounts, keys, fingerprints and deadlines
  before they touch the state, and how they relate to the rules of the state itself.
\<close>

section \<open>Names and accounts\<close>

definition nameMaxLen :: nat where "nameMaxLen = 32"

definition lower_digit :: "char \<Rightarrow> bool" where
  "lower_digit c \<longleftrightarrow> in_range (CHR ''a'') (CHR ''z'') c \<or> in_range (CHR ''0'') (CHR ''9'') c"

definition ValidName :: "string \<Rightarrow> bool" where
  "ValidName s =
    (if length s = 0 \<or> length s > nameMaxLen then False
     else if \<not> lower_digit (hd s) then False
     else list_all (\<lambda>c. lower_digit c \<or> c = CHR ''.'' \<or> c = CHR ''_'' \<or> c = CHR ''-'') (tl s))"

fun cut_at :: "char \<Rightarrow> string \<Rightarrow> (string \<times> string) option" where
  "cut_at x [] = None"
| "cut_at x (c # cs) = (if c = x then Some ([], cs) else map_option (\<lambda>(a, b). (c # a, b)) (cut_at x cs))"

definition validAccountPart :: "string \<Rightarrow> bool" where
  "validAccountPart s =
    (if length s = 0 \<or> length s > 64 then False
     else list_all (\<lambda>c. in_range (CHR ''a'') (CHR ''z'') c \<or> in_range (CHR ''A'') (CHR ''Z'') c \<or>
       in_range (CHR ''0'') (CHR ''9'') c \<or> c = CHR ''.'' \<or> c = CHR ''_'' \<or> c = CHR ''-'' \<or> c = CHR ''@'' \<or> c = CHR ''$'') s)"

definition validOSUserWindows :: "string \<Rightarrow> bool" where
  "validOSUserWindows s = (case cut_at (CHR 0x5C) s of
     None \<Rightarrow> False
   | Some (domain, name) \<Rightarrow>
      if domain = '''' \<or> name = '''' then False
      else if CHR 0x5C \<in> set name then False
      else validAccountPart domain \<and> validAccountPart name)"

definition validOSUserPOSIX :: "string \<Rightarrow> bool" where
  "validOSUserPOSIX s =
    (if length s = 0 \<or> length s > 32 then False
     else if \<not> (in_range (CHR ''a'') (CHR ''z'') (hd s) \<or> hd s = CHR ''_'') then False
     else list_all (\<lambda>c. lower_digit c \<or> c = CHR ''_'' \<or> c = CHR ''-'') (tl s))"

definition ValidOSUser :: "string \<Rightarrow> bool" where
  "ValidOSUser s \<longleftrightarrow> validOSUserWindows s \<or> validOSUserPOSIX s"

section \<open>Keys, fingerprints and deadlines\<close>

text \<open>\<open>RawStdEncoding.DecodeString\<close>: line ends are skipped, padding is refused.\<close>

definition raw_b64_decode :: "string \<Rightarrow> byte list option" where
  "raw_b64_decode s =
    (let t = filter (\<lambda>c. c \<noteq> CHR 0x0A \<and> c \<noteq> CHR 0x0D) s in
     if CHR ''='' \<in> set t \<or> length t mod 4 = 1 then None
     else b64_decode (t @ replicate ((4 - length t mod 4) mod 4) (CHR ''='')))"

definition TrimPrefix :: "string \<Rightarrow> string \<Rightarrow> string" where
  "TrimPrefix s p = (if take (length p) s = p then drop (length p) s else s)"

definition NormalizeFingerprint :: "string \<Rightarrow> string option" where
  "NormalizeFingerprint s =
    (let f = TrimPrefix s ''SHA256:'' in case raw_b64_decode f of
       None \<Rightarrow> None
     | Some raw \<Rightarrow> if length raw \<noteq> 32 then None else Some (''SHA256:'' @ f))"

definition allowedKeyTypes :: "string list" where
  "allowedKeyTypes = [''ssh-ed25519'', ''ssh-rsa'', ''ecdsa-sha2-nistp256'', ''ecdsa-sha2-nistp384'', ''ecdsa-sha2-nistp521'']"

text \<open>
  \<open>ssh.ParseAuthorizedKey\<close> is the argument: the type of the key and, for an RSA key, the bits of its modulus. After
  \<open>TrimSpace\<close> there is no line end left for \<open>TrimRight\<close> to take.
\<close>

definition CheckPublicKey :: "(string \<Rightarrow> (string \<times> nat option) option) \<Rightarrow> string \<Rightarrow> bool" where
  "CheckPublicKey parse line =
    (let line = TrimSpace line in
     if line = '''' then False
     else if CHR 0x0A \<in> set line \<or> CHR 0x0D \<in> set line then False
     else case parse line of
       None \<Rightarrow> False
     | Some (t, bits) \<Rightarrow>
        if t \<notin> set allowedKeyTypes then False
        else \<not> (t = ''ssh-rsa'' \<and> (case bits of None \<Rightarrow> False | Some n \<Rightarrow> n < 3072)))"

section \<open>The two grammars agree\<close>

lemma ValidName_nameRe: "ValidName s \<longleftrightarrow> nameRe s"
  by (cases s) (auto simp: ValidName_def nameRe_def nameMaxLen_def name_char_def name_first_def lower_digit_def in_range_def
      list_all_iff)

lemma last_space_width_all_graphic:
  assumes "list_all graphic s"
  shows "last_space_width s = 0"
proof -
  have "space_width (drop n s) = 0" if "n < length s" for n
    using assms that by (metis Cons_nth_drop_Suc graphic_space list_all_length)
  moreover have "space_width [last s] = 0" if "s \<noteq> []"
    using assms that by (simp add: graphic_space list_all_iff)
  ultimately show ?thesis by (auto simp: last_space_width_def)
qed

lemma TrimSpace_all_graphic:
  assumes "list_all graphic s"
  shows "TrimSpace s = s"
proof -
  have "trim_left s = s" using assms by (cases s) (simp_all add: trim_left_graphic trim_left.simps [of "[]"])
  with last_space_width_all_graphic [OF assms] show ?thesis by (simp add: TrimSpace_def trim_end.simps [of s])
qed

lemma cut_at_Some: "cut_at x s = Some (a, b) \<longleftrightarrow> s = a @ x # b \<and> x \<notin> set a"
proof (induction s arbitrary: a)
  case (Cons c s)
  show ?case
  proof (cases "c = x")
    case True
    then show ?thesis by (cases a) auto
  next
    case False
    with Cons.IH show ?thesis by (cases a) auto
  qed
qed simp

lemma cut_at_None: "cut_at x s = None \<longleftrightarrow> x \<notin> set s"
  by (induction s) auto

lemma part_chars: "validAccountPart p \<longleftrightarrow> p \<noteq> '''' \<and> length p \<le> 64 \<and> list_all windowsPrincipalByte p"
  by (auto simp: validAccountPart_def windowsPrincipalByte_def list_all_iff)

lemma principal_graphic: "windowsPrincipalByte c \<Longrightarrow> graphic c"
  by (auto simp: windowsPrincipalByte_def in_range_def graphic_def less_eq_char_def)

lemma windows_exact:
  assumes "TrimSpace s = s" "CHR 0x5C \<in> set s"
  shows "validOSUserWindows s \<longleftrightarrow> ValidateOSUser s = None"
proof -
  obtain a b where s: "s = a @ CHR 0x5C # b" "CHR 0x5C \<notin> set a" using assms(2) by (meson split_list_first)
  have c: "cut_at (CHR 0x5C) s = Some (a, b)" using s by (simp add: cut_at_Some)
  have p: "split_char (CHR 0x5C) s = a # split_char (CHR 0x5C) b" using s by (simp add: split_char_append)
  show ?thesis
  proof (cases "CHR 0x5C \<in> set b")
    case True
    then have "length (split_char (CHR 0x5C) b) \<noteq> 1" by (simp add: split_char_length count_list_0_iff)
    with True c p assms show ?thesis by (auto simp: validOSUserWindows_def ValidateOSUser_def Let_def)
  next
    case False
    then have "split_char (CHR 0x5C) b = [b]" by (rule split_char_none)
    with False c p assms show ?thesis
      by (auto simp: validOSUserWindows_def ValidateOSUser_def Let_def part_chars)
  qed
qed

lemma posix_exact:
  assumes "TrimSpace s = s" "CHR 0x5C \<notin> set s"
  shows "validOSUserPOSIX s \<longleftrightarrow> ValidateOSUser s = None"
proof -
  have "(\<lambda>c. lower_digit c \<or> c = CHR ''_'' \<or> c = CHR ''-'') = posix_char"
    by (simp add: fun_eq_iff posix_char_def lower_digit_def)
  with assms show ?thesis
    by (auto simp: validOSUserPOSIX_def ValidateOSUser_def Let_def in_range_def)
qed

lemma posix_chars: "posix_char c \<Longrightarrow> graphic c"
  by (auto simp: posix_char_def in_range_def graphic_def less_eq_char_def)

lemma ValidOSUser_graphic:
  assumes "ValidOSUser s"
  shows "list_all graphic s"
  using assms unfolding ValidOSUser_def
proof
  assume "validOSUserWindows s"
  then obtain a b where "cut_at (CHR 0x5C) s = Some (a, b)" "list_all windowsPrincipalByte a" "list_all windowsPrincipalByte b"
    by (auto simp: validOSUserWindows_def part_chars split: option.splits if_splits)
  moreover have "graphic (CHR 0x5C)" by (simp add: graphic_def less_eq_char_def)
  ultimately show ?thesis by (auto simp: cut_at_Some list_all_iff principal_graphic)
next
  assume p: "validOSUserPOSIX s"
  then have "list_all posix_char (tl s)"
    by (auto simp: validOSUserPOSIX_def posix_char_def lower_digit_def list_all_iff split: if_splits)
  moreover from p have "posix_char (hd s)" "s \<noteq> []"
    by (auto simp: validOSUserPOSIX_def posix_char_def split: if_splits)
  ultimately show ?thesis by (cases s) (auto simp: list_all_iff posix_chars)
qed

lemma windows_has_backslash: "validOSUserWindows s \<Longrightarrow> CHR 0x5C \<in> set s"
  by (auto simp: validOSUserWindows_def cut_at_Some split: option.splits)

lemma posix_no_backslash: "validOSUserPOSIX s \<Longrightarrow> CHR 0x5C \<notin> set s"
  by (cases s) (auto simp: validOSUserPOSIX_def lower_digit_def in_range_def less_eq_char_def list_all_iff split: if_splits)

lemma raw_length: "(4 - length (b64_raw bs) mod 4) mod 4 = (3 - length bs mod 3) mod 3 \<and> length (b64_raw bs) mod 4 \<noteq> 1"
  by (induction bs rule: b64_raw.induct) auto

lemma colon_char: "CHR '':'' = b64_char n \<Longrightarrow> \<not> n < 64"
  using b64_val_char(1) [of n] by (auto simp: b64_val_def less_eq_char_def dest!: arg_cong [where f = b64_val])

lemma raw_chars: "c \<in> set (b64_raw bs) \<Longrightarrow> graphic c \<and> c \<noteq> CHR ''=''"
  by (induction bs rule: b64_raw.induct) (use byte_bounds b64_char_ok in auto)

lemma raw_roundtrip: "raw_b64_decode (b64_raw bs) = Some bs"
proof -
  have "filter (\<lambda>c. c \<noteq> CHR 0x0A \<and> c \<noteq> CHR 0x0D) (b64_raw bs) = b64_raw bs"
    by (auto simp: filter_id_conv dest!: raw_chars simp: graphic_def less_eq_char_def)
  moreover have "CHR ''='' \<notin> set (b64_raw bs)" using raw_chars by blast
  ultimately show ?thesis
    using raw_length [of bs] b64_roundtrip [of bs] by (simp add: raw_b64_decode_def b64_std_def Let_def)
qed

text \<open>
  C34. The checks at the door and the rules of the state agree. A name passes \<open>config.ValidName\<close> exactly when it passes the
  state's own rule; an account passes \<open>config.ValidOSUser\<close> exactly when it passes the state's rule and has no
  white space around it, which the state's rule ignores; and the fingerprint of a key is one that
  \<open>config.NormalizeFingerprint\<close> returns unchanged, with or without its prefix.
\<close>

theorem input_rules_agree:
  "(ValidName s \<longleftrightarrow> ValidateName s = None) \<and>
   (ValidOSUser u \<longleftrightarrow> ValidateOSUser u = None \<and> TrimSpace u = u) \<and>
   (ComputeFingerprint pub = Inr fp \<longrightarrow> NormalizeFingerprint fp = Some fp \<and> NormalizeFingerprint (drop 7 fp) = Some fp)"
proof (intro conjI impI)
  show "ValidName s \<longleftrightarrow> ValidateName s = None" by (simp add: ValidName_nameRe ValidateName_exact)
next
  show "ValidOSUser u \<longleftrightarrow> ValidateOSUser u = None \<and> TrimSpace u = u"
  proof (cases "TrimSpace u = u")
    case True
    show ?thesis
      using windows_exact [OF True] posix_exact [OF True] windows_has_backslash [of u] posix_no_backslash [of u] True
      by (cases "CHR 0x5C \<in> set u") (auto simp: ValidOSUser_def)
  next
    case False
    then show ?thesis using TrimSpace_all_graphic ValidOSUser_graphic by blast
  qed
next
  assume "ComputeFingerprint pub = Inr fp"
  then obtain blob where fp: "fp = ''SHA256:'' @ b64_raw (sha256 blob)"
    by (auto simp: ComputeFingerprint_def split: sum.splits)
  have plain: "TrimPrefix (b64_raw (sha256 blob)) ''SHA256:'' = b64_raw (sha256 blob)"
  proof -
    have "CHR '':'' \<notin> set (b64_raw bs)" for bs
      by (induction bs rule: b64_raw.induct) (use byte_bounds in \<open>auto dest!: colon_char\<close>)
    then have "take (length ''SHA256:'') (b64_raw (sha256 blob)) \<noteq> ''SHA256:''" by (metis in_set_takeD insertI1 list.set(2) list.set_intros(2))
    then show ?thesis unfolding TrimPrefix_def by (rule if_not_P)
  qed
  show "NormalizeFingerprint fp = Some fp" "NormalizeFingerprint (drop 7 fp) = Some fp"
    using plain by (simp_all add: fp NormalizeFingerprint_def TrimPrefix_def raw_roundtrip length_sha256)
qed

theorem input_rules_agree_witness:
  "\<exists>fp. ComputeFingerprint ''AAAA'' = Inr fp \<and> NormalizeFingerprint fp = Some fp \<and> ValidName ''alice'' \<and>
     ValidateOSUser '' bob'' = None \<and> \<not> ValidOSUser '' bob''"
proof -
  have d: "DecodeKeyBlob ''AAAA'' = Inr [0, 0, 0]" by code_simp
  let ?fp = "''SHA256:'' @ b64_raw (sha256 [0, 0, 0])"
  have c: "ComputeFingerprint ''AAAA'' = Inr ?fp" by (simp add: ComputeFingerprint_def d)
  moreover have "ValidateName ''alice'' = None" "ValidateOSUser '' bob'' = None" "TrimSpace '' bob'' \<noteq> '' bob''" by code_simp+
  ultimately show ?thesis using input_rules_agree [of "''alice''" "'' bob''" "''AAAA''" ?fp] by blast
qed

end
