(* ===== verification/Quiet_Log.thy ===== *)
theory Quiet_Log
  imports Journal
begin

text \<open>
  How logins and refusals are folded on their way into the journal (\<open>auth_quiet.go\<close>): the first of a kind in a quiet
  period is written, the rest are counted, and the count is written when the period ends. The tables of successes
  (\<open>authQuiet\<close>) and of refusals (\<open>authDenyQuiet\<close>) differ only in what they call the same and in what they
  remember of the last attempt.
\<close>

definition maxAuthQuietEntries :: nat where "maxAuthQuietEntries = 4096"

record authQuietKey =
  qk_login :: string
  qk_fingerprint :: string
  qk_host :: string

record authDenyKey =
  dk_host :: string
  dk_kind :: string

record 'p quiet_entry =
  qe_written :: instant
  qe_repeats :: nat
  qe_first :: instant
  qe_last :: instant
  qe_who :: 'p

record auth_login =
  al_addr :: string
  al_subject :: string
  al_role :: string

record auth_refusal =
  rf_addr :: string
  rf_login :: string
  rf_fingerprint :: string
  rf_reason :: string

type_synonym authQuietEntry = "auth_login quiet_entry"
type_synonym authDenyEntry = "auth_refusal quiet_entry"
type_synonym authQuiet = "(authQuietKey, authQuietEntry) gomap"
type_synonym authDenyQuiet = "(authDenyKey, authDenyEntry) gomap"

definition quiet_now :: "duration \<Rightarrow> instant \<Rightarrow> 'p quiet_entry \<Rightarrow> bool" where
  "quiet_now quiet now e \<longleftrightarrow> now < qe_written e + quiet"

definition fresh_entry :: "instant \<Rightarrow> 'p \<Rightarrow> 'p quiet_entry" where
  "fresh_entry now who = \<lparr>qe_written = now, qe_repeats = 0, qe_first = 0, qe_last = 0, qe_who = who\<rparr>"

definition count_repeat :: "instant \<Rightarrow> 'p \<Rightarrow> 'p quiet_entry \<Rightarrow> 'p quiet_entry" where
  "count_repeat now who e = e\<lparr>qe_repeats := qe_repeats e + 1, qe_first := (if qe_repeats e = 0 then now else qe_first e),
     qe_last := now, qe_who := who\<rparr>"

text \<open>The table after the attempt, whether it is written, and the count to be written before it.\<close>

definition fold_attempt ::
  "('k, 'p quiet_entry) gomap \<Rightarrow> 'k \<Rightarrow> 'p \<Rightarrow> instant \<Rightarrow> duration \<Rightarrow>
     ('k, 'p quiet_entry) gomap \<times> bool \<times> 'p quiet_entry option" where
  "fold_attempt q k who now quiet = (case gm_get q k of
     Some e \<Rightarrow>
       if quiet_now quiet now e then (gm_put k (count_repeat now who e) q, False, None)
       else (gm_put k (fresh_entry now who) q, True, if qe_repeats e > 0 then Some e else None)
   | None \<Rightarrow> (if length q < maxAuthQuietEntries then gm_put k (fresh_entry now who) q else q, True, None))"

definition fold_expired ::
  "('k, 'p quiet_entry) gomap \<Rightarrow> instant \<Rightarrow> duration \<Rightarrow> ('k, 'p quiet_entry) gomap \<times> ('k, 'p quiet_entry) gomap" where
  "fold_expired q now quiet =
    (filter (\<lambda>(k, e). quiet_now quiet now e) q, filter (\<lambda>(k, e). \<not> quiet_now quiet now e \<and> qe_repeats e > 0) q)"

definition authQuiet_admit ::
  "authQuiet \<Rightarrow> authQuietKey \<Rightarrow> string \<Rightarrow> string \<Rightarrow> string \<Rightarrow> instant \<Rightarrow> duration \<Rightarrow> authQuiet \<times> bool \<times> authQuietEntry option" where
  "authQuiet_admit q k addr subject role now quiet =
     fold_attempt q k \<lparr>al_addr = addr, al_subject = subject, al_role = role\<rparr> now quiet"

definition authQuiet_expired :: "authQuiet \<Rightarrow> instant \<Rightarrow> duration \<Rightarrow> authQuiet \<times> authQuiet" where
  "authQuiet_expired q now quiet = fold_expired q now quiet"

definition authDeny_admit ::
  "authDenyQuiet \<Rightarrow> authDenyKey \<Rightarrow> string \<Rightarrow> string \<Rightarrow> string \<Rightarrow> string \<Rightarrow> instant \<Rightarrow> duration \<Rightarrow>
     authDenyQuiet \<times> authDenyEntry option \<times> authDenyEntry option" where
  "authDeny_admit q k addr login fingerprint reason now quiet =
    (let who = \<lparr>rf_addr = addr, rf_login = login, rf_fingerprint = fingerprint, rf_reason = reason\<rparr>
     in case fold_attempt q k who now quiet of
          (q', write, summary) \<Rightarrow> (q', if write then Some (fresh_entry now who) else None, summary))"

definition authDeny_expired :: "authDenyQuiet \<Rightarrow> instant \<Rightarrow> duration \<Rightarrow> authDenyQuiet \<times> authDenyQuiet" where
  "authDeny_expired q now quiet = fold_expired q now quiet"

section \<open>Every attempt is on record once\<close>

text \<open>
  The calls made on a table, and what they put on record: a line of its own for an attempt, or a count of the attempts
  a line was not written for.
\<close>

datatype ('k, 'p) quiet_call = Attempt 'k 'p instant | Tick instant

datatype 'k quiet_out = Line 'k | Count 'k nat

fun quiet_step :: "duration \<Rightarrow> ('k, 'p quiet_entry) gomap \<Rightarrow> ('k, 'p) quiet_call \<Rightarrow>
    ('k, 'p quiet_entry) gomap \<times> 'k quiet_out list" where
  "quiet_step quiet q (Attempt k who now) = (case fold_attempt q k who now quiet of (q', write, summary) \<Rightarrow>
     (q', (case summary of None \<Rightarrow> [] | Some e \<Rightarrow> [Count k (qe_repeats e)]) @ (if write then [Line k] else [])))"
| "quiet_step quiet q (Tick now) = (case fold_expired q now quiet of (q', owed) \<Rightarrow>
     (q', map (\<lambda>(k, e). Count k (qe_repeats e)) owed))"

fun quiet_run :: "duration \<Rightarrow> ('k, 'p quiet_entry) gomap \<Rightarrow> ('k, 'p) quiet_call list \<Rightarrow>
    ('k, 'p quiet_entry) gomap \<times> 'k quiet_out list" where
  "quiet_run quiet q [] = (q, [])"
| "quiet_run quiet q (a # as) = (case quiet_step quiet q a of (q', out) \<Rightarrow>
     case quiet_run quiet q' as of (q'', outs) \<Rightarrow> (q'', out @ outs))"

fun attempts_of :: "'k \<Rightarrow> ('k, 'p) quiet_call \<Rightarrow> nat" where
  "attempts_of k (Attempt k' _ _) = (if k' = k then 1 else 0)"
| "attempts_of k (Tick _) = 0"

fun recorded_of :: "'k \<Rightarrow> 'k quiet_out \<Rightarrow> nat" where
  "recorded_of k (Line k') = (if k' = k then 1 else 0)"
| "recorded_of k (Count k' n) = (if k' = k then n else 0)"

fun call_time :: "('k, 'p) quiet_call \<Rightarrow> instant" where
  "call_time (Attempt _ _ now) = now"
| "call_time (Tick now) = now"

definition total :: "('a \<Rightarrow> nat) \<Rightarrow> 'a list \<Rightarrow> nat" where
  "total f xs = sum_list (map f xs)"

definition owed :: "'k \<Rightarrow> ('k, 'p quiet_entry) gomap \<Rightarrow> nat" where
  "owed k q = (case gm_get q k of None \<Rightarrow> 0 | Some e \<Rightarrow> qe_repeats e)"

lemma total_simps [simp]:
  "total f [] = 0" "total f (x # xs) = f x + total f xs" "total f (xs @ ys) = total f xs + total f ys"
  by (simp_all add: total_def)

lemma fresh_entry_simps [simp]:
  "qe_repeats (fresh_entry now who) = 0" "qe_written (fresh_entry now who) = now"
  "qe_repeats (count_repeat now who e) = qe_repeats e + 1" "qe_written (count_repeat now who e) = qe_written e"
  by (simp_all add: fresh_entry_def count_repeat_def)

lemma length_gm_put: "length (gm_put k v m) = (if gm_get m k = None then length m + 1 else length m)"
  by (induction m) auto

lemma counts_of_others:
  "k \<notin> fst ` set m \<Longrightarrow> total (recorded_of k) (map (\<lambda>(k, e). Count k (f e)) m) = 0"
  by (induction m) auto

lemma counts_of_filter:
  "gm_wf m \<Longrightarrow> total (recorded_of k) (map (\<lambda>(k, e). Count k (qe_repeats e)) (filter (\<lambda>(k, e). P e) m)) =
     (case gm_get m k of None \<Rightarrow> 0 | Some e \<Rightarrow> if P e then qe_repeats e else 0)"
proof (induction m)
  case (Cons x m)
  obtain k' e where x: "x = (k', e)" by force
  show ?case
  proof (cases "k' = k")
    case True
    with Cons.prems x have "k \<notin> fst ` set (filter (\<lambda>(k, e). P e) m)" by (auto simp: gm_wf_def)
    with True x counts_of_others [of k "filter (\<lambda>(k, e). P e) m" qe_repeats] show ?thesis by simp
  qed (use Cons x in \<open>auto simp: gm_wf_def\<close>)
qed simp

lemma owed_filter:
  assumes "gm_wf m"
  shows "owed k (filter (\<lambda>(k, e). P e) m) = (case gm_get m k of None \<Rightarrow> 0 | Some e \<Rightarrow> if P e then qe_repeats e else 0)"
proof -
  let ?f = "gm_get (filter (\<lambda>(k, e). P e) m) k"
  note flt = gm_get_filter [OF assms, of "\<lambda>(k, e). P e" k, unfolded prod.case]
  have "?f = (if P e then Some e else None)" if "gm_get m k = Some e" for e
    by (cases ?f) (use flt [of e] that in \<open>simp split: if_splits\<close>, use flt that in \<open>metis option.inject\<close>)
  moreover have "?f = None" if "gm_get m k = None"
    by (cases ?f) (simp, use flt that in \<open>metis option.distinct(1)\<close>)
  ultimately show ?thesis by (cases "gm_get m k") (simp_all add: owed_def)
qed

lemma step_balance:
  assumes "gm_wf q" "quiet_step quiet q a = (q', out)"
  shows "gm_wf q' \<and> attempts_of k a + owed k q = total (recorded_of k) out + owed k q'"
proof (cases a)
  case (Attempt k' who now)
  with assms show ?thesis
    by (auto simp: fold_attempt_def owed_def split: option.splits if_splits)
next
  case (Tick now)
  let ?P = "quiet_now quiet now :: _ \<Rightarrow> bool"
  have "(\<lambda>(k, e). \<not> ?P e \<and> qe_repeats e > 0) = (\<lambda>(k, e). (\<lambda>e. \<not> ?P e \<and> qe_repeats e > 0) e)" by simp
  with Tick assms counts_of_filter [OF assms(1), of k "\<lambda>e. \<not> ?P e \<and> qe_repeats e > 0"] owed_filter [OF assms(1), of k ?P]
  show ?thesis by (auto simp: fold_expired_def owed_def split: option.splits)
qed

lemma step_length:
  "quiet_step quiet q a = (q', out) \<Longrightarrow> length q \<le> maxAuthQuietEntries \<Longrightarrow> length q' \<le> maxAuthQuietEntries"
  by (cases a) (auto simp: fold_attempt_def fold_expired_def length_gm_put split: option.splits if_splits
      intro: order_trans [OF length_filter_le])

lemma run_balance:
  "gm_wf q \<Longrightarrow> length q \<le> maxAuthQuietEntries \<Longrightarrow> quiet_run quiet q calls = (q', outs) \<Longrightarrow>
   gm_wf q' \<and> length q' \<le> maxAuthQuietEntries \<and> total (attempts_of k) calls + owed k q = total (recorded_of k) outs + owed k q'"
proof (induction calls arbitrary: q outs)
  case (Cons a as)
  obtain q1 out outs' where s: "quiet_step quiet q a = (q1, out)" "quiet_run quiet q1 as = (q', outs')" "outs = out @ outs'"
    using Cons.prems(3) by (auto split: prod.splits)
  from step_balance [OF Cons.prems(1) s(1), of k] step_length [OF s(1) Cons.prems(2)] Cons.IH [OF _ _ s(2)] s(3)
  show ?case by simp
qed simp

lemma silent_step:
  assumes "gm_get q k = Some e" "call_time a < qe_written e + quiet" "quiet_step quiet q a = (q', out)" "gm_wf q"
  shows "\<exists>e'. gm_get q' k = Some e' \<and> qe_written e' = qe_written e \<and> total (recorded_of k) out = 0"
proof (cases a)
  case (Attempt k' who now)
  with assms show ?thesis by (auto simp: fold_attempt_def quiet_now_def split: option.splits if_splits)
next
  case (Tick now)
  with assms have q: "quiet_now quiet now e" "q' = filter (\<lambda>(k, e). quiet_now quiet now e) q"
    "out = map (\<lambda>(k, e). Count k (qe_repeats e)) (filter (\<lambda>(k, e). \<not> quiet_now quiet now e \<and> qe_repeats e > 0) q)"
    by (auto simp: fold_expired_def quiet_now_def)
  with assms(1) gm_get_filter [OF assms(4), of "\<lambda>(k, e). quiet_now quiet now e" k e]
    counts_of_filter [OF assms(4), of k "\<lambda>e. \<not> quiet_now quiet now e \<and> qe_repeats e > 0"]
  show ?thesis by simp
qed

lemma silent_run:
  "gm_get q k = Some e \<Longrightarrow> \<forall>a \<in> set calls. call_time a < qe_written e + quiet \<Longrightarrow> gm_wf q \<Longrightarrow>
   quiet_run quiet q calls = (q', outs) \<Longrightarrow> total (recorded_of k) outs = 0"
proof (induction calls arbitrary: q e outs)
  case (Cons a as)
  obtain q1 out outs' where s: "quiet_step quiet q a = (q1, out)" "quiet_run quiet q1 as = (q', outs')" "outs = out @ outs'"
    using Cons.prems(4) by (auto split: prod.splits)
  obtain e' where e': "gm_get q1 k = Some e'" "qe_written e' = qe_written e" "total (recorded_of k) out = 0"
    using silent_step [OF Cons.prems(1) _ s(1) Cons.prems(3)] Cons.prems(2) by auto
  have "gm_wf q1" using step_balance [OF Cons.prems(3) s(1), of k] by simp
  with Cons.IH [OF e'(1) _ this s(2)] Cons.prems(2) e' s(3) show ?case by simp
qed simp

text \<open>
  The fold loses no login and bounds what is written. Over any run of attempts and sweeps from an empty table, the
  attempts of each kind are exactly those with a line of their own, those counted in a written count and those the
  table still owes; the table never holds more than its limit; and once a line was written for a kind the table holds,
  nothing more is written for it until the quiet period is over.
\<close>

theorem quiet_log_complete:
  assumes "quiet_run quiet [] calls = (q, outs)"
  shows "total (attempts_of k) calls = total (recorded_of k) outs + owed k q \<and> length q \<le> maxAuthQuietEntries \<and>
    (\<forall>e more q' outs'. gm_get q k = Some e \<longrightarrow> (\<forall>a \<in> set more. call_time a < qe_written e + quiet) \<longrightarrow>
       quiet_run quiet q more = (q', outs') \<longrightarrow> total (recorded_of k) outs' = 0 \<and> owed k q' = owed k q + total (attempts_of k) more)"
proof -
  have inv: "gm_wf q" "length q \<le> maxAuthQuietEntries" "total (attempts_of k) calls = total (recorded_of k) outs + owed k q"
    using run_balance [OF _ _ assms, of k] by (simp_all add: owed_def)
  have "total (recorded_of k) outs' = 0 \<and> owed k q' = owed k q + total (attempts_of k) more"
    if "gm_get q k = Some e" "\<forall>a \<in> set more. call_time a < qe_written e + quiet" "quiet_run quiet q more = (q', outs')"
    for e more q' outs'
    using silent_run [OF that(1,2) inv(1) that(3)] run_balance [OF inv(1,2) that(3), of k] by simp
  with inv show ?thesis by blast
qed

theorem quiet_log_complete_witness:
  "total (attempts_of ''k'') [Attempt ''k'' () 0, Attempt ''k'' () 1, Attempt ''k'' () 2] =
     total (recorded_of ''k'') [Line ''k''] + owed ''k'' [(''k'', \<lparr>qe_written = 0, qe_repeats = 2, qe_first = 1, qe_last = 2, qe_who = ()\<rparr>)]"
proof -
  have "quiet_run 600 [] [Attempt ''k'' () 0, Attempt ''k'' () 1, Attempt ''k'' () 2] =
    ([(''k'', \<lparr>qe_written = 0, qe_repeats = 2, qe_first = 1, qe_last = 2, qe_who = ()\<rparr>)], [Line ''k''])"
    by (simp add: fold_attempt_def quiet_now_def fresh_entry_def count_repeat_def maxAuthQuietEntries_def)
  from quiet_log_complete [OF this, of "''k''"] show ?thesis by blast
qed

end
