(* ===== verification/Gateway_Audit.thy ===== *)
theory Gateway_Audit
  imports Config_Names Acl Rate_Limiter Quiet_Log Ssh_Payload
begin

text \<open>
  The gateway as one state: its store, its access engine, the pairing limiter, the audit health of
  \<open>audit_health.go\<close> and the events it journals (\<open>appendEvent\<close> in \<open>gateway.go\<close>, the helpers of \<open>admin_role.go\<close>). The
  journal itself is the component of theory \<open>Journal\<close>; here a write either adds one line or is answered with an error,
  and the answers still to come are part of the state. Every command holds \<open>accessPublishMu\<close> from its state write to
  its journal line, so a command is one step.
\<close>

section \<open>State\<close>

record auditHealth =
  au_failing :: bool
  au_since :: instant
  au_lastErr :: string
  au_lost :: nat
  au_watched :: "(string, nat) gomap"

text \<open>What the gateway does to live connections: a connection of a machine torn down or reset, one of a person closed.\<close>

datatype effect = Teardown string string | CloseForOSUserChange string | StartProbe string | CloseConn nat
  | Notify kill_note

record key_conn =
  kc_person :: string
  kc_fingerprint :: string
  kc_addr :: string
  kc_session :: session_id

record gateway =
  gw_store :: store
  gw_aclE :: engine
  gw_pairRate :: limiter
  gw_audit :: auditHealth
  gw_journal :: "event list"
  gw_answers :: "string option list"
  gw_now :: instant
  gw_enrolHMAC :: "byte list"
  gw_reg :: "(string, bool) gomap"
  gw_keyConns :: "(nat, key_conn) gomap"
  gw_effects :: "effect list"
  gw_authQuiet :: authQuiet
  gw_authDeny :: authDenyQuiet

abbreviation st_of :: "gateway \<Rightarrow> gw_state" where
  "st_of g \<equiv> so_state (gw_store g)"

text \<open>
  An address as \<open>net/netip\<close> parses it: the printed form of an IPv4 address (an IPv4-mapped one unmapped), or that of an
  IPv6 address with its /64 prefix, which a zoned address has not.
\<close>

datatype netip = IPv4 string | IPv6 string "string option"

text \<open>
  The parts of the configuration the commands read, with the library functions they call: the writer of the state
  file, the RFC 3339 format of an instant and its reader, \<open>ssh.ParseAuthorizedKey\<close> (the type of the key and, for RSA, the
  bits of its modulus), the host of a host and port, the reading of an address, the public key line derived from an
  enrolment secret (HKDF and ed25519) and the scrubber of command texts.
\<close>

record gw_config =
  cf_enc :: senc
  cf_fmt :: "instant \<Rightarrow> string"
  cf_ParseRFC3339 :: "string \<Rightarrow> instant option"
  cf_ParseAuthorizedKey :: "string \<Rightarrow> (string \<times> nat option) option"
  cf_SplitHostPort :: "string \<Rightarrow> string option"
  cf_ParseAddr :: "string \<Rightarrow> netip option"
  cf_enrolSigner :: "string \<Rightarrow> string option"
  cf_ScrubCommand :: "string \<Rightarrow> string"
  cf_AuthSuccessQuiet :: duration
  cf_PINDigits :: int
  cf_WindowTTL :: duration

text \<open>The code and exit status of a refusal; its message is left out.\<close>

record cmdError =
  ce_code :: string
  ce_exit :: int

definition errf :: "string \<Rightarrow> int \<Rightarrow> cmdError" where
  "errf code exit = \<lparr>ce_code = code, ce_exit = exit\<rparr>"

section \<open>Events\<close>

definition EventAdminOp :: string where "EventAdminOp = ''admin.op''"
definition EventEnrolVerified :: string where "EventEnrolVerified = ''enrol.verified''"
definition EventEnrolFailed :: string where "EventEnrolFailed = ''enrol.failed''"
definition EventGrantRevoke :: string where "EventGrantRevoke = ''grant.revoke''"

definition mk_event :: "string \<Rightarrow> string \<Rightarrow> string \<Rightarrow> string \<Rightarrow> (string, string) gomap \<Rightarrow> event" where
  "mk_event ty actor obj result details = \<lparr>ev_Time = 0, ev_Type = ty, ev_Actor = actor, ev_Object = obj, ev_Result = result,
     ev_Address = '''', ev_Fingerprint = '''', ev_Details = details, ev_PrevHash = ''''\<rparr>"

text \<open>Details are kept as the text of their values.\<close>

definition d_int :: "int \<Rightarrow> string" where
  "d_int n = (if n < 0 then ''-'' @ FormatUint (nat (- n)) else FormatUint (nat n))"

definition d_bool :: "bool \<Rightarrow> string" where
  "d_bool b = (if b then ''true'' else ''false'')"

fun d_list :: "string list \<Rightarrow> string" where
  "d_list [] = ''''"
| "d_list [x] = x"
| "d_list (x # xs) = x @ '','' @ d_list xs"

primrec reason_text :: "revocation_reason \<Rightarrow> string" where
  "reason_text RevokedMachineRemoved = ''machine-removed''"
| "reason_text RevokedMachineRekeyed = ''machine-key-changed''"
| "reason_text RevokedPersonRemoved = ''person-removed''"

definition NewGrantRevokedEvent :: "revocation \<Rightarrow> instant \<Rightarrow> event" where
  "NewGrantRevokedEvent rv at =
    (mk_event EventGrantRevoke ''gateway'' (rv_Person rv @ '' -> '' @ rv_Machine rv) (reason_text (rv_Reason rv))
      ([(''reason'', reason_text (rv_Reason rv)), (''person'', rv_Person rv), (''machine'', rv_Machine rv),
        (''pinnedKeyFp'', rv_PinnedKeyFP rv)]
       @ (if rv_CurrentKeyFP rv \<noteq> '''' then [(''currentKeyFp'', rv_CurrentKeyFP rv)] else [])
       @ (if rv_Caps rv \<noteq> [] then [(''caps'', d_list (rv_Caps rv))] else [])))
    \<lparr>ev_Time := at, ev_Fingerprint := rv_PinnedKeyFP rv\<rparr>"

section \<open>The audit health\<close>

definition auditWatchKey :: "string \<Rightarrow> string \<Rightarrow> string" where
  "auditWatchKey actor op = actor @ [CHR 0x00] @ op"

text \<open>\<open>strings.Cut\<close> at the first colon.\<close>

fun cut_colon :: "string \<Rightarrow> (string \<times> string) option" where
  "cut_colon [] = None"
| "cut_colon (c # cs) = (if c = CHR '':'' then Some ([], cs) else map_option (\<lambda>(a, b). (c # a, b)) (cut_colon cs))"

definition adminOpOf :: "event \<Rightarrow> string" where
  "adminOpOf e = (if ev_Type e \<noteq> EventAdminOp then '''' else case cut_colon (ev_Result e) of
     None \<Rightarrow> '''' | Some (op, _) \<Rightarrow> op)"

definition bump :: "string \<Rightarrow> (string, nat) gomap \<Rightarrow> (string, nat) gomap" where
  "bump k m = (case gm_get m k of None \<Rightarrow> m | Some n \<Rightarrow> gm_put k (n + 1) m)"

definition noteLostLocked :: "auditHealth \<Rightarrow> event \<Rightarrow> auditHealth" where
  "noteLostLocked h e =
    (let w = (if adminOpOf e \<noteq> '''' then bump (auditWatchKey (ev_Actor e) (adminOpOf e)) (au_watched h) else au_watched h)
     in h\<lparr>au_lost := au_lost h + 1, au_watched := bump (ev_Actor e) w\<rparr>)"

definition noteAudit :: "gateway \<Rightarrow> string option \<Rightarrow> event \<Rightarrow> gateway" where
  "noteAudit g err e =
    (let h = gw_audit g in
     case err of
       Some text \<Rightarrow>
         (let h = (noteLostLocked h e)\<lparr>au_lastErr := text\<rparr>
          in g\<lparr>gw_audit := (if \<not> au_failing h then h\<lparr>au_failing := True, au_since := gw_now g\<rparr> else h)\<rparr>)
     | None \<Rightarrow> g\<lparr>gw_audit := (if au_failing h then h\<lparr>au_failing := False, au_since := gw_now g\<rparr> else h)\<rparr>)"

definition journalAppend :: "gateway \<Rightarrow> event \<Rightarrow> gateway \<times> string option" where
  "journalAppend g e = (case gw_answers g of
     [] \<Rightarrow> (g\<lparr>gw_journal := gw_journal g @ [e]\<rparr>, None)
   | None # rest \<Rightarrow> (g\<lparr>gw_journal := gw_journal g @ [e], gw_answers := rest\<rparr>, None)
   | Some err # rest \<Rightarrow> (g\<lparr>gw_answers := rest\<rparr>, Some err))"

definition appendEventChecked :: "gateway \<Rightarrow> event \<Rightarrow> gateway \<times> string option" where
  "appendEventChecked g e =
    (let e = e\<lparr>ev_Time := gw_now g\<rparr> in case journalAppend g e of (g', err) \<Rightarrow> (noteAudit g' err e, err))"

definition appendEvent :: "gateway \<Rightarrow> event \<Rightarrow> gateway" where
  "appendEvent g e = fst (appendEventChecked g e)"

definition logAdminOp :: "gateway \<Rightarrow> string \<Rightarrow> string \<Rightarrow> string \<Rightarrow> string \<Rightarrow> (string, string) gomap \<Rightarrow> gateway" where
  "logAdminOp g actor op obj result details =
     appendEvent g (mk_event EventAdminOp actor obj (op @ '':'' @ result) details)"

record auditSnapshot =
  sn_OK :: bool
  sn_Since :: "instant option"
  sn_Error :: string
  sn_LostWrites :: nat

definition audit_snapshot :: "auditHealth \<Rightarrow> auditSnapshot" where
  "audit_snapshot h = \<lparr>sn_OK = (\<not> au_failing h), sn_Since = (if isZero (au_since h) then None else Some (au_since h)),
     sn_Error = au_lastErr h, sn_LostWrites = au_lost h\<rparr>"

definition auditRefusal :: "gateway \<Rightarrow> cmdError option" where
  "auditRefusal g = (if sn_OK (audit_snapshot (gw_audit g)) then None else Some (errf ''E_AUDIT_UNAVAILABLE'' 1))"

definition auditLost :: cmdError where
  "auditLost = errf ''E_AUDIT_UNAVAILABLE'' 1"

definition watch_key :: "string \<Rightarrow> (string, nat) gomap \<Rightarrow> (string, nat) gomap" where
  "watch_key k m = (if gm_get m k = None then gm_put k 0 m else m)"

definition watched_count :: "auditHealth \<Rightarrow> string \<Rightarrow> nat" where
  "watched_count h k = (case gm_get (au_watched h) k of None \<Rightarrow> 0 | Some n \<Rightarrow> n)"

definition watchActor :: "auditHealth \<Rightarrow> string \<Rightarrow> auditHealth \<times> nat" where
  "watchActor h actor = (let h = h\<lparr>au_watched := watch_key actor (au_watched h)\<rparr> in (h, watched_count h actor))"

definition lostForActor :: "auditHealth \<Rightarrow> string \<Rightarrow> nat" where
  "lostForActor h actor = watched_count h actor"

type_synonym audit_watch = "(string \<times> nat) list"

fun watch_ops :: "auditHealth \<Rightarrow> string \<Rightarrow> string list \<Rightarrow> auditHealth \<times> audit_watch" where
  "watch_ops h actor [] = (h, [])"
| "watch_ops h actor (op # ops) =
    (let k = auditWatchKey actor op; h = h\<lparr>au_watched := watch_key k (au_watched h)\<rparr>
     in case watch_ops h actor ops of (h', w) \<Rightarrow> (h', (k, watched_count h k) # w))"

definition watchCmd :: "auditHealth \<Rightarrow> string \<Rightarrow> string list \<Rightarrow> auditHealth \<times> audit_watch" where
  "watchCmd h actor ops = watch_ops h actor ops"

definition lostSince :: "auditHealth \<Rightarrow> audit_watch \<Rightarrow> bool" where
  "lostSince h w = list_ex (\<lambda>(k, was). watched_count h k > was) w"

text \<open>A role's run may panic, which is no answer.\<close>

definition runAuditedRole ::
  "gateway \<Rightarrow> string \<Rightarrow> (gateway \<Rightarrow> gateway \<times> (cmdError + 'a) option) \<Rightarrow> gateway \<times> (cmdError + 'a) option" where
  "runAuditedRole g actor run = (case auditRefusal g of
     Some cerr \<Rightarrow> (g, Some (Inl cerr))
   | None \<Rightarrow>
      (case watchActor (gw_audit g) actor of (h, lost) \<Rightarrow>
       (case run (g\<lparr>gw_audit := h\<rparr>) of
          (g', Some (Inr res)) \<Rightarrow>
            if lostForActor (gw_audit g') actor > lost then (g', Some (Inl auditLost)) else (g', Some (Inr res))
        | (g', other) \<Rightarrow> (g', other))))"

section \<open>Logins in the journal\<close>

definition clipForJournalTo :: "string \<Rightarrow> nat \<Rightarrow> string" where
  "clipForJournalTo s limit = (if length s \<le> limit then s
     else take limit s @ string_of [0xE2, 0x80, 0xA6] @ '' ('' @ FormatUint (length s) @ '' bytes)'')"

definition maxLoginJournalBytes :: nat where "maxLoginJournalBytes = 65"
definition maxAuthReasonJournalBytes :: nat where "maxAuthReasonJournalBytes = 256"

definition quietHost :: "gw_config \<Rightarrow> string \<Rightarrow> string" where
  "quietHost c addr = (case cf_SplitHostPort c addr of None \<Rightarrow> addr | Some host \<Rightarrow> host)"

definition repeat_details :: "gw_config \<Rightarrow> 'p quiet_entry \<Rightarrow> (string, string) gomap" where
  "repeat_details c e = [(''repeats'', FormatUint (qe_repeats e)), (''firstRepeat'', cf_fmt c (qe_first e)),
     (''lastRepeat'', cf_fmt c (qe_last e))]"

definition authSuccessEvent ::
  "gw_config \<Rightarrow> string \<Rightarrow> string \<Rightarrow> string \<Rightarrow> string \<Rightarrow> string \<Rightarrow> authQuietEntry option \<Rightarrow> event" where
  "authSuccessEvent c addr login fingerprint subject role repeats =
    (mk_event EventAuthSuccess subject (clipForJournalTo login maxLoginJournalBytes) ''ok''
      ((''role'', role) # (case repeats of None \<Rightarrow> [] | Some e \<Rightarrow> repeat_details c e)))
    \<lparr>ev_Address := addr, ev_Fingerprint := fingerprint\<rparr>"

definition has_prefix :: "string \<Rightarrow> string \<Rightarrow> bool" where
  "has_prefix s p \<longleftrightarrow> take (length p) s = p"

definition authDenyKind :: "string \<Rightarrow> string \<Rightarrow> string" where
  "authDenyKind t reason =
    (if t = EventAuthHandshakeFailure then ''handshake''
     else if has_prefix reason ''auth: address or key rate limited'' \<or> has_prefix reason ''auth: address rate limited''
     then ''rate limited''
     else if has_prefix reason ''auth: unknown key'' then ''unknown key''
     else if has_prefix reason ''auth: username does not match the key owner'' then ''name mismatch''
     else ''refused'')"

definition authDenyEventType :: "string \<Rightarrow> string" where
  "authDenyEventType kind = (if kind = ''handshake'' then EventAuthHandshakeFailure else EventAuthFailure)"

definition authDenyEvent :: "gw_config \<Rightarrow> string \<Rightarrow> authDenyEntry \<Rightarrow> event" where
  "authDenyEvent c kind e =
    (let details = (if qe_repeats e > 0 then repeat_details c e else []);
         result = clipForJournalTo (rf_reason (qe_who e)) maxAuthReasonJournalBytes;
         addr = rf_addr (qe_who e);
         actor = (if authDenyEventType kind = EventAuthHandshakeFailure then addr
                  else clipForJournalTo (rf_login (qe_who e)) maxLoginJournalBytes)
     in (mk_event (authDenyEventType kind) actor actor result details)
        \<lparr>ev_Address := addr, ev_Fingerprint := rf_fingerprint (qe_who e)\<rparr>)"

text \<open>The two sinks of the authentication (\<open>AuthAccepted\<close>, \<open>AuthDenied\<close>) and the flush of the sweep.\<close>

definition gw_AuthAccepted :: "gw_config \<Rightarrow> gateway \<Rightarrow> string \<Rightarrow> string \<Rightarrow> string \<Rightarrow> string \<Rightarrow> string \<Rightarrow> gateway" where
  "gw_AuthAccepted c g addr user fingerprint subject role =
    (let k = \<lparr>qk_login = user, qk_fingerprint = fingerprint, qk_host = quietHost c addr\<rparr> in
     case authQuiet_admit (gw_authQuiet g) k addr subject role (gw_now g) (cf_AuthSuccessQuiet c) of
       (q, write, summary) \<Rightarrow>
        (let g = g\<lparr>gw_authQuiet := q\<rparr>;
             g = (case summary of None \<Rightarrow> g | Some e \<Rightarrow> appendEvent g
                    (authSuccessEvent c (al_addr (qe_who e)) user fingerprint (al_subject (qe_who e)) (al_role (qe_who e)) (Some e)))
         in if write then appendEvent g (authSuccessEvent c addr user fingerprint subject role None) else g))"

definition gw_AuthDenied :: "gw_config \<Rightarrow> gateway \<Rightarrow> string \<Rightarrow> string \<Rightarrow> string \<Rightarrow> string \<Rightarrow> gateway" where
  "gw_AuthDenied c g addr user fingerprint reason =
    (let t = (if fingerprint = '''' then EventAuthHandshakeFailure else EventAuthFailure);
         k = \<lparr>dk_host = quietHost c addr, dk_kind = authDenyKind t reason\<rparr> in
     case authDeny_admit (gw_authDeny g) k addr user fingerprint reason (gw_now g) (cf_AuthSuccessQuiet c) of
       (q, write, summary) \<Rightarrow>
        (let g = g\<lparr>gw_authDeny := q\<rparr>;
             g = (case summary of None \<Rightarrow> g | Some e \<Rightarrow> appendEvent g (authDenyEvent c (dk_kind k) e))
         in case write of None \<Rightarrow> g | Some e \<Rightarrow> appendEvent g (authDenyEvent c (dk_kind k) e)))"

definition flushAuthQuiet :: "gw_config \<Rightarrow> gateway \<Rightarrow> instant \<Rightarrow> gateway" where
  "flushAuthQuiet c g now = (case authQuiet_expired (gw_authQuiet g) now (cf_AuthSuccessQuiet c) of (q, due) \<Rightarrow>
     foldl (\<lambda>g (k, e). appendEvent g (authSuccessEvent c (al_addr (qe_who e)) (qk_login k) (qk_fingerprint k)
        (al_subject (qe_who e)) (al_role (qe_who e)) (Some e))) (g\<lparr>gw_authQuiet := q\<rparr>) due)"

definition flushAuthDenyQuiet :: "gw_config \<Rightarrow> gateway \<Rightarrow> instant \<Rightarrow> gateway" where
  "flushAuthDenyQuiet c g now = (case authDeny_expired (gw_authDeny g) now (cf_AuthSuccessQuiet c) of (q, due) \<Rightarrow>
     foldl (\<lambda>g (k, e). appendEvent g (authDenyEvent c (dk_kind k) e)) (g\<lparr>gw_authDeny := q\<rparr>) due)"

section \<open>Requests and transactions\<close>

text \<open>The body of a request as \<open>encoding/json\<close> decodes it under \<open>DisallowUnknownFields\<close>.\<close>

datatype json_fault = UnknownField | TrailingData | MalformedJSON

definition decodeStrict :: "json_fault + 'a \<Rightarrow> cmdError + 'a" where
  "decodeStrict body = (case body of
     Inl UnknownField \<Rightarrow> Inl (errf ''E_JSON_FIELD_UNKNOWN'' 3)
   | Inl _ \<Rightarrow> Inl (errf ''E_JSON_INVALID'' 3)
   | Inr req \<Rightarrow> Inr req)"

text \<open>
  The request boundary of a one-shot role: the type and payload of the first request on the channel and what reading
  the body gave, \<open>None\<close> for a read error.
\<close>

record exec_in =
  xi_type :: string
  xi_payload :: "byte list"
  xi_body :: "byte list option"

definition maxExecRequestBytes :: int where "maxExecRequestBytes = 1048576"

definition readBounded :: "byte list option \<Rightarrow> int \<Rightarrow> byte list option" where
  "readBounded r mx = (case r of None \<Rightarrow> None | Some b \<Rightarrow> if int (length b) > mx then None else Some b)"

definition exec_gate :: "string \<Rightarrow> cmdError \<Rightarrow> cmdError \<Rightarrow> exec_in \<Rightarrow> cmdError + byte list" where
  "exec_gate command unknown protocol x =
    (if xi_type x \<noteq> ''exec'' then Inl unknown
     else case ParseExec (xi_payload x) of
       Inl _ \<Rightarrow> Inl protocol
     | Inr m \<Rightarrow> if ex_command m \<noteq> command then Inl unknown
         else case readBounded (xi_body x) maxExecRequestBytes of None \<Rightarrow> Inl protocol | Some b \<Rightarrow> Inr b)"

definition checkProto :: "int \<Rightarrow> cmdError option" where
  "checkProto p = (if p < 1 then Some (errf ''E_PROTO_GATEWAY_NEWER'' 4)
     else if p > 1 then Some (errf ''E_PROTO_CLIENT_NEWER'' 4) else None)"

definition reservedPersonNames :: "string list" where
  "reservedPersonNames = [''machine'', ''enrol'', ''bootstrap'', ''pairing'']"

text \<open>
  One \<open>Store.Update\<close> whose function also yields a result: the function's own refusal, the store's, or the result of
  the committed transaction.
\<close>

datatype ('e, 'r) txn = TxRefused 'e | TxFailed store_error | TxDone 'r

definition update_txn :: "senc \<Rightarrow> store_in \<Rightarrow> (gw_state \<Rightarrow> 'e + gw_state \<times> 'r) \<Rightarrow> store \<Rightarrow> store \<times> ('e, 'r) txn" where
  "update_txn enc i fn s =
    (case Update enc i (\<lambda>st. case fn st of Inl _ \<Rightarrow> None | Inr (d, _) \<Rightarrow> Some d) s of (s', err) \<Rightarrow>
      (s', case err of
         Some TransactionError \<Rightarrow> (case fn (so_state s) of Inl e \<Rightarrow> TxRefused e | Inr _ \<Rightarrow> TxFailed TransactionError)
       | Some e \<Rightarrow> TxFailed e
       | None \<Rightarrow> (case fn (so_state s) of Inr (_, r) \<Rightarrow> TxDone r | Inl e \<Rightarrow> TxRefused e)))"

text \<open>The same on the gateway's store.\<close>

definition gw_txn :: "gw_config \<Rightarrow> store_in \<Rightarrow> (gw_state \<Rightarrow> 'e + gw_state \<times> 'r) \<Rightarrow> gateway \<Rightarrow> gateway \<times> ('e, 'r) txn" where
  "gw_txn c i fn g = (case update_txn (cf_enc c) i fn (gw_store g) of (s, r) \<Rightarrow> (g\<lparr>gw_store := s\<rparr>, r))"

fun revoke_all :: "gateway \<Rightarrow> instant \<Rightarrow> revocation list \<Rightarrow> gateway \<times> nat" where
  "revoke_all g now [] = (g, 0)"
| "revoke_all g now (rv # revs) =
    (case RevokeBecause (gw_aclE g) (rv_Person rv) (rv_Machine rv) now DenyGrantRevoked of (e, notes, r) \<Rightarrow>
       (case revoke_all (appendEvent (g\<lparr>gw_aclE := e, gw_effects := gw_effects g @ map Notify notes\<rparr>)
                          (NewGrantRevokedEvent rv now)) now revs of
          (g', n) \<Rightarrow> (g', (case r of Inr k \<Rightarrow> k | Inl _ \<Rightarrow> 0) + n)))"

definition applyRevocations :: "gateway \<Rightarrow> instant \<Rightarrow> gateway \<times> nat" where
  "applyRevocations g now = (case DrainRevocations (gw_store g) of (s, revs) \<Rightarrow> revoke_all (g\<lparr>gw_store := s\<rparr>) now revs)"


section \<open>What a journal write does\<close>

definition writes :: "gateway \<Rightarrow> bool" where
  "writes g \<longleftrightarrow> (case gw_answers g of Some _ # _ \<Rightarrow> False | _ \<Rightarrow> True)"

definition stamped :: "gateway \<Rightarrow> event \<Rightarrow> event" where
  "stamped g e = e\<lparr>ev_Time := gw_now g\<rparr>"

lemma appendEvent_fields [simp]:
  "gw_store (appendEvent g e) = gw_store g" "gw_aclE (appendEvent g e) = gw_aclE g"
  "gw_pairRate (appendEvent g e) = gw_pairRate g" "gw_now (appendEvent g e) = gw_now g"
  "gw_enrolHMAC (appendEvent g e) = gw_enrolHMAC g" "gw_reg (appendEvent g e) = gw_reg g"
  "gw_keyConns (appendEvent g e) = gw_keyConns g" "gw_effects (appendEvent g e) = gw_effects g"
  "gw_authQuiet (appendEvent g e) = gw_authQuiet g" "gw_authDeny (appendEvent g e) = gw_authDeny g"
  by (simp_all add: appendEvent_def appendEventChecked_def journalAppend_def noteAudit_def Let_def
      split: list.split option.split prod.split)

lemma logAdminOp_fields [simp]:
  "gw_store (logAdminOp g a op ob r d) = gw_store g" "gw_aclE (logAdminOp g a op ob r d) = gw_aclE g"
  "gw_pairRate (logAdminOp g a op ob r d) = gw_pairRate g" "gw_now (logAdminOp g a op ob r d) = gw_now g"
  "gw_enrolHMAC (logAdminOp g a op ob r d) = gw_enrolHMAC g" "gw_reg (logAdminOp g a op ob r d) = gw_reg g"
  "gw_keyConns (logAdminOp g a op ob r d) = gw_keyConns g" "gw_effects (logAdminOp g a op ob r d) = gw_effects g"
  "gw_authQuiet (logAdminOp g a op ob r d) = gw_authQuiet g" "gw_authDeny (logAdminOp g a op ob r d) = gw_authDeny g"
  by (simp_all add: logAdminOp_def)

lemma journal_appendEvent:
  "gw_journal (appendEvent g e) = gw_journal g @ (if writes g then [stamped g e] else [])"
  by (simp add: appendEvent_def appendEventChecked_def journalAppend_def noteAudit_def writes_def stamped_def Let_def
      split: list.split option.split prod.split)

lemma answers_appendEvent: "gw_answers (appendEvent g e) = tl (gw_answers g)"
  by (simp add: appendEvent_def appendEventChecked_def journalAppend_def noteAudit_def Let_def
      split: list.split option.split prod.split)

lemma failing_appendEvent: "au_failing (gw_audit (appendEvent g e)) \<longleftrightarrow> \<not> writes g"
  by (simp add: appendEvent_def appendEventChecked_def journalAppend_def noteAudit_def writes_def noteLostLocked_def Let_def
      split: list.split option.split prod.split)

lemma lost_appendEvent: "au_lost (gw_audit (appendEvent g e)) = au_lost (gw_audit g) + (if writes g then 0 else 1)"
  by (simp add: appendEvent_def appendEventChecked_def journalAppend_def noteAudit_def writes_def noteLostLocked_def Let_def
      split: list.split option.split prod.split)

lemma watched_appendEvent:
  "au_watched (gw_audit (appendEvent g e)) =
    (if writes g then au_watched (gw_audit g) else au_watched (noteLostLocked (gw_audit g) e))"
  by (auto simp: appendEvent_def appendEventChecked_def journalAppend_def noteAudit_def writes_def noteLostLocked_def Let_def
      adminOpOf_def split: list.split option.split prod.split)

lemma get_bump: "gm_get (bump k m) a = (if a = k then map_option Suc (gm_get m a) else gm_get m a)"
  by (simp add: bump_def split: option.split)

lemma get_watch_key: "gm_get (watch_key k m) a = (if a = k \<and> gm_get m k = None then Some 0 else gm_get m a)"
  by (simp add: watch_key_def)

text \<open>A lost line of a watched writer raises the writer's count; nothing lowers a count.\<close>

definition counts_for :: "string \<Rightarrow> event \<Rightarrow> bool" where
  "counts_for a e \<longleftrightarrow> ev_Actor e = a \<or> adminOpOf e \<noteq> '''' \<and> auditWatchKey (ev_Actor e) (adminOpOf e) = a"

lemma watched_count_appendEvent:
  assumes "gm_get (au_watched (gw_audit g)) a \<noteq> None"
  shows "gm_get (au_watched (gw_audit (appendEvent g e))) a \<noteq> None \<and>
    watched_count (gw_audit (appendEvent g e)) a \<ge> watched_count (gw_audit g) a + (if \<not> writes g \<and> counts_for a e then 1 else 0)"
  using assms
  by (auto simp: watched_count_def watched_appendEvent noteLostLocked_def counts_for_def get_bump Let_def split: option.splits)

section \<open>Runs of writes\<close>

fun append_all :: "gateway \<Rightarrow> event list \<Rightarrow> gateway" where
  "append_all g [] = g"
| "append_all g (e # es) = append_all (appendEvent g e) es"

lemma append_all_append: "append_all g (es @ fs) = append_all (append_all g es) fs"
  by (induction es arbitrary: g) simp_all

lemma append_all_fields [simp]:
  "gw_store (append_all g es) = gw_store g" "gw_aclE (append_all g es) = gw_aclE g" "gw_now (append_all g es) = gw_now g"
  by (induction es arbitrary: g) simp_all

text \<open>The part of the gateway a journal write reads and writes.\<close>

definition audit_of :: "gateway \<Rightarrow> auditHealth \<times> event list \<times> string option list \<times> instant" where
  "audit_of g = (gw_audit g, gw_journal g, gw_answers g, gw_now g)"

lemma audit_of_appendEvent: "audit_of g = audit_of h \<Longrightarrow> audit_of (appendEvent g e) = audit_of (appendEvent h e)"
  by (auto simp: audit_of_def appendEvent_def appendEventChecked_def journalAppend_def noteAudit_def Let_def
      split: list.split option.split)

lemma audit_of_append_all: "audit_of g = audit_of h \<Longrightarrow> audit_of (append_all g es) = audit_of (append_all h es)"
proof (induction es arbitrary: g h)
  case (Cons e es)
  show ?case using Cons.IH [OF audit_of_appendEvent [OF Cons.prems, of e]] by simp
qed simp

lemma audit_of_logAdminOp:
  "audit_of (logAdminOp g a op ob r d) = audit_of (append_all g [mk_event EventAdminOp a ob (op @ '':'' @ r) d])"
  by (simp add: logAdminOp_def)

lemma append_all_record:
  assumes "gm_get (au_watched (gw_audit g)) a \<noteq> None" "\<And>e. P e \<Longrightarrow> counts_for a e" "\<And>e t. P (e\<lparr>ev_Time := t\<rparr>) = P e"
  shows "\<exists>new. gw_journal (append_all g es) = gw_journal g @ new \<and>
    watched_count (gw_audit (append_all g es)) a \<ge> watched_count (gw_audit g) a \<and>
    (watched_count (gw_audit (append_all g es)) a = watched_count (gw_audit g) a \<longrightarrow>
      filter P new = map (stamped g) (filter P es))"
  using assms(1)
proof (induction es arbitrary: g)
  case (Cons e es)
  let ?g = "appendEvent g e"
  note w = watched_count_appendEvent [OF Cons.prems, of e]
  from Cons.IH [of ?g] w obtain new where new: "gw_journal (append_all ?g es) = gw_journal ?g @ new"
    "watched_count (gw_audit (append_all ?g es)) a \<ge> watched_count (gw_audit ?g) a"
    "watched_count (gw_audit (append_all ?g es)) a = watched_count (gw_audit ?g) a \<longrightarrow>
      filter P new = map (stamped ?g) (filter P es)" by blast
  have "stamped ?g = stamped g" by (simp add: stamped_def fun_eq_iff)
  with new w assms(2) [of e] show ?case
    by (auto simp: journal_appendEvent stamped_def assms(3) split: if_splits)
qed simp

section \<open>The contract of an audited role\<close>

text \<open>
  What \<open>runAuditedRole\<close> relies on: a run that succeeds has written its lines through \<open>appendEvent\<close>, those of its own
  actor being \<open>own\<close>. What it promises in return: no answer "ok" without those lines on record, and nothing run
  while the journal cannot be written.
\<close>

locale audited_role =
  fixes run :: "gateway \<Rightarrow> gateway \<times> (cmdError + 'a) option" and actor :: string and own :: "gateway \<Rightarrow> 'a \<Rightarrow> event list"
  assumes own_lines: "run g = (g', Some (Inr res)) \<Longrightarrow>
      \<exists>es. audit_of g' = audit_of (append_all g es) \<and> filter (\<lambda>e. ev_Actor e = actor) es = own g res"
    and own_fields: "own (g\<lparr>gw_audit := h\<rparr>) = own g"
begin

lemma success_on_record:
  assumes "runAuditedRole g actor run = (g', Some (Inr res))"
  shows "\<not> au_failing (gw_audit g) \<and> (\<exists>new. gw_journal g' = gw_journal g @ new \<and>
    filter (\<lambda>e. ev_Actor e = actor) new = map (stamped g) (own g res))"
proof -
  let ?h = "fst (watchActor (gw_audit g) actor)" and ?n = "snd (watchActor (gw_audit g) actor)"
  let ?g = "g\<lparr>gw_audit := ?h\<rparr>"
  from assms have ok: "\<not> au_failing (gw_audit g)" and r: "run ?g = (g', Some (Inr res))"
    and kept: "\<not> lostForActor (gw_audit g') actor > ?n"
    by (auto simp: runAuditedRole_def auditRefusal_def audit_snapshot_def split: prod.splits option.splits sum.splits if_splits)
  have w: "gm_get (au_watched (gw_audit ?g)) actor \<noteq> None" "?n = watched_count (gw_audit ?g) actor"
    by (simp_all add: watchActor_def Let_def get_watch_key)
  from own_lines [OF r] obtain es where es: "audit_of g' = audit_of (append_all ?g es)"
    "filter (\<lambda>e. ev_Actor e = actor) es = own g res" by (auto simp: own_fields)
  have "stamped ?g = stamped g" by (simp add: stamped_def fun_eq_iff)
  with append_all_record [OF w(1), of "\<lambda>e. ev_Actor e = actor" es] es kept w(2) ok show ?thesis
    by (auto simp: audit_of_def lostForActor_def counts_for_def le_antisym)
qed

lemma refused_while_failing:
  "au_failing (gw_audit g) \<Longrightarrow> runAuditedRole g actor run = (g, Some (Inl (errf ''E_AUDIT_UNAVAILABLE'' 1)))"
  by (simp add: runAuditedRole_def auditRefusal_def audit_snapshot_def)

end

section \<open>Transactions\<close>

lemma commit_state:
  "commitLocked enc i d s = (t, Some err) \<Longrightarrow> so_state t = so_state s \<and> so_revocations t = so_revocations s"
  by (auto simp: commitLocked_def saveAtomicLocked_def verifyDiskMatchesLocked_def
      split: option.splits save_io.splits prod.splits if_splits)

lemma update_failed:
  assumes "Update enc i fn s = (t, Some err)"
  shows "so_state t = so_state s \<and> so_revocations t = so_revocations s"
proof (cases "fn (so_state s)")
  case (Some d)
  show ?thesis
  proof (cases "so_readOnly s")
    case False
    with Some assms have "transact enc i d s = (t, Some err)" by (simp add: Update_def)
    then show ?thesis by (cases rule: transact_cases) (auto dest: commit_state)
  qed (use assms in \<open>simp add: Update_def\<close>)
qed (use assms in \<open>auto simp: Update_def split: if_splits\<close>)

text \<open>A transaction either committed the draft its function returned, or left the state alone.\<close>

lemma update_txn_cases:
  assumes "update_txn enc i fn s = (t, r)"
  obtains (committed) d x where "r = TxDone x" "fn (so_state s) = Inr (d, x)" "wf_state (final_draft (so_state s) d)"
      "so_state t = applyMachineDefaults (final_draft (so_state s) d)"
      "so_revocations t = so_revocations s @ snd (reconcileGrants (so_state s) d)"
  | (refused) e where "r = TxRefused e" "fn (so_state s) = Inl e" "so_state t = so_state s" "so_revocations t = so_revocations s"
  | (failed) err where "r = TxFailed err" "so_state t = so_state s" "so_revocations t = so_revocations s"
proof -
  let ?f = "\<lambda>st. case fn st of Inl _ \<Rightarrow> None | Inr (d, _) \<Rightarrow> Some d"
  obtain err where u: "Update enc i ?f s = (t, err)"
    using assms by (auto simp: update_txn_def split: prod.splits)
  show thesis
  proof (cases err)
    case None
    then have "fn (so_state s) \<noteq> Inl e" for e
      using u by (auto simp: Update_def split: if_splits)
    then obtain d x where dx: "fn (so_state s) = Inr (d, x)" by (metis sum.exhaust surj_pair)
    with None u assms update_committed [of enc i ?f s t d] show thesis
      by (intro committed [of x d]) (auto simp: update_txn_def)
  next
    case (Some e)
    with u update_failed [of enc i ?f s t e] have st: "so_state t = so_state s" "so_revocations t = so_revocations s" by auto
    from Some u assms have "(\<exists>err. r = TxFailed err) \<or> (\<exists>e. r = TxRefused e \<and> fn (so_state s) = Inl e)"
      by (auto simp: update_txn_def split: store_error.splits sum.splits)
    with st failed refused show thesis by blast
  qed
qed

lemma gw_txn_cases:
  assumes "gw_txn c i fn g = (g', r)"
  obtains (committed) d x s where "r = TxDone x" "fn (so_state (gw_store g)) = Inr (d, x)" "g' = g\<lparr>gw_store := s\<rparr>"
      "wf_state (final_draft (so_state (gw_store g)) d)"
      "so_state s = applyMachineDefaults (final_draft (so_state (gw_store g)) d)"
      "so_revocations s = so_revocations (gw_store g) @ snd (reconcileGrants (so_state (gw_store g)) d)"
  | (refused) e s where "r = TxRefused e" "fn (so_state (gw_store g)) = Inl e" "g' = g\<lparr>gw_store := s\<rparr>"
      "so_state s = so_state (gw_store g)" "so_revocations s = so_revocations (gw_store g)"
  | (failed) err s where "r = TxFailed err" "g' = g\<lparr>gw_store := s\<rparr>" "so_state s = so_state (gw_store g)"
      "so_revocations s = so_revocations (gw_store g)"
proof -
  obtain s where u: "update_txn (cf_enc c) i fn (gw_store g) = (s, r)" "g' = g\<lparr>gw_store := s\<rparr>"
    using assms by (auto simp: gw_txn_def split: prod.splits)
  from u(1) show thesis by (cases rule: update_txn_cases) (use u(2) committed refused failed in \<open>blast+\<close>)
qed

section \<open>The journal beside transactions and revocations\<close>

lemma audit_of_fields [simp]:
  "audit_of (g\<lparr>gw_store := s\<rparr>) = audit_of g" "audit_of (g\<lparr>gw_pairRate := l\<rparr>) = audit_of g"
  "audit_of (g\<lparr>gw_aclE := e\<rparr>) = audit_of g" "audit_of (g\<lparr>gw_effects := ef\<rparr>) = audit_of g"
  by (simp_all add: audit_of_def)

lemma audit_of_txn: "gw_txn c i fn g = (g', r) \<Longrightarrow> audit_of g' = audit_of g"
  by (auto simp: gw_txn_def split: prod.splits)

lemma revoke_all_audit:
  "\<exists>es. audit_of (fst (revoke_all g now revs)) = audit_of (append_all g es) \<and>
    (\<forall>e \<in> set es. ev_Actor e = ''gateway'' \<and> adminOpOf e = '''')"
proof (induction revs arbitrary: g)
  case Nil
  show ?case by (intro exI [of _ "[]"]) simp
next
  case (Cons rv revs)
  obtain e ns k where rb: "RevokeBecause (gw_aclE g) (rv_Person rv) (rv_Machine rv) now DenyGrantRevoked = (e, ns, k)"
    using prod_cases3 by blast
  let ?g = "g\<lparr>gw_aclE := e, gw_effects := gw_effects g @ map Notify ns\<rparr>" and ?ev = "NewGrantRevokedEvent rv now"
  from Cons [of "appendEvent ?g ?ev"] obtain es where es:
    "audit_of (fst (revoke_all (appendEvent ?g ?ev) now revs)) = audit_of (append_all (appendEvent ?g ?ev) es)"
    "\<forall>e \<in> set es. ev_Actor e = ''gateway'' \<and> adminOpOf e = ''''" by blast
  have "audit_of (append_all (appendEvent ?g ?ev) es) = audit_of (append_all (appendEvent g ?ev) es)"
    by (intro audit_of_append_all audit_of_appendEvent) simp
  with es show ?case
    by (intro exI [of _ "?ev # es"]) (auto simp: rb NewGrantRevokedEvent_def mk_event_def adminOpOf_def EventGrantRevoke_def EventAdminOp_def split: prod.split)
qed

lemma revoke_all_store [simp]: "gw_store (fst (revoke_all g now revs)) = gw_store g"
  by (induction revs arbitrary: g) (simp_all add: case_prod_beta)

lemma applyRevocations_state [simp]: "st_of (fst (applyRevocations g now)) = st_of g"
  by (simp add: applyRevocations_def DrainRevocations_def)

end
