(* ===== verification/Onboarding.thy ===== *)
theory Onboarding
  imports Gateway_Audit
begin

text \<open>
  The one-shot roles by which people and machines join: pairing with a PIN (\<open>pairing_role.go\<close>), the bootstrap claim of
  the first administrator (\<open>bootstrap_role.go\<close>) and the enrolment of a machine (\<open>enrol_role.go\<close>). The function a role
  passes to \<open>Store.Update\<close> is a function from the state to the draft and the verdict it carries out.
\<close>

section \<open>PINs\<close>

definition PairingWindowMissLimit :: int where "PairingWindowMissLimit = 10"

definition validPin :: "string \<Rightarrow> int \<Rightarrow> bool" where
  "validPin pin digits \<longleftrightarrow> int (length pin) = digits \<and> list_all is_digit pin"

definition pin_max :: "int \<Rightarrow> nat" where
  "pin_max digits = 10 ^ nat digits"

definition pin_limit :: "int \<Rightarrow> nat" where
  "pin_limit digits = (2 ^ 32 div pin_max digits) * pin_max digits"

definition pin_text :: "int \<Rightarrow> nat \<Rightarrow> string" where
  "pin_text digits n = (let s = FormatUint (n mod pin_max digits) in replicate (nat digits - length s) (CHR ''0'') @ s)"

text \<open>The draws of \<open>rand.Read\<close> in order, an error of it being \<open>None\<close>; more draws may be needed than are given.\<close>

datatype pin_result = PinOutOfRange | PinRandomError | PinNeedsDraws | Pin string

fun draw_pin :: "int \<Rightarrow> 32 word option list \<Rightarrow> pin_result" where
  "draw_pin digits [] = PinNeedsDraws"
| "draw_pin digits (None # draws) = PinRandomError"
| "draw_pin digits (Some n # draws) = (if unat n < pin_limit digits then Pin (pin_text digits (unat n)) else draw_pin digits draws)"

definition GeneratePin :: "int \<Rightarrow> 32 word option list \<Rightarrow> pin_result" where
  "GeneratePin digits draws = (if digits < 1 \<or> digits > 9 then PinOutOfRange else draw_pin digits draws)"

section \<open>Pairing\<close>

record pairing_request =
  pq_Proto :: int
  pq_Pin :: string
  pq_Pubkey :: string
  pq_Name :: string

definition errPairingExecUnknown :: cmdError where "errPairingExecUnknown = errf ''E_EXEC_UNKNOWN'' 2"
definition errPairingProtocol :: cmdError where "errPairingProtocol = errf ''E_JSON_INVALID'' 3"
definition errPairingPinInvalid :: cmdError where "errPairingPinInvalid = errf ''E_PAIRING_PIN_INVALID'' 2"
definition errPairingInactive :: cmdError where "errPairingInactive = errf ''E_PAIRING_INACTIVE'' 2"
definition errPairingStaleWindow :: cmdError where "errPairingStaleWindow = errf ''E_PAIRING_INACTIVE'' 2"
definition errPairingWindowBurned :: cmdError where "errPairingWindowBurned = errf ''E_PAIRING_INACTIVE'' 2"
definition errPairingExpired :: cmdError where "errPairingExpired = errf ''E_PAIRING_EXPIRED'' 2"
definition errPairingLocked :: cmdError where "errPairingLocked = errf ''E_PAIRING_LOCKED'' 2"
definition errPairingConflict :: cmdError where "errPairingConflict = errf ''E_CONFLICT'' 2"
definition errPairingInternal :: cmdError where "errPairingInternal = errf ''E_INTERNAL'' 70"

definition pairingWindowBindingHex :: "pairing_pending option \<Rightarrow> string" where
  "pairingWindowBindingHex pp = (case pp of None \<Rightarrow> '''' | Some pp \<Rightarrow> hex_encode (pp_SecretHash pp))"

definition pairingBindingStale :: "string \<Rightarrow> string \<Rightarrow> bool" where
  "pairingBindingStale binding now_open = (if binding = '''' then False else binding \<noteq> now_open)"

definition pairingWindowMissLocked :: "pairing_pending \<Rightarrow> pairing_pending \<times> int \<times> bool" where
  "pairingWindowMissLocked pp =
    (let pp = pp\<lparr>pp_Misses := pp_Misses pp + 1\<rparr> in (pp, pp_Misses pp, pp_Misses pp \<ge> PairingWindowMissLimit))"

definition personNameOccupied :: "gw_state \<Rightarrow> string \<Rightarrow> bool" where
  "personNameOccupied st name = list_ex (\<lambda>p. pe_Name p = name) (gs_People st)"

definition admin_n :: "nat \<Rightarrow> string" where
  "admin_n n = ''admin'' @ FormatUint n"

lemma admin_n_inj: "inj admin_n"
  by (rule inj_onI) (metis FormatUint_digits admin_n_def append_same_eq append_eq_append_conv)

text \<open>The loop over admin2, admin3, ...; it ends because the names taken are finitely many.\<close>

definition taken_from :: "gw_state \<Rightarrow> nat \<Rightarrow> nat set" where
  "taken_from st n = {k. n \<le> k \<and> personNameOccupied st (admin_n k)}"

lemma finite_taken: "finite (taken_from st n)"
proof -
  have "admin_n ` taken_from st n \<subseteq> pe_Name ` set (gs_People st)"
    by (force simp: taken_from_def personNameOccupied_def list_ex_iff)
  then show ?thesis by (rule finite_subset [THEN finite_imageD]) (auto intro: inj_on_subset [OF admin_n_inj])
qed

function free_admin :: "gw_state \<Rightarrow> nat \<Rightarrow> string" where
  "free_admin st n = (if \<not> personNameOccupied st (admin_n n) then admin_n n else free_admin st (n + 1))"
  by pat_completeness auto
termination
proof (relation "measure (\<lambda>(st, n). card (taken_from st n))")
  fix st n assume "\<not> \<not> personNameOccupied st (admin_n n)"
  then have "n \<in> taken_from st n" "taken_from st (n + 1) = taken_from st n - {n}" by (auto simp: taken_from_def)
  then show "((st, n + 1), st, n) \<in> measure (\<lambda>(st, n). card (taken_from st n))"
    using card_Diff1_less [OF finite_taken, of n st n] by simp
qed simp

declare free_admin.simps [simp del]

definition pairingPersonName :: "gw_state \<Rightarrow> string \<Rightarrow> cmdError + string" where
  "pairingPersonName st requested =
    (let fallback = (if \<not> personNameOccupied st ''admin'' then Inr ''admin'' else Inr (free_admin st 2))
     in if requested \<noteq> '''' then
          if ValidateName requested \<noteq> None then Inl (errf ''E_JSON_INVALID'' 3)
          else if requested \<in> set reservedPersonNames then Inl (errf ''E_JSON_INVALID'' 3)
          else if \<not> personNameOccupied st requested then Inr requested
          else fallback
        else fallback)"

definition key_registered :: "gw_state \<Rightarrow> string \<Rightarrow> bool" where
  "key_registered st fp = list_ex (\<lambda>p. list_ex (\<lambda>k. ky_Fingerprint k = fp) (pe_Keys p)) (gs_People st)"

definition new_admin :: "string \<Rightarrow> string \<Rightarrow> string \<Rightarrow> instant \<Rightarrow> person" where
  "new_admin name fp pub now = \<lparr>pe_Name = name, pe_Role = ''admin'',
     pe_Keys = [\<lparr>ky_Fingerprint = fp, ky_Pub = pub, ky_Added = now\<rparr>]\<rparr>"

text \<open>What the grading transaction finds: a refusal, a wrong PIN (misses so far, burned), or the person and key admitted.\<close>

datatype pair_verdict = PairRefused cmdError | PairWrong int bool | PairDone string string

definition window_refusal :: "string \<Rightarrow> instant \<Rightarrow> pairing_pending option \<Rightarrow> cmdError option" where
  "window_refusal binding now w = (case w of
     None \<Rightarrow> Some errPairingInactive
   | Some pp \<Rightarrow> if \<not> pp_Expires pp > now then Some errPairingExpired
       else if pairingBindingStale binding (pairingWindowBindingHex w) then Some errPairingStaleWindow else None)"

definition count_miss :: "gw_state \<Rightarrow> gw_state \<times> int \<times> bool" where
  "count_miss st = (case gs_PairingPending st of
     None \<Rightarrow> (st, 0, False)
   | Some pp \<Rightarrow> (case pairingWindowMissLocked pp of (pp', misses, burned) \<Rightarrow>
       (st\<lparr>gs_PairingPending := (if burned then None else Some pp')\<rparr>, misses, burned)))"

definition admit_paired :: "gw_state \<Rightarrow> pairing_request \<Rightarrow> instant \<Rightarrow> gw_state \<times> pair_verdict" where
  "admit_paired st req now =
    (if ValidateKeyMaterial (pq_Pubkey req) \<noteq> None then (st, PairRefused errPairingProtocol)
     else case ComputeFingerprint (pq_Pubkey req) of
       Inl _ \<Rightarrow> (st, PairRefused errPairingProtocol)
     | Inr fp \<Rightarrow>
        if key_registered st fp then (st, PairRefused errPairingConflict)
        else case pairingPersonName st (pq_Name req) of
          Inl err \<Rightarrow> (st, PairRefused err)
        | Inr name \<Rightarrow> (st\<lparr>gs_People := gs_People st @ [new_admin name fp (pq_Pubkey req) now], gs_PairingPending := None\<rparr>,
            PairDone name fp))"

definition grade_pin :: "gw_state \<Rightarrow> pairing_request \<Rightarrow> byte list \<Rightarrow> string \<Rightarrow> instant \<Rightarrow> gw_state \<times> pair_verdict" where
  "grade_pin st req presented binding now =
    (case window_refusal binding now (gs_PairingPending st) of
       Some err \<Rightarrow> (st, PairRefused err)
     | None \<Rightarrow>
        if pp_SecretHash (the (gs_PairingPending st)) \<noteq> presented
        then (case count_miss st of (st', misses, burned) \<Rightarrow> (st', PairWrong misses burned))
        else admit_paired st req now)"

definition countPairingMiss :: "gw_state \<Rightarrow> string \<Rightarrow> instant \<Rightarrow> gw_state \<times> pair_verdict" where
  "countPairingMiss st binding now =
    (case window_refusal binding now (gs_PairingPending st) of
       Some err \<Rightarrow> (st, PairRefused err)
     | None \<Rightarrow> (case count_miss st of (st', misses, burned) \<Rightarrow> (st', PairWrong misses burned)))"

definition burnPairingWindowEvent :: "gateway \<Rightarrow> int \<Rightarrow> gateway" where
  "burnPairingWindowEvent g misses = logAdminOp g ''pairing'' ''pairing.burn'' ''pairing'' ''ok''
     [(''misses'', d_int misses), (''limit'', d_int PairingWindowMissLimit)]"

definition rate_exceeded :: "gw_config \<Rightarrow> gateway \<Rightarrow> rate_event \<Rightarrow> gateway" where
  "rate_exceeded c g ev = (case ev of RateExceeded addr fp until \<Rightarrow>
     if fp = '''' then g
     else appendEvent g ((mk_event EventAuthFailure addr addr (''rate limited until '' @ cf_fmt c until) [])
            \<lparr>ev_Address := addr, ev_Fingerprint := fp\<rparr>))"

definition bill_address :: "gw_config \<Rightarrow> gateway \<Rightarrow> string \<Rightarrow> string \<Rightarrow> instant \<Rightarrow> gateway" where
  "bill_address c g addr fp now = (case RecordFailure (gw_pairRate g) addr fp False now of (l, _, evs) \<Rightarrow>
     foldl (rate_exceeded c) (g\<lparr>gw_pairRate := l\<rparr>) evs)"

definition answer_pairing ::
  "gw_config \<Rightarrow> gateway \<Rightarrow> (unit, pair_verdict) txn \<Rightarrow> string \<Rightarrow> string \<Rightarrow> instant \<Rightarrow> gateway \<times> (cmdError + string) option" where
  "answer_pairing c g r addr fp now = (case r of
     TxDone (PairRefused err) \<Rightarrow> (g, Some (Inl err))
   | TxDone (PairWrong misses burned) \<Rightarrow>
       (let g = bill_address c g addr fp now
        in if burned then (burnPairingWindowEvent g misses, Some (Inl errPairingWindowBurned))
           else (g, Some (Inl errPairingPinInvalid)))
   | TxDone (PairDone name keyFP) \<Rightarrow>
       (logAdminOp g ''pairing'' ''admin.pair'' name ''ok'' [(''fingerprint'', keyFP)], Some (Inr name))
   | _ \<Rightarrow> (g, Some (Inl errPairingInternal)))"

definition peerHost :: "gw_config \<Rightarrow> string \<Rightarrow> string" where
  "peerHost c addr =
    (let host = (case cf_SplitHostPort c addr of None \<Rightarrow> addr | Some h \<Rightarrow> h)
     in case cf_ParseAddr c host of
          None \<Rightarrow> host
        | Some (IPv4 txt) \<Rightarrow> txt
        | Some (IPv6 txt prefix) \<Rightarrow> (case prefix of None \<Rightarrow> txt | Some p \<Rightarrow> p))"

definition runPairing ::
  "gw_config \<Rightarrow> store_in \<Rightarrow> json_fault + pairing_request \<Rightarrow> string \<Rightarrow> string \<Rightarrow> string \<Rightarrow> instant \<Rightarrow> gateway \<Rightarrow>
     gateway \<times> (cmdError + string) option" where
  "runPairing c i body peer fp binding now g =
    (let addr = peerHost c peer in
     case decodeStrict body of
       Inl err \<Rightarrow> (g, Some (Inl err))
     | Inr req \<Rightarrow>
      (case checkProto (pq_Proto req) of
         Some err \<Rightarrow> (g, Some (Inl err))
       | None \<Rightarrow>
        (case Allow (gw_pairRate g) addr fp now of (l, d) \<Rightarrow>
          (let g = g\<lparr>gw_pairRate := l\<rparr> in
           if \<not> Allowed d then (g, Some (Inl errPairingLocked))
           else case window_refusal binding now (gs_PairingPending (so_state (gw_store g))) of
             Some err \<Rightarrow> (g, Some (Inl err))
           | None \<Rightarrow>
              if \<not> validPin (pq_Pin req) (cf_PINDigits c)
              then (case gw_txn c i (\<lambda>st. Inr (countPairingMiss st binding now)) g of (g', r) \<Rightarrow>
                      answer_pairing c g' r addr fp now)
              else (case HashEnrolSecret (gw_enrolHMAC g) (bytes_of (pq_Pin req)) of
                  None \<Rightarrow> (g, None)
                | Some presented \<Rightarrow>
                   (case gw_txn c i (\<lambda>st. Inr (grade_pin st req presented binding now)) g of (g', r) \<Rightarrow>
                      answer_pairing c g' r addr fp now))))))"

text \<open>The request boundary: a panic of the run is journaled and answered.\<close>

definition servePairing ::
  "gw_config \<Rightarrow> store_in \<Rightarrow> (byte list \<Rightarrow> json_fault + pairing_request) \<Rightarrow> exec_in \<Rightarrow> string \<Rightarrow> string \<Rightarrow> string \<Rightarrow>
     gateway \<Rightarrow> gateway \<times> (cmdError + string)" where
  "servePairing c i dec x peer fp binding g =
    (case exec_gate ''admin.pair'' errPairingExecUnknown errPairingProtocol x of Inl err \<Rightarrow> (g, Inl err) | Inr body \<Rightarrow>
     case runAuditedRole g ''pairing'' (runPairing c i (dec body) peer fp binding (gw_now g)) of
       (g', Some answer) \<Rightarrow> (g', answer)
     | (g', None) \<Rightarrow> (appendEvent g' (mk_event EventAdminOp ''pairing'' ''admin.pair'' ''pairing:panic''
          [(''reason'', ''panic''), (''errCode'', ''E_INTERNAL'')]), Inl errPairingInternal))"

text \<open>No answer also stands for a draw of the PIN that is still waiting for an acceptable number.\<close>

record proto_request =
  qr_Proto :: int

definition cmdAdminPairingStart ::
  "gw_config \<Rightarrow> store_in \<Rightarrow> 32 word option list \<Rightarrow> string \<Rightarrow> instant \<Rightarrow> json_fault + proto_request \<Rightarrow> gateway \<Rightarrow>
     gateway \<times> (cmdError + string \<times> instant) option" where
  "cmdAdminPairingStart c i draws person now body g = (case decodeStrict body of
     Inl err \<Rightarrow> (g, Some (Inl err))
   | Inr req \<Rightarrow> (case checkProto (qr_Proto req) of
       Some err \<Rightarrow> (g, Some (Inl err))
     | None \<Rightarrow> (case GeneratePin (cf_PINDigits c) draws of
         Pin pin \<Rightarrow>
           (case HashEnrolSecret (gw_enrolHMAC g) (bytes_of pin) of
              None \<Rightarrow> (g, None)
            | Some hash \<Rightarrow>
               (let expires = now + cf_WindowTTL c in
                case gw_txn c i (\<lambda>st. Inr (st\<lparr>gs_PairingPending :=
                       Some \<lparr>pp_SecretHash = hash, pp_Expires = expires, pp_Misses = 0\<rparr>\<rparr>, ()) :: unit + gw_state \<times> unit) g of
                  (g', TxDone _) \<Rightarrow>
                    (logAdminOp g' person ''pairing.start'' ''pairing'' ''ok'' [(''expires'', cf_fmt c expires)], Some (Inr (pin, expires)))
                | (g', _) \<Rightarrow> (g', Some (Inl (errf ''E_INTERNAL'' 70)))))
       | PinNeedsDraws \<Rightarrow> (g, None)
       | _ \<Rightarrow> (g, Some (Inl (errf ''E_INTERNAL'' 70))))))"

definition cmdAdminPairingStop ::
  "gw_config \<Rightarrow> store_in \<Rightarrow> string \<Rightarrow> json_fault + proto_request \<Rightarrow> gateway \<Rightarrow> gateway \<times> (cmdError + bool) option" where
  "cmdAdminPairingStop c i person body g = (case decodeStrict body of
     Inl err \<Rightarrow> (g, Some (Inl err))
   | Inr req \<Rightarrow> (case checkProto (qr_Proto req) of
       Some err \<Rightarrow> (g, Some (Inl err))
     | None \<Rightarrow>
        (case gw_txn c i (\<lambda>st. Inr (st\<lparr>gs_PairingPending := None\<rparr>, gs_PairingPending st \<noteq> None) :: unit + gw_state \<times> bool) g of
           (g', TxDone stopped) \<Rightarrow>
             (logAdminOp g' person ''pairing.stop'' ''pairing'' ''ok'' [(''stopped'', d_bool stopped)], Some (Inr stopped))
         | (g', _) \<Rightarrow> (g', Some (Inl (errf ''E_INTERNAL'' 70))))))"


section \<open>The bootstrap claim\<close>

record bootstrap_request =
  bq_Proto :: int
  bq_Bootstrap :: string
  bq_Pubkey :: string

definition errBootstrapExecUnknown :: cmdError where "errBootstrapExecUnknown = errf ''E_EXEC_UNKNOWN'' 2"
definition errBootstrapProtocol :: cmdError where "errBootstrapProtocol = errf ''E_CONTROL_PROTOCOL'' 5"
definition errBootstrapUsed :: cmdError where "errBootstrapUsed = errf ''E_BOOTSTRAP_USED'' 2"
definition errBootstrapExpired :: cmdError where "errBootstrapExpired = errf ''E_BOOTSTRAP_EXPIRED'' 2"
definition errBootstrapInternal :: cmdError where "errBootstrapInternal = errf ''E_INTERNAL'' 70"

definition name_byte :: "char \<Rightarrow> bool" where
  "name_byte ch \<longleftrightarrow> in_range (CHR ''a'') (CHR ''z'') ch \<or> is_digit ch \<or> ch \<in> set ''._-''"

definition personNameFromFingerprint :: "string \<Rightarrow> string" where
  "personNameFromFingerprint fp = ''a'' @ filter name_byte (take 24 (TrimPrefix fp ''SHA256:''))"

definition firstAdminName :: "gw_state \<Rightarrow> string \<Rightarrow> string" where
  "firstAdminName st fp = (if list_ex (\<lambda>p. pe_Name p = ''admin'') (gs_People st) then personNameFromFingerprint fp else ''admin'')"

definition claim_bootstrap ::
  "gw_state \<Rightarrow> bootstrap_request \<Rightarrow> byte list \<Rightarrow> instant \<Rightarrow> gw_state \<times> (cmdError + string)" where
  "claim_bootstrap st req presented now =
    (if HasAnyAdmin st then (st, Inl errBootstrapUsed)
     else case gs_BootstrapPending st of
       None \<Rightarrow> (st, Inl errBootstrapUsed)
     | Some bp \<Rightarrow>
        if \<not> bp_Expires bp > now then (st, Inl errBootstrapExpired)
        else if bp_SecretHash bp \<noteq> presented then (st, Inl errBootstrapUsed)
        else case ComputeFingerprint (bq_Pubkey req) of
          Inl _ \<Rightarrow> (st, Inl errBootstrapProtocol)
        | Inr fp \<Rightarrow>
           (let name = firstAdminName st fp
            in (st\<lparr>gs_People := gs_People st @ [new_admin name fp (bq_Pubkey req) now], gs_BootstrapPending := None\<rparr>, Inr name)))"

definition bootstrap_kind :: "cmdError \<Rightarrow> string" where
  "bootstrap_kind err = (if ce_code err = ''E_BOOTSTRAP_USED'' then ''replay''
     else if ce_code err = ''E_BOOTSTRAP_EXPIRED'' then ''expired'' else ''other'')"

definition runBootstrap ::
  "gw_config \<Rightarrow> store_in \<Rightarrow> json_fault + bootstrap_request \<Rightarrow> instant \<Rightarrow> gateway \<Rightarrow> gateway \<times> (cmdError + string) option" where
  "runBootstrap c i body now g = (case body of
     Inl _ \<Rightarrow> (g, Some (Inl errBootstrapProtocol))
   | Inr req \<Rightarrow>
      if bq_Proto req < 1 then (g, Some (Inl (errf ''E_PROTO_GATEWAY_NEWER'' 4)))
      else if bq_Proto req > 1 then (g, Some (Inl (errf ''E_PROTO_CLIENT_NEWER'' 4)))
      else if bq_Bootstrap req = '''' then (g, Some (Inl errBootstrapUsed))
      else if bq_Pubkey req = '''' then (g, Some (Inl errBootstrapUsed))
      else if ValidateKeyMaterial (bq_Pubkey req) \<noteq> None then (g, Some (Inl errBootstrapProtocol))
      else case HashEnrolSecret (gw_enrolHMAC g) (bytes_of (bq_Bootstrap req)) of
        None \<Rightarrow> (g, None)
      | Some presented \<Rightarrow>
         (case gw_txn c i (\<lambda>st. Inr (claim_bootstrap st req presented now) :: unit + gw_state \<times> (cmdError + string)) g of
            (g', TxDone (Inl err)) \<Rightarrow>
              (appendEvent g' (mk_event EventAdminOp ''bootstrap'' ''admin.claim'' (''bootstrap:'' @ bootstrap_kind err)
                 [(''reason'', bootstrap_kind err), (''errCode'', ce_code err)]), Some (Inl err))
          | (g', TxDone (Inr name)) \<Rightarrow>
              (appendEvent g' (mk_event EventAdminOp ''bootstrap'' ''admin.claim'' ''bootstrap:ok'' [(''person'', name)]), Some (Inr name))
          | (g', _) \<Rightarrow> (g', Some (Inl errBootstrapInternal))))"

definition serveBootstrap ::
  "gw_config \<Rightarrow> store_in \<Rightarrow> (byte list \<Rightarrow> json_fault + bootstrap_request) \<Rightarrow> exec_in \<Rightarrow> gateway \<Rightarrow>
     gateway \<times> (cmdError + string)" where
  "serveBootstrap c i dec x g =
    (case exec_gate ''admin.claim'' errBootstrapExecUnknown errBootstrapProtocol x of Inl err \<Rightarrow> (g, Inl err) | Inr body \<Rightarrow>
     case runAuditedRole g ''bootstrap'' (runBootstrap c i (dec body) (gw_now g)) of
       (g', Some answer) \<Rightarrow> (g', answer)
     | (g', None) \<Rightarrow> (appendEvent g' (mk_event EventAdminOp ''bootstrap'' ''admin.claim'' ''bootstrap:panic''
          [(''reason'', ''panic''), (''errCode'', ''E_INTERNAL'')]), Inl errBootstrapInternal))"

section \<open>Enrolment\<close>

record enrol_request =
  eq_Proto :: int
  eq_Secret :: string
  eq_Machine :: string
  eq_OSUser :: string
  eq_MachineKey :: string

definition errEnrolExecUnknown :: cmdError where "errEnrolExecUnknown = errf ''E_EXEC_UNKNOWN'' 2"
definition errEnrolProtocol :: cmdError where "errEnrolProtocol = errf ''E_CONTROL_PROTOCOL'' 5"
definition errEnrolSecretInvalid :: cmdError where "errEnrolSecretInvalid = errf ''E_ENROL_SECRET_INVALID'' 2"
definition errEnrolSecretExpired :: cmdError where "errEnrolSecretExpired = errf ''E_ENROL_SECRET_EXPIRED'' 2"
definition errEnrolSecretUsed :: cmdError where "errEnrolSecretUsed = errf ''E_ENROL_SECRET_USED'' 2"
definition errEnrolInternal :: cmdError where "errEnrolInternal = errf ''E_INTERNAL'' 70"

fun removePendingByHash :: "pending_enrolment list \<Rightarrow> byte list \<Rightarrow> pending_enrolment list" where
  "removePendingByHash [] hash = []"
| "removePendingByHash (e # es) hash = (if pd_SecretHash e = hash then es else e # removePendingByHash es hash)"

definition validEnrolMachineName :: "string \<Rightarrow> bool" where
  "validEnrolMachineName s = (if s = '''' then False else if s \<in> set reservedPersonNames then False else ValidateName s = None)"

definition validEnrolOSUser :: "string \<Rightarrow> bool" where
  "validEnrolOSUser s = (if s = '''' then False else ValidateOSUser s = None)"

definition clipForJournalCap :: nat where "clipForJournalCap = 64"

definition clipForJournal :: "string \<Rightarrow> string" where
  "clipForJournal s = clipForJournalTo s clipForJournalCap"

definition enrolled_machine :: "string \<Rightarrow> string \<Rightarrow> string \<Rightarrow> machine_rec" where
  "enrolled_machine name key osUser = \<lparr>mc_ID = name, mc_Name = name, mc_State = ''enrolled'', mc_MachineKey = key,
     mc_SSHDHostKey = None, mc_ObservedSSHDHostKey = None, mc_HostKeyStatus = '''', mc_RequestedOSUser = osUser,
     mc_VerifiedOSUser = None, mc_OSUserStatus = OSUserStatusPending, mc_OSUser = osUser, mc_Door = None, mc_EnrolPending = None\<rparr>"

text \<open>The verdict carries the machine name for the journal beside the refusal.\<close>

definition runEnrolFromPending ::
  "gw_state \<Rightarrow> string \<Rightarrow> enrol_request \<Rightarrow> byte list \<Rightarrow> instant \<Rightarrow> gw_state \<times> string \<times> cmdError option" where
  "runEnrolFromPending st actor req presented now = (case FindPendingEnrolmentBySecretHash st presented of
     None \<Rightarrow>
       if FindPendingEnrolmentByFingerprint st actor \<noteq> None then (st, '''', Some errEnrolSecretInvalid)
       else (st, '''', Some errEnrolSecretUsed)
   | Some pe \<Rightarrow>
      if \<not> pd_Expires pe > now then (st, '''', Some errEnrolSecretExpired)
      else
       (let name = pd_Name pe; refuse = (st, name, Some errEnrolSecretInvalid) in
        if \<not> validEnrolMachineName name then refuse
        else if eq_Machine req \<noteq> '''' \<and> eq_Machine req \<noteq> name then refuse
        else if \<not> validEnrolOSUser (eq_OSUser req) then refuse
        else if list_ex (\<lambda>m. mc_ID m = name \<or> mc_Name m = name) (gs_Machines st) then refuse
        else (st\<lparr>gs_Machines := gs_Machines st @ [enrolled_machine name (eq_MachineKey req) (eq_OSUser req)],
                 gs_PendingEnrolments := removePendingByHash (gs_PendingEnrolments st) presented\<rparr>, name, None)))"

definition enrol_kind :: "cmdError \<Rightarrow> string" where
  "enrol_kind err = (if ce_code err = ''E_ENROL_SECRET_USED'' then ''replay''
     else if ce_code err = ''E_ENROL_SECRET_EXPIRED'' then ''expired''
     else if ce_code err = ''E_ENROL_SECRET_INVALID'' then ''invalid'' else ''other'')"

definition runEnrol ::
  "gw_config \<Rightarrow> store_in \<Rightarrow> string \<Rightarrow> json_fault + enrol_request \<Rightarrow> instant \<Rightarrow> gateway \<Rightarrow> gateway \<times> (cmdError + string) option" where
  "runEnrol c i actor body now g = (case body of
     Inl _ \<Rightarrow> (g, Some (Inl errEnrolProtocol))
   | Inr req \<Rightarrow>
      if eq_Proto req < 1 then (g, Some (Inl (errf ''E_PROTO_GATEWAY_NEWER'' 4)))
      else if eq_Proto req > 1 then (g, Some (Inl (errf ''E_PROTO_CLIENT_NEWER'' 4)))
      else if eq_Secret req = '''' then (g, Some (Inl errEnrolSecretInvalid))
      else if eq_MachineKey req = '''' then (g, Some (Inl errEnrolSecretInvalid))
      else if ValidateKeyMaterial (eq_MachineKey req) \<noteq> None then (g, Some (Inl errEnrolProtocol))
      else case HashEnrolSecret (gw_enrolHMAC g) (bytes_of (eq_Secret req)) of
        None \<Rightarrow> (g, None)
      | Some presented \<Rightarrow>
         (case gw_txn c i (\<lambda>st. Inr (runEnrolFromPending st actor req presented now) :: unit + gw_state \<times> string \<times> cmdError option) g of
            (g', TxDone (machine, err)) \<Rightarrow>
              (let g' = fst (applyRevocations g' now) in
               case err of
                 Some err \<Rightarrow>
                   (appendEvent g' (mk_event EventEnrolFailed actor (clipForJournal machine) (enrol_kind err)
                      [(''reason'', enrol_kind err), (''errCode'', ce_code err)]), Some (Inl err))
               | None \<Rightarrow> (appendEvent g' (mk_event EventEnrolVerified actor machine ''enrolled'' [(''machine'', machine)]), Some (Inr machine)))
          | (g', _) \<Rightarrow> (g', Some (Inl errEnrolInternal))))"

definition serveEnrol ::
  "gw_config \<Rightarrow> store_in \<Rightarrow> string \<Rightarrow> (byte list \<Rightarrow> json_fault + enrol_request) \<Rightarrow> exec_in \<Rightarrow> gateway \<Rightarrow>
     gateway \<times> (cmdError + string)" where
  "serveEnrol c i actor dec x g =
    (case exec_gate ''enrol'' errEnrolExecUnknown errEnrolProtocol x of Inl err \<Rightarrow> (g, Inl err) | Inr body \<Rightarrow>
     case runAuditedRole g actor (runEnrol c i actor (dec body) (gw_now g)) of
       (g', Some answer) \<Rightarrow> (g', answer)
     | (g', None) \<Rightarrow> (appendEvent g' (mk_event EventEnrolFailed actor '''' ''panic''
          [(''reason'', ''panic''), (''errCode'', ''E_INTERNAL'')]), Inl errEnrolInternal))"

end
