(* ===== verification/Pairing_Pin.thy ===== *)
theory Pairing_Pin
  imports Onboarding
begin

text \<open>
  The PIN of a pairing window (\<open>GeneratePin\<close> in \<open>pairing_role.go\<close>): rejection sampling over 32-bit draws ends on
  the first acceptable draw, more than half of all draws are acceptable, and every PIN is equally likely.
\<close>

lemma digits_value_snoc: "digits_value (s @ [c]) = 10 * digits_value s + digit_val c"
  by (simp add: digits_value_def)

lemma digits_value_pad: "digits_value (replicate k (CHR ''0'') @ s) = digits_value s"
proof -
  have z: "digit_val (CHR ''0'') = 0" by (simp add: digit_val_def)
  have "foldl (\<lambda>a c. 10 * a + digit_val c) 0 (replicate k (CHR ''0'')) = 0" by (induction k) (simp_all add: z)
  then show ?thesis by (simp add: digits_value_def)
qed

lemma digit_val_facts:
  assumes "is_digit c"
  shows "digit_val c < 10" "digit_char (digit_val c) = c"
proof -
  have "48 \<le> (of_char c :: nat)" "(of_char c :: nat) \<le> 57"
    using assms by (simp_all add: is_digit_def less_eq_char_def)
  then show "digit_val c < 10" by (simp add: digit_val_def)
  have "48 + digit_val c = of_char c" using \<open>48 \<le> of_char c\<close> unfolding digit_val_def by (rule le_add_diff_inverse)
  then show "digit_char (digit_val c) = c" unfolding digit_char_def by (simp only: char_of_char)
qed

lemma digits_step:
  assumes "is_digit c" "is_digit c'" "10 * m + digit_val c = 10 * n + digit_val c'"
  shows "c = c'" "m = n"
proof -
  have "10 * m + x = 10 * n + y \<Longrightarrow> x < 10 \<Longrightarrow> y < 10 \<Longrightarrow> x = y \<and> m = n" for x y by presburger
  from this [OF assms(3) digit_val_facts(1) [OF assms(1)] digit_val_facts(1) [OF assms(2)]]
  show "c = c'" "m = n" using digit_val_facts(2) [OF assms(1)] digit_val_facts(2) [OF assms(2)] by metis+
qed

lemma digits_value_inj:
  "length s = length t \<Longrightarrow> list_all is_digit s \<Longrightarrow> list_all is_digit t \<Longrightarrow> digits_value s = digits_value t \<Longrightarrow> s = t"
proof (induction s arbitrary: t rule: rev_induct)
  case (snoc c s)
  from snoc.prems(1) obtain t' c' where t: "t = t' @ [c']" by (cases t rule: rev_cases) auto
  have d: "is_digit c" "is_digit c'" "10 * digits_value s + digit_val c = 10 * digits_value t' + digit_val c'"
    using snoc.prems(2-4) unfolding t digits_value_snoc by simp_all
  have "s = t'" using digits_step(2) [OF d] snoc.prems(1-3) unfolding t by (intro snoc.IH) simp_all
  with digits_step(1) [OF d] show ?case by (simp add: t)
qed simp

lemma digits_value_bound: "list_all is_digit s \<Longrightarrow> digits_value s < 10 ^ length s"
proof (induction s rule: rev_induct)
  case (snoc c s)
  then show ?case using digit_val_facts(1) [of c] by (simp add: digits_value_snoc)
qed (simp add: digits_value_def)

lemma length_FormatUint: "n < 10 ^ k \<Longrightarrow> 0 < k \<Longrightarrow> length (FormatUint n) \<le> k"
proof (induction n arbitrary: k rule: FormatUint.induct)
  case (1 n)
  show ?case
  proof (cases "n < 10")
    case False
    then obtain j where j: "k = Suc j" "0 < j" using 1(2,3) by (cases k; cases "k - 1") auto
    then have "n div 10 < 10 ^ j" using 1(2) by (simp add: less_mult_imp_div_less mult.commute)
    with 1(1) [OF False, of j] j False show ?thesis by (subst FormatUint.simps) simp
  qed (use 1 in \<open>simp add: FormatUint.simps\<close>)
qed

lemma pin_text_shape:
  assumes "1 \<le> digits"
  shows "validPin (pin_text digits n) digits" "digits_value (pin_text digits n) = n mod pin_max digits"
proof -
  let ?s = "FormatUint (n mod pin_max digits)"
  have "length ?s \<le> nat digits" using assms by (intro length_FormatUint) (simp_all add: pin_max_def)
  moreover have "list_all is_digit (replicate k (CHR ''0''))" for k by (simp add: list_all_iff is_digit_def)
  ultimately show "validPin (pin_text digits n) digits"
    using assms FormatUint_digits [of "n mod pin_max digits"] by (simp add: validPin_def pin_text_def Let_def)
  show "digits_value (pin_text digits n) = n mod pin_max digits"
    by (simp add: pin_text_def Let_def digits_value_pad FormatUint_digits)
qed

lemma pin_text_eq:
  assumes "1 \<le> digits" "validPin p digits"
  shows "pin_text digits n = p \<longleftrightarrow> n mod pin_max digits = digits_value p"
  using pin_text_shape [OF assms(1), of n] assms(2) digits_value_inj [of "pin_text digits n" p]
  by (auto simp: validPin_def)

text \<open>The acceptable draws with a given remainder, counted.\<close>

lemma draws_with_remainder:
  fixes M k q :: nat
  assumes "q * M \<le> 2 ^ 32" "k < M"
  shows "card {w :: 32 word. unat w < q * M \<and> unat w mod M = k} = q"
proof -
  let ?f = "\<lambda>j. word_of_nat (j * M + k) :: 32 word"
  have small: "j * M + k < 2 ^ 32" if "j < q" for j
  proof -
    have "(j + 1) * M \<le> q * M" using that by (intro mult_le_mono1) simp
    with assms show ?thesis by simp
  qed
  have u: "unat (?f j) = j * M + k" if "j < q" for j using small [OF that] by (subst unat_of_nat) simp
  have "{w :: 32 word. unat w < q * M \<and> unat w mod M = k} = ?f ` {..<q}"
  proof (intro equalityI subsetI)
    fix w :: "32 word" assume w: "w \<in> {w. unat w < q * M \<and> unat w mod M = k}"
    then have "unat w div M < q" using assms(2) by (simp add: less_mult_imp_div_less)
    moreover have "w = ?f (unat w div M)"
      unfolding word_unat_eq_iff u [OF calculation] using w div_mult_mod_eq [of "unat w" M] by simp
    ultimately show "w \<in> ?f ` {..<q}" by blast
  next
    fix w assume "w \<in> ?f ` {..<q}"
    then obtain j where j: "j < q" "w = ?f j" by auto
    have "(j + 1) * M \<le> q * M" using j by (intro mult_le_mono1) simp
    with j u [OF j(1)] assms(2) show "w \<in> {w. unat w < q * M \<and> unat w mod M = k}" by simp
  qed
  moreover have "inj_on ?f {..<q}"
  proof (rule inj_onI)
    fix x y assume "x \<in> {..<q}" "y \<in> {..<q}" "?f x = ?f y"
    then have "x * M + k = y * M + k" using u [of x] u [of y] by (metis lessThan_iff)
    with assms(2) show "x = y" by simp
  qed
  ultimately show ?thesis by (simp add: card_image)
qed

lemma pin_limit_large:
  assumes "1 \<le> digits" "digits \<le> 9"
  shows "2 ^ 31 < pin_limit digits"
proof -
  have "pin_max digits \<le> 10 ^ 9" unfolding pin_max_def using assms by (intro power_increasing) simp_all
  moreover have "2 ^ 32 mod pin_max digits < pin_max digits" by (simp add: pin_max_def)
  ultimately have "2 ^ 32 mod pin_max digits < 10 ^ 9" by simp
  moreover have "pin_limit digits + 2 ^ 32 mod pin_max digits = 2 ^ 32" unfolding pin_limit_def by (rule div_mult_mod_eq)
  ultimately show ?thesis by simp
qed

lemma draw_pin_first:
  "list_all (\<lambda>d. \<exists>w. d = Some w \<and> \<not> unat w < pin_limit digits) pre \<Longrightarrow> unat n < pin_limit digits \<Longrightarrow>
   draw_pin digits (pre @ Some n # rest) = Pin (pin_text digits (unat n))"
  by (induction pre) auto

text \<open>
  C39. PINs are drawn evenly and the drawing ends. For one to nine digits, whatever is drawn is a PIN of that many digits;
  every such PIN comes from the same number of 32-bit draws; the loop returns on the first draw it does not reject,
  whatever was rejected before; and it rejects fewer than half of all draws.
\<close>

theorem pins_drawn_evenly:
  assumes "1 \<le> digits" "digits \<le> 9"
  shows "validPin (pin_text digits k) digits \<and>
    (validPin p digits \<longrightarrow>
      card {w :: 32 word. unat w < pin_limit digits \<and> pin_text digits (unat w) = p} = 2 ^ 32 div 10 ^ nat digits) \<and>
    (list_all (\<lambda>d. \<exists>w. d = Some w \<and> \<not> unat w < pin_limit digits) pre \<longrightarrow> unat n < pin_limit digits \<longrightarrow>
      GeneratePin digits (pre @ Some n # rest) = Pin (pin_text digits (unat n))) \<and>
    2 ^ 31 < pin_limit digits"
proof -
  have "card {w :: 32 word. unat w < pin_limit digits \<and> pin_text digits (unat w) = p} = 2 ^ 32 div 10 ^ nat digits"
    if "validPin p digits"
  proof -
    have "digits_value p < pin_max digits"
      using that digits_value_bound [of p] by (auto simp: validPin_def pin_max_def)
    moreover have "2 ^ 32 div pin_max digits * pin_max digits \<le> (2 :: nat) ^ 32" by (rule div_times_less_eq_dividend)
    ultimately show ?thesis
      using draws_with_remainder [of "2 ^ 32 div pin_max digits" "pin_max digits" "digits_value p"]
      by (simp add: pin_text_eq [OF assms(1) that] pin_limit_def pin_max_def)
  qed
  with pin_text_shape(1) [OF assms(1)] pin_limit_large [OF assms] show ?thesis
    using assms draw_pin_first [of digits pre n rest] by (simp add: GeneratePin_def)
qed

theorem pins_drawn_evenly_witness:
  "card {w :: 32 word. unat w < pin_limit 2 \<and> pin_text 2 (unat w) = ''07''} = 42949672 \<and>
   GeneratePin 2 [Some (- 1), Some 7] = Pin (pin_text 2 7)"
proof -
  have v: "validPin ''07'' 2" by (simp add: validPin_def is_digit_def less_eq_char_def)
  have l: "pin_limit 2 = 4294967200" by (simp add: pin_limit_def pin_max_def)
  have "list_all (\<lambda>d. \<exists>w :: 32 word. d = Some w \<and> \<not> unat w < pin_limit 2) [Some (- 1)]" by (simp add: l unsigned_minus_1_eq_mask mask_eq_exp_minus_1)
  moreover have "unat (7 :: 32 word) < pin_limit 2" by (simp add: l)
  ultimately show ?thesis
    using pins_drawn_evenly [of 2 0 "''07''" "[Some (- 1)]" 7 "[]"] v by simp
qed

end
