(* ===== verification/Admin.thy ===== *)
theory Admin
  imports Onboarding
begin

text \<open>
  The commands an administrator runs (\<open>admin_role.go\<close>) that change who may enter what: people and their keys, machines,
  grants, sessions and goals, with the command table, the dispatcher and the connections that end when a key is taken
  away (\<open>key_conns.go\<close>). A command decodes its body, checks it, runs one transaction on the store, carries the
  change to the access engine and writes its line.
\<close>

section \<open>Requests and answers\<close>

record people_add_request =
  pa_Proto :: int
  pa_Name :: string
  pa_Role :: string
  pa_Keys :: "string list"

record name_request =
  nr_Proto :: int
  nr_Name :: string

record rename_request =
  rr_Proto :: int
  rr_From :: string
  rr_To :: string

record person_key_request =
  kq_Proto :: int
  kq_Name :: string
  kq_Key :: string

record machine_request =
  mq_Proto :: int
  mq_ID :: string

record machine_value_request =
  mv_Proto :: int
  mv_ID :: string
  mv_Value :: string

record grant_request =
  gq_Proto :: int
  gq_Person :: string
  gq_Machine :: string
  gq_Until :: string
  gq_Caps :: "string list"

record pair_request =
  pr_Proto :: int
  pr_Person :: string
  pr_Machine :: string

record pair_caps_request =
  pc_Proto :: int
  pc_Person :: string
  pc_Machine :: string
  pc_Caps :: "string list"

record pair_text_request =
  px_Proto :: int
  px_Person :: string
  px_Machine :: string
  px_Text :: string

record session_request =
  sq_Proto :: int
  sq_ID :: string
  sq_Reason :: string

datatype answer =
    AnsPerson person | AnsRemoved string | AnsRenamed string string nat
  | AnsKeyAdded string key_rec | AnsKeyRemoved string string
  | AnsMachineNamed string string | AnsUserSet string string | AnsRekeyed string string string
  | AnsEnrolCode string instant
  | AnsGrant string string "instant option" "string list" | AnsRevoked nat
  | AnsCaps "string list" string nat | AnsExtended "instant option" "instant option" nat
  | AnsKilled string | AnsGoal goal_record | AnsPairing string instant | AnsStopped bool
  | AnsPeople "person list" | AnsGrants "grant_rec list" | AnsGoals "goal_record list"

type_synonym result = "gateway \<times> (cmdError + answer) option"

abbreviation answers :: "gateway \<Rightarrow> answer \<Rightarrow> result" where
  "answers g a \<equiv> (g, Some (Inr a))"

abbreviation refuses :: "gateway \<Rightarrow> string \<Rightarrow> int \<Rightarrow> result" where
  "refuses g code exit \<equiv> (g, Some (Inl (errf code exit)))"

definition with_request :: "gateway \<Rightarrow> json_fault + 'r \<Rightarrow> ('r \<Rightarrow> int) \<Rightarrow> ('r \<Rightarrow> result) \<Rightarrow> result" where
  "with_request g body proto k = (case decodeStrict body of
     Inl err \<Rightarrow> (g, Some (Inl err))
   | Inr req \<Rightarrow> (case checkProto (proto req) of Some err \<Rightarrow> (g, Some (Inl err)) | None \<Rightarrow> k req))"

section \<open>The engine beside the state\<close>

text \<open>
  The calls of the access engine. The state carries deadlines as instants; every command stores them in UTC, which is
  what the engine demands of a deadline it is given.
\<close>

definition gw_revoke :: "gateway \<Rightarrow> string \<Rightarrow> string \<Rightarrow> instant \<Rightarrow> DenyReason \<Rightarrow> gateway \<times> (acl_error + nat)" where
  "gw_revoke g person machine now cause = (case RevokeBecause (gw_aclE g) person machine now cause of (e, notes, r) \<Rightarrow>
     (g\<lparr>gw_aclE := e, gw_effects := gw_effects g @ map Notify notes\<rparr>, r))"

definition utc_grant :: "string \<Rightarrow> string \<Rightarrow> instant option \<Rightarrow> string list \<Rightarrow> grant" where
  "utc_grant person machine until caps = \<lparr>g_person = person, g_machine = machine,
     g_until = map_option (\<lambda>t. \<lparr>d_time = t, d_local = False\<rparr>) until, g_caps = caps, g_revokedAt = None\<rparr>"

definition gw_add_grant ::
  "gateway \<Rightarrow> string \<Rightarrow> string \<Rightarrow> instant option \<Rightarrow> string list \<Rightarrow> instant \<Rightarrow> gateway \<times> acl_error option" where
  "gw_add_grant g person machine until caps now =
    (case AddGrant (gw_aclE g) (utc_grant person machine until caps) now of (e, err) \<Rightarrow> (g\<lparr>gw_aclE := e\<rparr>, err))"

definition gw_kill :: "gateway \<Rightarrow> session_id \<Rightarrow> instant \<Rightarrow> DenyReason \<Rightarrow> gateway \<times> bool" where
  "gw_kill g i now cause = (case Kill (gw_aclE g) i now cause of (e, notes, alive) \<Rightarrow>
     (g\<lparr>gw_aclE := e, gw_effects := gw_effects g @ map Notify notes\<rparr>, alive))"

text \<open>A revocation that finds no grant killed nothing; any other error ends the command.\<close>

definition killed_by :: "acl_error + nat \<Rightarrow> cmdError + nat" where
  "killed_by r = (case r of
     Inr n \<Rightarrow> Inr n
   | Inl err \<Rightarrow> if err \<noteq> ErrNoGrant then Inl (errf ''E_INTERNAL'' 70) else Inr 0)"

section \<open>People\<close>

fun check_keys :: "gw_config \<Rightarrow> instant \<Rightarrow> string list \<Rightarrow> string list \<Rightarrow> key_rec list option" where
  "check_keys c now had [] = Some []"
| "check_keys c now had (line # lines) =
    (if \<not> CheckPublicKey (cf_ParseAuthorizedKey c) line then None
     else case ComputeFingerprint line of
       Inl _ \<Rightarrow> None
     | Inr fp \<Rightarrow>
        if fp \<in> set had then None
        else map_option (\<lambda>ks. \<lparr>ky_Fingerprint = fp, ky_Pub = line, ky_Added = now\<rparr> # ks) (check_keys c now (fp # had) lines))"

definition cmdPeopleAdd ::
  "gw_config \<Rightarrow> store_in \<Rightarrow> string \<Rightarrow> instant \<Rightarrow> json_fault + people_add_request \<Rightarrow> gateway \<Rightarrow> result" where
  "cmdPeopleAdd c i person now body g = with_request g body pa_Proto (\<lambda>req.
     if \<not> ValidName (pa_Name req) then refuses g ''E_JSON_INVALID'' 3
     else if pa_Name req \<in> set reservedPersonNames then refuses g ''E_PERSON_NAME_RESERVED'' 2
     else if pa_Role req \<noteq> ''user'' \<and> pa_Role req \<noteq> ''admin'' then refuses g ''E_JSON_INVALID'' 3
     else if pa_Keys req = [] then refuses g ''E_JSON_INVALID'' 3
     else case check_keys c now [] (pa_Keys req) of
       None \<Rightarrow> refuses g ''E_JSON_INVALID'' 3
     | Some keys \<Rightarrow>
        (let created = \<lparr>pe_Name = pa_Name req, pe_Role = pa_Role req, pe_Keys = keys\<rparr> in
         case gw_txn c i (\<lambda>st. if HasPerson st (pa_Name req) then Inl ()
                else Inr (st\<lparr>gs_People := gs_People st @ [created]\<rparr>, ())) g of
           (g', TxDone _) \<Rightarrow>
             answers (logAdminOp g' person ''people.add'' (pa_Name req) ''ok''
               [(''role'', pa_Role req), (''fingerprints'', d_list (map ky_Fingerprint keys))]) (AnsPerson created)
         | (g', _) \<Rightarrow> refuses g' ''E_CONFLICT'' 2))"

text \<open>The loop keeps the last person of that name, who is the only one.\<close>

definition del_last :: "('a \<Rightarrow> bool) \<Rightarrow> 'a list \<Rightarrow> 'a list" where
  "del_last P xs = rev (del_first P (rev xs))"

definition remove_person :: "string \<Rightarrow> gw_state \<Rightarrow> unit + gw_state \<times> bool" where
  "remove_person name st = (case find (\<lambda>p. pe_Name p = name) (rev (gs_People st)) of
     None \<Rightarrow> Inr (st, False)
   | Some victim \<Rightarrow>
      if pe_Role victim = ''admin'' \<and> length (filter (\<lambda>p. pe_Role p = ''admin'') (gs_People st)) \<le> 1 then Inl ()
      else Inr (st\<lparr>gs_People := del_last (\<lambda>p. pe_Name p = name) (gs_People st)\<rparr>, True))"

definition cmdPeopleRemove ::
  "gw_config \<Rightarrow> store_in \<Rightarrow> string \<Rightarrow> instant \<Rightarrow> json_fault + name_request \<Rightarrow> gateway \<Rightarrow> result" where
  "cmdPeopleRemove c i person now body g = with_request g body nr_Proto (\<lambda>req.
     case gw_txn c i (remove_person (nr_Name req)) g of
       (g', TxRefused _) \<Rightarrow> refuses g' ''E_CONFLICT'' 2
     | (g', TxFailed _) \<Rightarrow> refuses g' ''E_INTERNAL'' 70
     | (g', TxDone found) \<Rightarrow>
        if \<not> found then refuses g' ''E_NOT_FOUND'' 2
        else case applyRevocations g' now of (g', _) \<Rightarrow> answers (logAdminOp g' person ''people.remove'' (nr_Name req) ''ok'' [])
               (AnsRemoved (nr_Name req)))"

record moved_grant =
  mg_machine :: string
  mg_until :: "instant option"
  mg_caps :: "string list"

definition live_until :: "instant \<Rightarrow> instant option \<Rightarrow> bool" where
  "live_until now u = (case u of None \<Rightarrow> True | Some t \<Rightarrow> t > now)"

definition moved_grants :: "instant \<Rightarrow> string \<Rightarrow> gw_state \<Rightarrow> moved_grant list" where
  "moved_grants now name st = map (\<lambda>gr. \<lparr>mg_machine = gr_Machine gr, mg_until = gr_Until gr, mg_caps = gr_Caps gr\<rparr>)
     (filter (\<lambda>gr. gr_Person gr = name \<and> live_until now (gr_Until gr)) (gs_Grants st))"

fun revoke_moved :: "gateway \<Rightarrow> string \<Rightarrow> instant \<Rightarrow> moved_grant list \<Rightarrow> gateway \<times> (cmdError + nat)" where
  "revoke_moved g name now [] = (g, Inr 0)"
| "revoke_moved g name now (mg # mgs) = (case gw_revoke g name (mg_machine mg) now DenyPersonRenamed of (g', r) \<Rightarrow>
     (case killed_by r of
        Inl err \<Rightarrow> (g', Inl err)
      | Inr n \<Rightarrow> (case revoke_moved g' name now mgs of (g'', rest) \<Rightarrow> (g'', map_sum id (\<lambda>k. n + k) rest))))"

fun add_moved :: "gateway \<Rightarrow> string \<Rightarrow> instant \<Rightarrow> moved_grant list \<Rightarrow> gateway \<times> cmdError option" where
  "add_moved g name now [] = (g, None)"
| "add_moved g name now (mg # mgs) = (case gw_add_grant g name (mg_machine mg) (mg_until mg) (mg_caps mg) now of
     (g', Some _) \<Rightarrow> (g', Some (errf ''E_INTERNAL'' 70))
   | (g', None) \<Rightarrow> add_moved g' name now mgs)"

definition cmdPeopleRename ::
  "gw_config \<Rightarrow> store_in \<Rightarrow> string \<Rightarrow> instant \<Rightarrow> json_fault + rename_request \<Rightarrow> gateway \<Rightarrow> result" where
  "cmdPeopleRename c i person now body g = with_request g body rr_Proto (\<lambda>req.
     if \<not> ValidName (rr_To req) then refuses g ''E_JSON_INVALID'' 3
     else if rr_To req \<in> set reservedPersonNames then refuses g ''E_PERSON_NAME_RESERVED'' 2
     else case gw_txn c i (\<lambda>st. map_sum id (\<lambda>(d, ok). (d, moved_grants now (rr_From req) st, ok))
              (RenamePerson st (rr_From req) (rr_To req))) g of
       (g', TxDone (moved, found)) \<Rightarrow>
         if \<not> found then refuses g' ''E_NOT_FOUND'' 2
         else (case revoke_moved g' (rr_From req) now moved of
             (g', Inl err) \<Rightarrow> (g', Some (Inl err))
           | (g', Inr killed) \<Rightarrow> (case add_moved g' (rr_To req) now moved of
               (g', Some err) \<Rightarrow> (g', Some (Inl err))
             | (g', None) \<Rightarrow>
                answers (logAdminOp g' person ''people.rename'' (rr_From req @ '' -> '' @ rr_To req) ''ok''
                  [(''killedSessions'', FormatUint killed)]) (AnsRenamed (rr_From req) (rr_To req) killed)))
     | (g', _) \<Rightarrow> refuses g' ''E_CONFLICT'' 2)"

definition cmdPeopleList :: "json_fault + proto_request \<Rightarrow> gateway \<Rightarrow> result" where
  "cmdPeopleList body g = with_request g body qr_Proto (\<lambda>req. answers g (AnsPeople (gs_People (st_of g))))"

text \<open>The text \<open>%q\<close> gives a name that needs no escape.\<close>

definition quoted :: "string \<Rightarrow> string" where
  "quoted s = CHR 0x22 # s @ [CHR 0x22]"

fun key_owner_machines :: "machine_rec list \<Rightarrow> string \<Rightarrow> string" where
  "key_owner_machines [] fp = ''''"
| "key_owner_machines (m # ms) fp =
    (if mc_MachineKey m \<noteq> '''' \<and> ComputeFingerprint (mc_MachineKey m) = Inr fp then ''machine '' @ quoted (mc_ID m)
     else case mc_Door m of
       Some d \<Rightarrow> if sd_PubKey d \<noteq> '''' \<and> ComputeFingerprint (sd_PubKey d) = Inr fp then ''machine '' @ quoted (mc_ID m) @ '' door key''
                  else key_owner_machines ms fp
     | None \<Rightarrow> key_owner_machines ms fp)"

definition keyOwnerOtherThan :: "gw_state \<Rightarrow> string \<Rightarrow> string \<Rightarrow> string" where
  "keyOwnerOtherThan st fp name =
    (case find (\<lambda>p. pe_Name p \<noteq> name \<and> list_ex (\<lambda>k. ky_Fingerprint k = fp) (pe_Keys p)) (gs_People st) of
       Some p \<Rightarrow> ''person '' @ quoted (pe_Name p)
     | None \<Rightarrow> key_owner_machines (gs_Machines st) fp)"

text \<open>A refusal inside a transaction carries the details of its journal line.\<close>

definition add_key :: "string \<Rightarrow> key_rec \<Rightarrow> gw_state \<Rightarrow> (string, string) gomap + gw_state \<times> bool" where
  "add_key name k st =
    (let fp = ky_Fingerprint k; owner = keyOwnerOtherThan st fp name in
     if owner \<noteq> '''' then
       Inl [(''reason'', ''key already registered''), (''existingOwner'', owner), (''fingerprint'', fp)]
     else case find (\<lambda>p. pe_Name p = name) (gs_People st) of
       None \<Rightarrow> Inr (st, False)
     | Some p \<Rightarrow>
        if list_ex (\<lambda>k. ky_Fingerprint k = fp) (pe_Keys p) then
          Inl [(''reason'', ''key already registered for this person''), (''fingerprint'', fp)]
        else Inr (st\<lparr>gs_People := upd_first (\<lambda>p. pe_Name p = name) (\<lambda>p. p\<lparr>pe_Keys := pe_Keys p @ [k]\<rparr>) (gs_People st)\<rparr>, True))"

definition cmdPeopleKeysAdd ::
  "gw_config \<Rightarrow> store_in \<Rightarrow> string \<Rightarrow> instant \<Rightarrow> json_fault + person_key_request \<Rightarrow> gateway \<Rightarrow> result" where
  "cmdPeopleKeysAdd c i person now body g = with_request g body kq_Proto (\<lambda>req.
     if \<not> CheckPublicKey (cf_ParseAuthorizedKey c) (kq_Key req) then refuses g ''E_JSON_INVALID'' 3
     else case ComputeFingerprint (kq_Key req) of
       Inl _ \<Rightarrow> refuses g ''E_JSON_INVALID'' 3
     | Inr fp \<Rightarrow>
        (let added = \<lparr>ky_Fingerprint = fp, ky_Pub = kq_Key req, ky_Added = now\<rparr> in
         case gw_txn c i (add_key (kq_Name req) added) g of
           (g', TxRefused cause) \<Rightarrow>
             refuses (logAdminOp g' person ''people.keys.add'' (kq_Name req) ''failed'' cause) ''E_CONFLICT'' 2
         | (g', TxFailed _) \<Rightarrow> refuses g' ''E_CONFLICT'' 2
         | (g', TxDone found) \<Rightarrow>
            if \<not> found then
              refuses (logAdminOp g' person ''people.keys.add'' (kq_Name req) ''failed''
                [(''reason'', ''no such person''), (''fingerprint'', fp)]) ''E_NOT_FOUND'' 2
            else answers (logAdminOp g' person ''people.keys.add'' (kq_Name req) ''ok'' [(''fingerprint'', fp)])
                   (AnsKeyAdded (kq_Name req) added)))"

definition adminKeysInState :: "gw_state \<Rightarrow> nat" where
  "adminKeysInState st = sum_list (map (\<lambda>p. if pe_Role p = ''admin'' then length (pe_Keys p) else 0) (gs_People st))"

datatype key_refusal = LastAdminKey | NoSuchKey

definition refusal_details :: "string \<Rightarrow> key_refusal \<Rightarrow> (string, string) gomap" where
  "refusal_details fp r = [(''reason'', case r of LastAdminKey \<Rightarrow> ''last administrator key'' | NoSuchKey \<Rightarrow> ''person has no such key''),
     (''fingerprint'', fp)]"

definition remove_key :: "string \<Rightarrow> string \<Rightarrow> gw_state \<Rightarrow> key_refusal + gw_state \<times> bool" where
  "remove_key name fp st = (case find (\<lambda>p. pe_Name p = name) (gs_People st) of
     None \<Rightarrow> Inr (st, False)
   | Some p \<Rightarrow>
      if \<not> list_ex (\<lambda>k. ky_Fingerprint k = fp) (pe_Keys p) then Inl NoSuchKey
      else if pe_Role p = ''admin'' \<and> adminKeysInState st \<le> 1 then Inl LastAdminKey
      else Inr (st\<lparr>gs_People := upd_first (\<lambda>p. pe_Name p = name)
             (\<lambda>p. p\<lparr>pe_Keys := del_first (\<lambda>k. ky_Fingerprint k = fp) (pe_Keys p)\<rparr>) (gs_People st)\<rparr>, True))"

definition cmdPeopleKeysRemove ::
  "gw_config \<Rightarrow> store_in \<Rightarrow> string \<Rightarrow> json_fault + person_key_request \<Rightarrow> gateway \<Rightarrow> result" where
  "cmdPeopleKeysRemove c i person body g = with_request g body kq_Proto (\<lambda>req.
     case NormalizeFingerprint (kq_Key req) of
       None \<Rightarrow> refuses g ''E_JSON_INVALID'' 3
     | Some fp \<Rightarrow>
        (case gw_txn c i (remove_key (kq_Name req) fp) g of
           (g', TxRefused cause) \<Rightarrow>
             refuses (logAdminOp g' person ''people.keys.remove'' (kq_Name req) ''failed'' (refusal_details fp cause))
               (case cause of LastAdminKey \<Rightarrow> ''E_CONFLICT'' | NoSuchKey \<Rightarrow> ''E_NOT_FOUND'') 2
         | (g', TxFailed _) \<Rightarrow> refuses g' ''E_NOT_FOUND'' 2
         | (g', TxDone found) \<Rightarrow>
            if \<not> found then
              refuses (logAdminOp g' person ''people.keys.remove'' (kq_Name req) ''failed''
                [(''reason'', ''no such person''), (''fingerprint'', fp)]) ''E_NOT_FOUND'' 2
            else answers (logAdminOp g' person ''people.keys.remove'' (kq_Name req) ''ok'' [(''fingerprint'', fp)])
                   (AnsKeyRemoved (kq_Name req) fp)))"

section \<open>Machines\<close>

definition cmdMachinesRemove ::
  "gw_config \<Rightarrow> store_in \<Rightarrow> string \<Rightarrow> instant \<Rightarrow> json_fault + machine_request \<Rightarrow> gateway \<Rightarrow> result" where
  "cmdMachinesRemove c i person now body g = with_request g body mq_Proto (\<lambda>req.
     case gw_txn c i (\<lambda>st. Inr (st\<lparr>gs_Machines := del_first (\<lambda>m. mc_ID m = mq_ID req) (gs_Machines st)\<rparr>,
            list_ex (\<lambda>m. mc_ID m = mq_ID req) (gs_Machines st)) :: unit + gw_state \<times> bool) g of
       (g', TxDone found) \<Rightarrow>
         if \<not> found then refuses g' ''E_NOT_FOUND'' 2
         else
          (let g' = (case gm_get (gw_reg g') (mq_ID req) of
                 None \<Rightarrow> g' | Some _ \<Rightarrow> g'\<lparr>gw_effects := gw_effects g' @ [Teardown (mq_ID req) ''removed-by-admin'']\<rparr>)
           in case applyRevocations g' now of (g', killed) \<Rightarrow>
             answers (logAdminOp g' person ''machines.remove'' (mq_ID req) ''ok'' [(''killedSessions'', FormatUint killed)])
               (AnsRemoved (mq_ID req)))
     | (g', _) \<Rightarrow> refuses g' ''E_INTERNAL'' 70)"

definition cmdMachinesRename ::
  "gw_config \<Rightarrow> store_in \<Rightarrow> string \<Rightarrow> json_fault + machine_value_request \<Rightarrow> gateway \<Rightarrow> result" where
  "cmdMachinesRename c i person body g = with_request g body mv_Proto (\<lambda>req.
     if ValidateName (mv_Value req) \<noteq> None then refuses g ''E_JSON_INVALID'' 2
     else if mv_Value req \<in> set reservedPersonNames then refuses g ''E_JSON_INVALID'' 2
     else case gw_txn c i (\<lambda>st. RenameMachine st (mv_ID req) (mv_Value req)) g of
       (g', TxDone found) \<Rightarrow>
         if \<not> found then refuses g' ''E_NOT_FOUND'' 2
         else answers (logAdminOp g' person ''machines.rename'' (mv_ID req @ '' -> '' @ mv_Value req) ''ok'' [])
                (AnsMachineNamed (mv_ID req) (mv_Value req))
     | (g', _) \<Rightarrow> refuses g' ''E_CONFLICT'' 2)"

definition set_user :: "string \<Rightarrow> machine_rec \<Rightarrow> machine_rec" where
  "set_user user m = m\<lparr>mc_OSUser := user, mc_RequestedOSUser := user, mc_VerifiedOSUser := None,
     mc_OSUserStatus := OSUserStatusPending, mc_State := ''enrolled''\<rparr>"

definition kill_machine :: "gateway \<Rightarrow> string \<Rightarrow> instant \<Rightarrow> gateway" where
  "kill_machine g machine now = foldl (\<lambda>g s. fst (gw_kill g (s_id s) now DenyMachineUnverified)) g
     (filter (\<lambda>s. s_machine s = machine) (Sessions (gw_aclE g)))"

definition cmdMachinesSetUser ::
  "gw_config \<Rightarrow> store_in \<Rightarrow> string \<Rightarrow> instant \<Rightarrow> json_fault + machine_value_request \<Rightarrow> gateway \<Rightarrow> result" where
  "cmdMachinesSetUser c i person now body g = with_request g body mv_Proto (\<lambda>req.
     if \<not> ValidOSUser (mv_Value req) then refuses g ''E_JSON_INVALID'' 3
     else case gw_txn c i (\<lambda>st. Inr (st\<lparr>gs_Machines := upd_first (\<lambda>m. mc_ID m = mv_ID req) (set_user (mv_Value req)) (gs_Machines st)\<rparr>,
            list_ex (\<lambda>m. mc_ID m = mv_ID req) (gs_Machines st)) :: unit + gw_state \<times> bool) g of
       (g', TxDone found) \<Rightarrow>
         if \<not> found then refuses g' ''E_NOT_FOUND'' 2
         else
          (let g' = kill_machine g' (mv_ID req) now;
               g' = (case gm_get (gw_reg g') (mv_ID req) of
                 None \<Rightarrow> g'
               | Some online \<Rightarrow> g'\<lparr>gw_effects := gw_effects g' @ CloseForOSUserChange (mv_ID req) #
                    (if online then [StartProbe (mv_ID req)] else [])\<rparr>)
           in answers (logAdminOp g' person ''machines.set-user'' (mv_ID req) ''ok'' [(''osUser'', mv_Value req)])
                (AnsUserSet (mv_ID req) (mv_Value req)))
     | (g', _) \<Rightarrow> refuses g' ''E_INTERNAL'' 70)"

datatype rekey_error = ObservedKeyBad | PinnedKeyBad | MachineDisappeared
datatype rekey_verdict = RekeyUnavailable | RekeyUnconfirmed | Rekeyed string string

primrec rekey_error_text :: "rekey_error \<Rightarrow> string" where
  "rekey_error_text ObservedKeyBad = ''observed SSHD host key''"
| "rekey_error_text PinnedKeyBad = ''pinned SSHD host key''"
| "rekey_error_text MachineDisappeared = ''machine disappeared during rekey''"

definition rekey_machine :: "string \<Rightarrow> string \<Rightarrow> gw_state \<Rightarrow> rekey_error + gw_state \<times> rekey_verdict" where
  "rekey_machine i confirmed st = (case find (\<lambda>m. mc_ID m = i) (gs_Machines st) of
     None \<Rightarrow> Inl MachineDisappeared
   | Some m \<Rightarrow>
      (case (mc_SSHDHostKey m, mc_ObservedSSHDHostKey m) of
         (Some pinned, Some observed) \<Rightarrow>
           if mc_HostKeyStatus m \<noteq> HostKeyStatusMismatch then Inr (st, RekeyUnavailable)
           else (case ComputeFingerprint observed of
               Inl _ \<Rightarrow> Inl ObservedKeyBad
             | Inr observedFP \<Rightarrow>
                if confirmed \<noteq> observedFP then Inr (st, RekeyUnconfirmed)
                else (case ComputeFingerprint pinned of
                    Inl _ \<Rightarrow> Inl PinnedKeyBad
                  | Inr oldFP \<Rightarrow>
                     Inr (st\<lparr>gs_Machines := upd_first (\<lambda>m. mc_ID m = i)
                            (\<lambda>m. m\<lparr>mc_SSHDHostKey := Some observed, mc_HostKeyStatus := HostKeyStatusMatch\<rparr>) (gs_Machines st)\<rparr>,
                          Rekeyed oldFP observedFP)))
       | _ \<Rightarrow> Inr (st, RekeyUnavailable)))"

text \<open>The branch for a machine that was not found is dead: the transaction has failed before it.\<close>

definition cmdMachinesRekey ::
  "gw_config \<Rightarrow> store_in \<Rightarrow> string \<Rightarrow> json_fault + machine_value_request \<Rightarrow> gateway \<Rightarrow> result" where
  "cmdMachinesRekey c i person body g = with_request g body mv_Proto (\<lambda>req.
     case NormalizeFingerprint (mv_Value req) of
       None \<Rightarrow> refuses g ''E_JSON_INVALID'' 3
     | Some confirmed \<Rightarrow>
        (let log = (\<lambda>g result details. logAdminOp g person ''machines.rekey'' (mv_ID req) result details) in
         case gw_txn c i (rekey_machine (mv_ID req) confirmed) g of
           (g', TxRefused err) \<Rightarrow> refuses (log g' ''failed'' [(''err'', rekey_error_text err)]) ''E_INTERNAL'' 70
         | (g', TxFailed _) \<Rightarrow> refuses (log g' ''failed'' [(''err'', ''store'')]) ''E_INTERNAL'' 70
         | (g', TxDone RekeyUnavailable) \<Rightarrow>
             refuses (log g' ''failed'' [(''reason'', ''no observed host-key mismatch'')]) ''E_MACHINE_REKEY_UNAVAILABLE'' 1
         | (g', TxDone RekeyUnconfirmed) \<Rightarrow>
             refuses (log g' ''failed'' [(''reason'', ''confirmFingerprint does not match observed SSHD host key'')])
               ''E_MACHINE_REKEY_CONFIRMATION'' 1
         | (g', TxDone (Rekeyed old new)) \<Rightarrow>
             answers (log g' ''ok'' [(''oldHostKey'', old), (''newHostKey'', new)]) (AnsRekeyed (mv_ID req) old new)))"

text \<open>The secret is 32 random bytes in the URL alphabet; \<open>None\<close> is an error of the random source.\<close>

definition raw_url_encode :: "byte list \<Rightarrow> string" where
  "raw_url_encode bs = map (\<lambda>ch. if ch = CHR ''+'' then CHR ''-'' else if ch = CHR ''/'' then CHR ''_'' else ch) (b64_raw bs)"

definition mint_invitation :: "string \<Rightarrow> byte list \<Rightarrow> string \<Rightarrow> instant \<Rightarrow> instant \<Rightarrow> gw_state \<Rightarrow> unit + gw_state \<times> bool" where
  "mint_invitation name hash pub now expires st =
    (if list_ex (\<lambda>m. mc_ID m = name \<or> mc_Name m = name) (gs_Machines st) then Inr (st, False)
     else if list_ex (\<lambda>e. pd_Name e = name \<and> pd_Expires e > now) (gs_PendingEnrolments st) then Inr (st, False)
     else Inr (st\<lparr>gs_PendingEnrolments := gs_PendingEnrolments st @
            [\<lparr>pd_Name = name, pd_OSUser = '''', pd_SecretHash = hash, pd_PublicKey = pub, pd_Expires = expires\<rparr>]\<rparr>, True))"

definition cmdMachinesEnrolCode ::
  "gw_config \<Rightarrow> store_in \<Rightarrow> byte list option \<Rightarrow> string \<Rightarrow> instant \<Rightarrow> json_fault + name_request \<Rightarrow> gateway \<Rightarrow> result" where
  "cmdMachinesEnrolCode c i draw person now body g = with_request g body nr_Proto (\<lambda>req.
     if ValidateName (nr_Name req) \<noteq> None then refuses g ''E_JSON_INVALID'' 2
     else if nr_Name req \<in> set reservedPersonNames then refuses g ''E_JSON_INVALID'' 2
     else case draw of
       None \<Rightarrow> refuses g ''E_INTERNAL'' 70
     | Some rawSecret \<Rightarrow>
        (let secret = raw_url_encode rawSecret in
         case cf_enrolSigner c secret of
           None \<Rightarrow> refuses g ''E_INTERNAL'' 70
         | Some pubLine \<Rightarrow>
            (let expires = now + 15 * 60 * second in
             case HashEnrolSecret (gw_enrolHMAC g) (bytes_of secret) of
               None \<Rightarrow> (g, None)
             | Some hash \<Rightarrow>
                (case gw_txn c i (mint_invitation (nr_Name req) hash pubLine now expires) g of
                   (g', TxDone free) \<Rightarrow>
                     if \<not> free then refuses g' ''E_CONFLICT'' 2
                     else answers (logAdminOp g' person ''machines.enrol-code'' (nr_Name req) ''ok'' [(''expires'', cf_fmt c expires)])
                            (AnsEnrolCode secret expires)
                 | (g', _) \<Rightarrow> refuses g' ''E_INTERNAL'' 70))))"

section \<open>Grants\<close>

definition caps_ok :: "string list \<Rightarrow> bool" where
  "caps_ok caps \<longleftrightarrow> caps = [''shell''] \<or> caps = [''exec'']"

text \<open>\<open>config.ParseUntil\<close> and the rule that a deadline lies ahead; the empty text is no deadline.\<close>

definition parse_deadline :: "gw_config \<Rightarrow> string \<Rightarrow> instant \<Rightarrow> instant option option" where
  "parse_deadline c text now =
    (if text = '''' then Some None
     else case cf_ParseRFC3339 c text of
       None \<Rightarrow> None
     | Some until \<Rightarrow> if \<not> until > now then None else Some (Some until))"

definition grant_pair_txn :: "string \<Rightarrow> string \<Rightarrow> instant option \<Rightarrow> string list \<Rightarrow> gw_state \<Rightarrow> unit + gw_state \<times> unit" where
  "grant_pair_txn person machine until caps st =
    (if \<not> HasPerson st person then Inl ()
     else if MachineByID st machine = None then Inl ()
     else case GrantAccess st person machine until caps of Inl _ \<Rightarrow> Inl () | Inr d \<Rightarrow> Inr (d, ()))"

definition cmdGrantsGrant ::
  "gw_config \<Rightarrow> store_in \<Rightarrow> string \<Rightarrow> instant \<Rightarrow> json_fault + grant_request \<Rightarrow> gateway \<Rightarrow> result" where
  "cmdGrantsGrant c i person now body g = with_request g body gq_Proto (\<lambda>req.
     if \<not> caps_ok (gq_Caps req) then refuses g ''E_CAP_UNSUPPORTED'' 4
     else case parse_deadline c (gq_Until req) now of
       None \<Rightarrow> refuses g ''E_JSON_INVALID'' 3
     | Some until \<Rightarrow>
        (case gw_txn c i (grant_pair_txn (gq_Person req) (gq_Machine req) until (gq_Caps req)) g of
           (g', TxDone _) \<Rightarrow>
             (case gw_add_grant g' (gq_Person req) (gq_Machine req) until (gq_Caps req) now of
                (g', Some _) \<Rightarrow> refuses g' ''E_INTERNAL'' 70
              | (g', None) \<Rightarrow>
                 (let caps = (case find (is_pair (gq_Person req) (gq_Machine req)) (gs_Grants (st_of g')) of
                        None \<Rightarrow> gq_Caps req | Some gr \<Rightarrow> gr_Caps gr)
                  in answers (logAdminOp g' person ''grants.grant'' (gq_Person req @ '' -> '' @ gq_Machine req) ''ok''
                         [(''until'', gq_Until req), (''caps'', d_list caps)])
                       (AnsGrant (gq_Person req) (gq_Machine req) until (gq_Caps req))))
         | (g', _) \<Rightarrow> refuses g' ''E_CONFLICT'' 2))"

definition cmdGrantsRevoke ::
  "gw_config \<Rightarrow> store_in \<Rightarrow> string \<Rightarrow> instant \<Rightarrow> json_fault + pair_request \<Rightarrow> gateway \<Rightarrow> result" where
  "cmdGrantsRevoke c i person now body g = with_request g body pr_Proto (\<lambda>req.
     case gw_txn c i (\<lambda>st. Inr (RevokeAccess st (pr_Person req) (pr_Machine req)) :: unit + gw_state \<times> bool) g of
       (g', TxDone removed) \<Rightarrow>
         if \<not> removed then refuses g' ''E_NOT_FOUND'' 2
         else (case gw_revoke g' (pr_Person req) (pr_Machine req) now DenyGrantRevoked of (g', r) \<Rightarrow>
           (case killed_by r of
              Inl err \<Rightarrow> (g', Some (Inl err))
            | Inr killed \<Rightarrow>
               answers (logAdminOp g' person ''grants.revoke'' (pr_Person req @ '' -> '' @ pr_Machine req) ''ok''
                 [(''killedSessions'', FormatUint killed)]) (AnsRevoked killed)))
     | (g', _) \<Rightarrow> refuses g' ''E_INTERNAL'' 70)"

text \<open>The last grant of the pair in the draft, which is the only one.\<close>

definition pair_in :: "gw_state \<Rightarrow> string \<Rightarrow> string \<Rightarrow> grant_rec option" where
  "pair_in st person machine = find (is_pair person machine) (rev (gs_Grants st))"

definition set_caps_txn ::
  "string \<Rightarrow> string \<Rightarrow> string list \<Rightarrow> gw_state \<Rightarrow> unit + gw_state \<times> (string \<times> instant option) option" where
  "set_caps_txn person machine caps st = (case SetGrantCaps st person machine caps of (d, was) \<Rightarrow>
     Inr (d, map_option (\<lambda>w. (w, case pair_in d person machine of None \<Rightarrow> None | Some gr \<Rightarrow> gr_Until gr)) was))"

definition cmdGrantsSetCaps ::
  "gw_config \<Rightarrow> store_in \<Rightarrow> string \<Rightarrow> instant \<Rightarrow> json_fault + pair_caps_request \<Rightarrow> gateway \<Rightarrow> result" where
  "cmdGrantsSetCaps c i person now body g = with_request g body pc_Proto (\<lambda>req.
     if \<not> caps_ok (pc_Caps req) then refuses g ''E_CAP_UNSUPPORTED'' 4
     else case gw_txn c i (set_caps_txn (pc_Person req) (pc_Machine req) (pc_Caps req)) g of
       (g', TxDone None) \<Rightarrow> refuses g' ''E_NOT_FOUND'' 2
     | (g', TxDone (Some (was, until))) \<Rightarrow>
        if was = hd (pc_Caps req) then answers g' (AnsCaps (pc_Caps req) was 0)
        else
         (case (if was = ''shell'' \<and> hd (pc_Caps req) = ''exec''
                then (case gw_revoke g' (pc_Person req) (pc_Machine req) now DenyGrantChanged of (g', r) \<Rightarrow> (g', killed_by r))
                else (g', Inr 0)) of
            (g', Inl err) \<Rightarrow> (g', Some (Inl err))
          | (g', Inr killed) \<Rightarrow>
             (case gw_add_grant g' (pc_Person req) (pc_Machine req) until (pc_Caps req) now of
                (g', Some _) \<Rightarrow> refuses g' ''E_INTERNAL'' 70
              | (g', None) \<Rightarrow>
                 answers (logAdminOp g' person ''grants.set-caps'' (pc_Person req @ '' -> '' @ pc_Machine req) ''ok''
                     [(''was'', was), (''caps'', hd (pc_Caps req)), (''killedSessions'', FormatUint killed)])
                   (AnsCaps (pc_Caps req) was killed)))
     | (g', _) \<Rightarrow> refuses g' ''E_INTERNAL'' 70)"

definition set_until_txn ::
  "string \<Rightarrow> string \<Rightarrow> instant option \<Rightarrow> gw_state \<Rightarrow> unit + gw_state \<times> (instant option \<times> string list) option" where
  "set_until_txn person machine until st = (case SetGrantUntil st person machine until of (d, was) \<Rightarrow>
     Inr (d, map_option (\<lambda>w. (w, case pair_in d person machine of None \<Rightarrow> [] | Some gr \<Rightarrow> gr_Caps gr)) was))"

definition shortening :: "instant option \<Rightarrow> instant option \<Rightarrow> bool" where
  "shortening was new = (case was of
     None \<Rightarrow> True
   | Some w \<Rightarrow> (case new of None \<Rightarrow> False | Some n \<Rightarrow> n < w))"

definition cmdGrantsExtend ::
  "gw_config \<Rightarrow> store_in \<Rightarrow> string \<Rightarrow> instant \<Rightarrow> json_fault + pair_text_request \<Rightarrow> gateway \<Rightarrow> result" where
  "cmdGrantsExtend c i person now body g = with_request g body px_Proto (\<lambda>req.
     case parse_deadline c (px_Text req) now of
       None \<Rightarrow> refuses g ''E_JSON_INVALID'' 3
     | Some new \<Rightarrow>
        (case gw_txn c i (set_until_txn (px_Person req) (px_Machine req) new) g of
           (g', TxDone None) \<Rightarrow> refuses g' ''E_NOT_FOUND'' 2
         | (g', TxDone (Some (was, caps))) \<Rightarrow>
            if was = None \<and> new = None then answers g' (AnsExtended None None 0)
            else
             (case (if shortening was new
                    then (case gw_revoke g' (px_Person req) (px_Machine req) now DenyGrantChanged of (g', r) \<Rightarrow> (g', killed_by r))
                    else (g', Inr 0)) of
                (g', Inl err) \<Rightarrow> (g', Some (Inl err))
              | (g', Inr killed) \<Rightarrow>
                 (case gw_add_grant g' (px_Person req) (px_Machine req) new caps now of
                    (g', Some _) \<Rightarrow> refuses g' ''E_INTERNAL'' 70
                  | (g', None) \<Rightarrow>
                     answers (logAdminOp g' person ''grants.extend'' (px_Person req @ '' -> '' @ px_Machine req) ''ok''
                         [(''until'', px_Text req), (''shortened'', d_bool (shortening was new)), (''killedSessions'', FormatUint killed)])
                       (AnsExtended new was killed)))
         | (g', _) \<Rightarrow> refuses g' ''E_INTERNAL'' 70))"

definition cmdGrantsList :: "json_fault + pair_request \<Rightarrow> gateway \<Rightarrow> result" where
  "cmdGrantsList body g = with_request g body pr_Proto (\<lambda>req.
     answers g (AnsGrants (filter (\<lambda>gr. (pr_Person req = '''' \<or> gr_Person gr = pr_Person req) \<and>
       (pr_Machine req = '''' \<or> gr_Machine gr = pr_Machine req)) (gs_Grants (st_of g)))))"

section \<open>Sessions and goals\<close>

definition cmdSessionsKill :: "string \<Rightarrow> instant \<Rightarrow> json_fault + session_request \<Rightarrow> gateway \<Rightarrow> result" where
  "cmdSessionsKill person now body g = with_request g body sq_Proto (\<lambda>req.
     case ParseSessionID (sq_ID req) of
       Inl _ \<Rightarrow> refuses g ''E_JSON_INVALID'' 3
     | Inr i \<Rightarrow> (case gw_kill g i now DenyAdminKilled of (g', alive) \<Rightarrow>
         if \<not> alive then refuses g' ''E_NOT_FOUND'' 2
         else answers (logAdminOp g' person ''sessions.kill'' (sq_ID req) ''ok'' []) (AnsKilled (sq_ID req))))"

definition checkGoalPerson :: "gateway \<Rightarrow> string \<Rightarrow> cmdError option" where
  "checkGoalPerson g person =
    (if ValidateName person \<noteq> None then Some (errf ''E_JSON_INVALID'' 3)
     else if \<not> HasPerson (st_of g) person then Some (errf ''E_NOT_FOUND'' 2) else None)"

definition checkGoalMachine :: "gateway \<Rightarrow> string \<Rightarrow> cmdError option" where
  "checkGoalMachine g machine =
    (if ValidateName machine \<noteq> None then Some (errf ''E_JSON_INVALID'' 3)
     else if MachineByID (st_of g) machine = None then Some (errf ''E_NOT_FOUND'' 2) else None)"

definition with_goal_pair :: "gateway \<Rightarrow> string \<Rightarrow> string \<Rightarrow> result \<Rightarrow> result" where
  "with_goal_pair g person machine k = (case checkGoalPerson g person of
     Some err \<Rightarrow> (g, Some (Inl err))
   | None \<Rightarrow> (case checkGoalMachine g machine of Some err \<Rightarrow> (g, Some (Inl err)) | None \<Rightarrow> k))"

definition goalViewFor :: "goal_record \<Rightarrow> bool \<Rightarrow> goal_record" where
  "goalViewFor record includeHistory = (if includeHistory then record else record\<lparr>go_History := []\<rparr>)"

definition cmdGoalSet ::
  "gw_config \<Rightarrow> store_in \<Rightarrow> string \<Rightarrow> instant \<Rightarrow> json_fault + pair_text_request \<Rightarrow> gateway \<Rightarrow> result" where
  "cmdGoalSet c i person now body g = with_request g body px_Proto (\<lambda>req.
     with_goal_pair g (px_Person req) (px_Machine req)
      (if ValidateGoalText (px_Text req) \<noteq> None then refuses g ''E_JSON_INVALID'' 3
       else case gw_txn c i (\<lambda>st. SetGoal st (px_Person req) (px_Machine req) (px_Text req) now) g of
         (g', TxDone updated) \<Rightarrow>
           answers (logAdminOp g' person ''goal.set'' (px_Person req @ '' -> '' @ px_Machine req) ''ok''
               [(''goal'', cf_ScrubCommand c (TrimSpace (px_Text req))), (''cleared'', d_bool (TrimSpace (px_Text req) = ''''))])
             (AnsGoal (goalViewFor updated True))
       | (g', _) \<Rightarrow> refuses g' ''E_INTERNAL'' 70))"

definition goal_or_empty :: "gw_state \<Rightarrow> string \<Rightarrow> string \<Rightarrow> goal_record" where
  "goal_or_empty st person machine = (case GoalFor st person machine of
     Some r \<Rightarrow> r | None \<Rightarrow> \<lparr>go_Person = person, go_Machine = machine, go_Current = '''', go_History = []\<rparr>)"

definition cmdGoalCurrent :: "json_fault + pair_request \<Rightarrow> gateway \<Rightarrow> result" where
  "cmdGoalCurrent body g = with_request g body pr_Proto (\<lambda>req. with_goal_pair g (pr_Person req) (pr_Machine req)
     (answers g (AnsGoal (goalViewFor (goal_or_empty (st_of g) (pr_Person req) (pr_Machine req)) False))))"

definition cmdGoalHistory :: "json_fault + pair_request \<Rightarrow> gateway \<Rightarrow> result" where
  "cmdGoalHistory body g = with_request g body pr_Proto (\<lambda>req. with_goal_pair g (pr_Person req) (pr_Machine req)
     (answers g (AnsGoal (goalViewFor (goal_or_empty (st_of g) (pr_Person req) (pr_Machine req)) True))))"

definition cmdGoalList :: "json_fault + proto_request \<Rightarrow> gateway \<Rightarrow> result" where
  "cmdGoalList body g = with_request g body qr_Proto (\<lambda>req. answers g (AnsGoals (map (\<lambda>r. goalViewFor r True) (gs_Goals (st_of g)))))"

section \<open>Dispatch\<close>

record commandSpec =
  cs_adminOnly :: bool
  cs_readOnly :: bool
  cs_auditOps :: "string list"

definition spec :: "bool \<Rightarrow> bool \<Rightarrow> commandSpec" where
  "spec adminOnly readOnly = \<lparr>cs_adminOnly = adminOnly, cs_readOnly = readOnly, cs_auditOps = []\<rparr>"

definition ownRecords :: "commandSpec \<Rightarrow> string \<Rightarrow> string list" where
  "ownRecords s command = (if cs_auditOps s = [] then [command] else cs_auditOps s)"

definition commandTable :: "(string, commandSpec) gomap" where
  "commandTable = [
    (''whoami'', spec False True), (''machines.mine'', spec False True), (''people.add'', spec True False),
    (''people.rename'', spec True False), (''people.remove'', spec True False), (''people.list'', spec True True),
    (''people.keys.add'', spec True False), (''people.keys.remove'', spec True False),
    (''people.connection-string'', spec True True), (''pairing.start'', spec True False), (''pairing.stop'', spec True False),
    (''machines.list'', spec True True), (''machines.remove'', spec True False), (''machines.rename'', spec True False),
    (''grants.set-caps'', spec True False), (''grants.extend'', spec True False), (''machines.enrol-code'', spec True False),
    (''machines.set-user'', spec True False), (''machines.verify'', spec True False), (''machines.rekey'', spec True False),
    (''grants.grant'', spec True False), (''grants.revoke'', spec True False), (''grants.list'', spec True True),
    (''sessions.active'', spec True True), (''sessions.history'', spec True True), (''sessions.kill'', spec True False),
    (''sessions.tail'', spec True False), (''recordings.list'', spec True True), (''recordings.fetch'', spec True False),
    (''gateway.status'', spec True True), (''gateway.fingerprint'', spec True True), (''gateway.backup'', spec True False),
    (''gateway.rotate-hostkey'', spec True False), (''goal.set'', spec True False), (''goal.current'', spec True True),
    (''goal.history'', spec True True), (''goal.list'', spec True True), (''risk.check'', spec True True),
    (''risk.mode'', spec True False), (''risk.source'', spec True False),
    (''risk.key'', (spec True False)\<lparr>cs_auditOps := [''risk.key.replace'']\<rparr>),
    (''risk.approve'', spec False False), (''risk.pending'', spec False True), (''risk.deny'', spec False False)]"

definition personRoleOf :: "gw_state \<Rightarrow> string \<Rightarrow> string option" where
  "personRoleOf st name = map_option pe_Role (find (\<lambda>p. pe_Name p = name) (gs_People st))"

text \<open>The command's own run is the argument; a panic inside it is answered as an internal error.\<close>

definition finish_run :: "result \<Rightarrow> gateway \<times> (cmdError + answer)" where
  "finish_run r = (case r of (g, Some ans) \<Rightarrow> (g, ans) | (g, None) \<Rightarrow> (g, Inl (errf ''E_INTERNAL'' 70)))"

definition runCommand :: "(gateway \<Rightarrow> result) \<Rightarrow> string \<Rightarrow> string \<Rightarrow> gateway \<Rightarrow> gateway \<times> (cmdError + answer)" where
  "runCommand run person command g = (case gm_get commandTable command of
     None \<Rightarrow> (g, Inl (errf ''E_EXEC_UNKNOWN'' 2))
   | Some sp \<Rightarrow>
      if cs_adminOnly sp \<and> personRoleOf (st_of g) person \<noteq> Some ''admin'' then (g, Inl (errf ''E_EXEC_UNKNOWN'' 2))
      else if cs_readOnly sp then finish_run (run g)
      else case auditRefusal g of
        Some cerr \<Rightarrow> (g, Inl cerr)
      | None \<Rightarrow>
         (case watchCmd (gw_audit g) person (ownRecords sp command) of (h, w) \<Rightarrow>
          (case finish_run (run (g\<lparr>gw_audit := h\<rparr>)) of
             (g', Inr res) \<Rightarrow> if lostSince (gw_audit g') w then (g', Inl auditLost) else (g', Inr res)
           | (g', Inl err) \<Rightarrow> (g', Inl err))))"

text \<open>The commands modelled above, by the body they carry; the random draws some need come with it.\<close>

datatype request =
    PeopleAdd "json_fault + people_add_request" | PeopleRemove "json_fault + name_request"
  | PeopleRename "json_fault + rename_request" | PeopleList "json_fault + proto_request"
  | PeopleKeysAdd "json_fault + person_key_request" | PeopleKeysRemove "json_fault + person_key_request"
  | PairingStart "32 word option list" "json_fault + proto_request" | PairingStop "json_fault + proto_request"
  | MachinesRemove "json_fault + machine_request" | MachinesRename "json_fault + machine_value_request"
  | MachinesSetUser "json_fault + machine_value_request" | MachinesRekey "json_fault + machine_value_request"
  | MachinesEnrolCode "byte list option" "json_fault + name_request"
  | GrantsGrant "json_fault + grant_request" | GrantsRevoke "json_fault + pair_request"
  | GrantsSetCaps "json_fault + pair_caps_request" | GrantsExtend "json_fault + pair_text_request"
  | GrantsList "json_fault + pair_request" | SessionsKill "json_fault + session_request"
  | GoalSet "json_fault + pair_text_request" | GoalCurrent "json_fault + pair_request"
  | GoalHistory "json_fault + pair_request" | GoalList "json_fault + proto_request"

primrec request_command :: "request \<Rightarrow> string" where
  "request_command (PeopleAdd b) = ''people.add''"
| "request_command (PeopleRemove b) = ''people.remove''"
| "request_command (PeopleRename b) = ''people.rename''"
| "request_command (PeopleList b) = ''people.list''"
| "request_command (PeopleKeysAdd b) = ''people.keys.add''"
| "request_command (PeopleKeysRemove b) = ''people.keys.remove''"
| "request_command (PairingStart d b) = ''pairing.start''"
| "request_command (PairingStop b) = ''pairing.stop''"
| "request_command (MachinesRemove b) = ''machines.remove''"
| "request_command (MachinesRename b) = ''machines.rename''"
| "request_command (MachinesSetUser b) = ''machines.set-user''"
| "request_command (MachinesRekey b) = ''machines.rekey''"
| "request_command (MachinesEnrolCode d b) = ''machines.enrol-code''"
| "request_command (GrantsGrant b) = ''grants.grant''"
| "request_command (GrantsRevoke b) = ''grants.revoke''"
| "request_command (GrantsSetCaps b) = ''grants.set-caps''"
| "request_command (GrantsExtend b) = ''grants.extend''"
| "request_command (GrantsList b) = ''grants.list''"
| "request_command (SessionsKill b) = ''sessions.kill''"
| "request_command (GoalSet b) = ''goal.set''"
| "request_command (GoalCurrent b) = ''goal.current''"
| "request_command (GoalHistory b) = ''goal.history''"
| "request_command (GoalList b) = ''goal.list''"

definition as_answer :: "('a \<Rightarrow> answer) \<Rightarrow> gateway \<times> (cmdError + 'a) option \<Rightarrow> result" where
  "as_answer f r = map_prod id (map_option (map_sum id f)) r"

primrec run_request :: "gw_config \<Rightarrow> store_in \<Rightarrow> string \<Rightarrow> instant \<Rightarrow> request \<Rightarrow> gateway \<Rightarrow> result" where
  "run_request c i person now (PeopleAdd b) = cmdPeopleAdd c i person now b"
| "run_request c i person now (PeopleRemove b) = cmdPeopleRemove c i person now b"
| "run_request c i person now (PeopleRename b) = cmdPeopleRename c i person now b"
| "run_request c i person now (PeopleList b) = cmdPeopleList b"
| "run_request c i person now (PeopleKeysAdd b) = cmdPeopleKeysAdd c i person now b"
| "run_request c i person now (PeopleKeysRemove b) = cmdPeopleKeysRemove c i person b"
| "run_request c i person now (PairingStart d b) =
     (\<lambda>g. as_answer (\<lambda>(pin, t). AnsPairing pin t) (cmdAdminPairingStart c i d person now b g))"
| "run_request c i person now (PairingStop b) = (\<lambda>g. as_answer AnsStopped (cmdAdminPairingStop c i person b g))"
| "run_request c i person now (MachinesRemove b) = cmdMachinesRemove c i person now b"
| "run_request c i person now (MachinesRename b) = cmdMachinesRename c i person b"
| "run_request c i person now (MachinesSetUser b) = cmdMachinesSetUser c i person now b"
| "run_request c i person now (MachinesRekey b) = cmdMachinesRekey c i person b"
| "run_request c i person now (MachinesEnrolCode d b) = cmdMachinesEnrolCode c i d person now b"
| "run_request c i person now (GrantsGrant b) = cmdGrantsGrant c i person now b"
| "run_request c i person now (GrantsRevoke b) = cmdGrantsRevoke c i person now b"
| "run_request c i person now (GrantsSetCaps b) = cmdGrantsSetCaps c i person now b"
| "run_request c i person now (GrantsExtend b) = cmdGrantsExtend c i person now b"
| "run_request c i person now (GrantsList b) = cmdGrantsList b"
| "run_request c i person now (SessionsKill b) = cmdSessionsKill person now b"
| "run_request c i person now (GoalSet b) = cmdGoalSet c i person now b"
| "run_request c i person now (GoalCurrent b) = cmdGoalCurrent b"
| "run_request c i person now (GoalHistory b) = cmdGoalHistory b"
| "run_request c i person now (GoalList b) = cmdGoalList b"

definition run_admin :: "gw_config \<Rightarrow> store_in \<Rightarrow> string \<Rightarrow> request \<Rightarrow> gateway \<Rightarrow> gateway \<times> (cmdError + answer)" where
  "run_admin c i person rq g = runCommand (run_request c i person (gw_now g) rq) person (request_command rq) g"

section \<open>Connections and their keys\<close>

definition keyHeld :: "gw_state \<Rightarrow> key_conn \<Rightarrow> bool" where
  "keyHeld st kc \<longleftrightarrow> personWithKey st (kc_fingerprint kc) = Some (kc_person kc)"

definition carries :: "nat \<Rightarrow> session_id \<Rightarrow> gateway \<Rightarrow> gateway" where
  "carries n i g = (case gm_get (gw_keyConns g) n of
     None \<Rightarrow> g | Some kc \<Rightarrow> g\<lparr>gw_keyConns := gm_put n (kc\<lparr>kc_session := i\<rparr>) (gw_keyConns g)\<rparr>)"

definition trackKeyConn :: "nat \<Rightarrow> key_conn \<Rightarrow> gateway \<Rightarrow> gateway" where
  "trackKeyConn n kc g = g\<lparr>gw_keyConns := gm_put n kc (gw_keyConns g)\<rparr>"

definition untrackKeyConn :: "nat \<Rightarrow> gateway \<Rightarrow> gateway" where
  "untrackKeyConn n g = g\<lparr>gw_keyConns := gm_del n (gw_keyConns g)\<rparr>"

definition cutKeyConn :: "gateway \<Rightarrow> nat \<times> key_conn \<Rightarrow> gateway" where
  "cutKeyConn g c = (case c of (n, kc) \<Rightarrow>
     if SessionID_Valid (kc_session kc) then fst (gw_kill g (kc_session kc) (gw_now g) DenyKeyRemoved)
     else g\<lparr>gw_effects := gw_effects g @ [CloseConn n]\<rparr>)"

definition cutRemovedKeys :: "gateway \<Rightarrow> gateway" where
  "cutRemovedKeys g = foldl cutKeyConn g (filter (\<lambda>(n, kc). \<not> keyHeld (st_of g) kc) (gw_keyConns g))"

text \<open>
  One command session on connection \<open>n\<close>. The check of the key and the command hold \<open>keyGate\<close> together, so they are one
  step. \<open>None\<close> is a channel closed without an answer.
\<close>

definition serveCommandSession ::
  "gw_config \<Rightarrow> (string \<Rightarrow> byte list \<Rightarrow> gateway \<Rightarrow> result) \<Rightarrow> string \<Rightarrow> nat \<Rightarrow> key_conn \<Rightarrow> exec_in \<Rightarrow> gateway \<Rightarrow>
     gateway \<times> (cmdError + answer) option" where
  "serveCommandSession c run person n kc x g =
    (if xi_type x \<noteq> ''exec'' then (g, None)
     else case ParseExec (xi_payload x) of
       Inl _ \<Rightarrow> (g, None)
     | Inr m \<Rightarrow>
        (case readBounded (xi_body x) maxExecRequestBytes of
           None \<Rightarrow> (g, Some (Inl (errf ''E_JSON_INVALID'' 3)))
         | Some body \<Rightarrow>
            if \<not> keyHeld (st_of g) kc then
              (let g = gw_AuthDenied c g (kc_addr kc) person (kc_fingerprint kc) ''the key is no longer registered to this person''
               in (g\<lparr>gw_effects := gw_effects g @ [CloseConn n]\<rparr>, None))
            else (case runCommand (run (ex_command m) body) person (ex_command m) g of (g', r) \<Rightarrow>
              (cutRemovedKeys g', Some r))))"

section \<open>Start-up\<close>

text \<open>
  What \<open>New\<close> makes of the grants of the state: every one that has not expired goes into the engine, the others are
  journaled as dropped; an error refuses the start.
\<close>

fun load_grants :: "engine \<Rightarrow> instant \<Rightarrow> grant_rec list \<Rightarrow> acl_error + engine \<times> grant_rec list" where
  "load_grants e now [] = Inr (e, [])"
| "load_grants e now (gr # grs) =
    (if \<not> live_until now (gr_Until gr) then map_sum id (\<lambda>(e, dropped). (e, gr # dropped)) (load_grants e now grs)
     else case AddGrant e (utc_grant (gr_Person gr) (gr_Machine gr) (gr_Until gr) (gr_Caps gr)) now of
       (e', Some err) \<Rightarrow> Inl err
     | (e', None) \<Rightarrow> load_grants e' now grs)"

definition dropped_line :: "gw_config \<Rightarrow> grant_rec \<Rightarrow> event" where
  "dropped_line c gr = mk_event EventAdminOp ''gateway'' (gr_Person gr @ '' -> '' @ gr_Machine gr) ''grant.skip:expired''
     [(''expiredAt'', case gr_Until gr of None \<Rightarrow> '''' | Some t \<Rightarrow> cf_fmt c t)]"

end
