(* ===== verification/Access_Terms.thy ===== *)
theory Access_Terms
  imports Admin
begin

text \<open>
  The access engine beside the state. The engine decides who enters, the state says who may; the gateway keeps both and
  changes them one after the other. \<open>granted\<close> reads the terms of access out of the state, \<open>held\<close> out of the engine, and
  \<open>synced\<close> says that the two agree on what is in force; here is what engine calls and transactions do to them.
\<close>

section \<open>Terms of access\<close>

type_synonym terms = "string \<times> string \<Rightarrow> (instant option \<times> string list) option"

definition granted :: "gw_state \<Rightarrow> terms" where
  "granted st = map_of (map (\<lambda>gr. (pair_of gr, (gr_Until gr, gr_Caps gr))) (gs_Grants st))"

definition held :: "engine \<Rightarrow> terms" where
  "held e x = (case gm_get (e_grants e) x of
     None \<Rightarrow> None
   | Some g \<Rightarrow> if g_revokedAt g = None then Some (map_option d_time (g_until g), g_caps g) else None)"

definition in_force :: "instant \<Rightarrow> terms \<Rightarrow> terms" where
  "in_force now t x = (case t x of None \<Rightarrow> None | Some (u, caps) \<Rightarrow> if live_until now u then Some (u, caps) else None)"

lemma in_force_upd:
  "in_force now (t(x := v)) = (in_force now t)(x := (case v of None \<Rightarrow> None | Some (u, caps) \<Rightarrow> if live_until now u then Some (u, caps) else None))"
  by (auto simp: in_force_def fun_eq_iff)

lemma in_force_later:
  assumes "now \<le> now'"
  shows "in_force now' t = in_force now' (in_force now t)"
  using assms by (auto simp: in_force_def live_until_def fun_eq_iff split: option.split)

section \<open>The engine's side\<close>

lemma held_put: "held (e\<lparr>e_grants := gm_put x g (e_grants e)\<rparr>) =
    (held e)(x := if g_revokedAt g = None then Some (map_option d_time (g_until g), g_caps g) else None)"
  by (auto simp: held_def fun_eq_iff)

lemma held_cong: "e_grants e = e_grants e' \<Longrightarrow> held e = held e'"
  by (simp add: held_def fun_eq_iff)

lemma held_kill: "held (fst (killLocked e is cause)) = held e"
  by (rule held_cong) simp

lemma held_revoke:
  assumes "RevokeBecause e p m now cause = (e', notes, r)"
  shows "held e' = (held e)((p, m) := None)"
proof (cases "gm_get (e_grants e) (p, m)")
  case None
  then have "e' = e" "held e (p, m) = None" using assms by (auto simp: RevokeBecause_def held_def)
  then show ?thesis by (simp add: fun_upd_idem)
next
  case (Some g)
  let ?g = "if g_revokedAt g = None then g\<lparr>g_revokedAt := Some now\<rparr> else g"
  let ?e = "e\<lparr>e_grants := gm_put (p, m) ?g (e_grants e)\<rparr>"
  let ?ids = "map fst (filter (\<lambda>(i, ls). s_person (ls_session ls) = p \<and> s_machine (ls_session ls) = m) (e_sessions ?e))"
  from assms Some have "e' = fst (killLocked ?e ?ids cause)"
    by (simp add: RevokeBecause_def Let_def case_prod_beta)
  then have "held e' = held ?e" by (simp only: held_kill)
  then show ?thesis by (simp only: held_put) auto
qed

lemma gw_revoke_held: "gw_revoke g p m now cause = (g', r) \<Longrightarrow> held (gw_aclE g') = (held (gw_aclE g))((p, m) := None) \<and> gw_store g' = gw_store g"
  by (auto simp: gw_revoke_def dest: held_revoke split: prod.splits)

lemma revoke_never_fails: "gw_revoke g p m now cause = (g', r) \<Longrightarrow> \<exists>n. killed_by r = Inr n"
  by (auto simp: gw_revoke_def RevokeBecause_def killed_by_def Let_def split: prod.splits option.splits)

text \<open>What the engine accepts: the conditions of \<open>validateGrant\<close> on terms in force.\<close>

definition good_terms :: "string \<Rightarrow> string \<Rightarrow> string list \<Rightarrow> bool" where
  "good_terms p m caps \<longleftrightarrow> p \<noteq> '''' \<and> m \<noteq> '''' \<and> caps \<in> {[''shell''], [''exec'']}"

lemma add_accepts:
  assumes "0 \<le> now" "good_terms p m caps"
  shows "AddGrant e (utc_grant p m u caps) now =
    (if live_until now u then (e\<lparr>e_grants := gm_put (p, m) (utc_grant p m u caps) (e_grants e)\<rparr>, None)
     else (e, snd (AddGrant e (utc_grant p m u caps) now)))"
  using assms by (auto simp: AddGrant_def validateGrant_def utc_grant_def good_terms_def live_until_def IsUntilZero_def isZero_def Let_def
      split: option.split)

lemma utc_terms:
  "map_option d_time (g_until (utc_grant p m u caps)) = u" "g_caps (utc_grant p m u caps) = caps" "g_revokedAt (utc_grant p m u caps) = None"
  "g_person (utc_grant p m u caps) = p" "g_machine (utc_grant p m u caps) = m"
  by (simp_all add: utc_grant_def option.map_comp comp_def option.map_ident)

lemma gw_add_held:
  assumes "gw_add_grant g p m u caps now = (g', err)" "0 \<le> now" "good_terms p m caps"
  shows "gw_store g' = gw_store g \<and> held (gw_aclE g') = (if live_until now u then (held (gw_aclE g))((p, m) \<mapsto> (u, caps)) else held (gw_aclE g)) \<and>
    (live_until now u \<longrightarrow> err = None)"
proof (cases "live_until now u")
  case True
  have "AddGrant (gw_aclE g) (utc_grant p m u caps) now = ((gw_aclE g)\<lparr>e_grants := gm_put (p, m) (utc_grant p m u caps) (e_grants (gw_aclE g))\<rparr>, None)"
    using add_accepts [OF assms(2,3), of "gw_aclE g" u] True by simp
  with assms(1) True show ?thesis by (auto simp: gw_add_grant_def held_put utc_terms)
next
  case False
  have "fst (AddGrant (gw_aclE g) (utc_grant p m u caps) now) = gw_aclE g"
    using add_accepts [OF assms(2,3), of "gw_aclE g" u] False by (metis fst_conv)
  with assms(1) False show ?thesis by (auto simp: gw_add_grant_def split: prod.splits)
qed

lemma revoke_all_held:
  "held (gw_aclE (fst (revoke_all g now revs))) =
    (\<lambda>x. if x \<in> (\<lambda>rv. (rv_Person rv, rv_Machine rv)) ` set revs then None else held (gw_aclE g) x)"
proof (induction revs arbitrary: g)
  case (Cons rv revs)
  obtain e ns k where rb: "RevokeBecause (gw_aclE g) (rv_Person rv) (rv_Machine rv) now DenyGrantRevoked = (e, ns, k)"
    using prod_cases3 by blast
  from held_revoke [OF rb] Cons show ?case by (auto simp: rb case_prod_beta)
qed simp

section \<open>The state's side\<close>

text \<open>What the commands need of the state they change, and what a committed transaction leaves.\<close>

definition sound_state :: "gw_state \<Rightarrow> bool" where
  "sound_state st \<longleftrightarrow> distinct (map pair_of (gs_Grants st)) \<and> distinct (map mc_ID (gs_Machines st)) \<and>
     (\<forall>p \<in> set (gs_People st). pe_Name p \<noteq> '''') \<and> (\<forall>m \<in> set (gs_Machines st). mc_ID m \<noteq> '''') \<and>
     (\<forall>gr \<in> set (gs_Grants st). gr_Person gr \<in> pe_Name ` set (gs_People st) \<and> gr_Machine gr \<in> mc_ID ` set (gs_Machines st) \<and> wf_grant st gr)"

lemma wf_state_sound:
  assumes "wf_state st"
  shows "sound_state st"
proof -
  have ids: "\<forall>p \<in> set (gs_People st). wf_person p" "\<forall>m \<in> set (gs_Machines st). wf_machine m" "distinct (map mc_ID (gs_Machines st))"
    using assms by (simp_all add: wf_state_def wf_ids_def)
  have "distinct (map pair_of (gs_Grants st))"
    "\<forall>gr \<in> set (gs_Grants st). refers st (gr_Person gr) (gr_Machine gr) \<and> wf_grant st gr"
    using assms by (simp_all add: wf_state_def wf_refs_def)
  moreover have "\<forall>p \<in> set (gs_People st). pe_Name p \<noteq> ''''" using ids(1) nameRe_bounds unfolding wf_person_def by blast
  moreover have "\<forall>m \<in> set (gs_Machines st). mc_ID m \<noteq> ''''" using ids(2) nameRe_bounds unfolding wf_machine_def by blast
  ultimately show ?thesis using ids(3) unfolding sound_state_def refers_def by blast
qed

lemma sound_defaults [simp]: "sound_state (applyMachineDefaults st) = sound_state st"
  by (simp add: sound_state_def wf_grant_def image_image comp_def)

lemma granted_defaults [simp]: "granted (applyMachineDefaults st) = granted st"
  by (simp add: granted_def)

lemma reconcile_keeps_terms:
  "reconcile_grant prev d gr = Inl gr' \<Longrightarrow> pair_of gr' = pair_of gr \<and> gr_Until gr' = gr_Until gr \<and> gr_Caps gr' = gr_Caps gr"
  by (auto simp: reconcile_grant_def Let_def split: option.splits if_splits)

lemma map_of_filter_key: "map_of (filter (\<lambda>x. P (fst x)) xs) k = (if P k then map_of xs k else None)"
  by (induction xs) auto

definition cast_off :: "gw_state \<Rightarrow> gw_state \<Rightarrow> string \<times> string \<Rightarrow> bool" where
  "cast_off prev d x \<longleftrightarrow> (\<exists>old \<in> set (gs_Grants prev). pair_of old = x \<and> (fst x \<notin> pe_Name ` set (gs_People d) \<or>
     \<not> (\<exists>m \<in> set (gs_Machines d). mc_ID m = snd x \<and> fp_of (mc_MachineKey m) = gr_MachineKeyFingerprint old)))"

lemma doomed_cast_off: "doomed prev d gr \<longleftrightarrow> cast_off prev d (pair_of gr)"
  by (auto simp: doomed_def cast_off_def existing_def)

lemma reconciled_terms:
  assumes "distinct (map pair_of (gs_Grants prev))" "distinct (map mc_ID (gs_Machines d))"
  shows "granted (fst (reconcileGrants prev d)) = (\<lambda>x. if cast_off prev d x then None else granted d x)"
    "(\<lambda>rv. (rv_Person rv, rv_Machine rv)) ` set (snd (reconcileGrants prev d)) = {x \<in> dom (granted d). cast_off prev d x}"
proof -
  let ?t = "\<lambda>gr. (pair_of gr, (gr_Until gr, gr_Caps gr))"
  have one: "map ?t (case reconcile_grant prev d gr of Inl a \<Rightarrow> [a] | Inr _ \<Rightarrow> []) = filter (\<lambda>x. \<not> cast_off prev d (fst x)) [?t gr]" for gr
  proof (cases "doomed prev d gr")
    case True
    then show ?thesis using reconcile_grant_spec [OF assms, of gr] by (auto simp: doomed_cast_off)
  next
    case False
    with reconcile_grant_spec [OF assms, of gr] obtain gr' where gr': "reconcile_grant prev d gr = Inl gr'" by blast
    with False reconcile_keeps_terms [OF gr'] show ?thesis by (simp add: doomed_cast_off)
  qed
  have "map ?t (concat (map (\<lambda>gr. case reconcile_grant prev d gr of Inl a \<Rightarrow> [a] | Inr _ \<Rightarrow> []) grs)) =
      filter (\<lambda>x. \<not> cast_off prev d (fst x)) (map ?t grs)" for grs
  proof (induction grs)
    case (Cons gr grs)
    with one [of gr] show ?case by (simp split: if_splits)
  qed simp
  then have "map ?t (gs_Grants (fst (reconcileGrants prev d))) = filter (\<lambda>x. \<not> cast_off prev d (fst x)) (map ?t (gs_Grants d))"
    by (simp add: reconcileGrants_def partition_sum_eq comp_def)
  then show "granted (fst (reconcileGrants prev d)) = (\<lambda>x. if cast_off prev d x then None else granted d x)"
    unfolding granted_def by (simp add: map_of_filter_key [of "\<lambda>x. \<not> cast_off prev d x"] fun_eq_iff)
  have "(\<lambda>rv. (rv_Person rv, rv_Machine rv)) ` set (snd (reconcileGrants prev d)) =
      (\<lambda>(p, m, w). (p, m)) ` set (map (\<lambda>r. (rv_Person r, rv_Machine r, rv_Reason r)) (snd (reconcileGrants prev d)))"
    by (simp add: image_image)
  also have "\<dots> = pair_of ` set (filter (doomed prev d) (gs_Grants d))"
    unfolding reconcileGrants_spec(2) [OF assms] by (simp add: image_image)
  also have "\<dots> = {x \<in> dom (granted d). cast_off prev d x}"
    by (auto simp: granted_def doomed_cast_off dom_map_of_conv_image_fst image_image)
  finally show "(\<lambda>rv. (rv_Person rv, rv_Machine rv)) ` set (snd (reconcileGrants prev d)) = {x \<in> dom (granted d). cast_off prev d x}" .
qed

section \<open>In step\<close>

definition due_pairs :: "gateway \<Rightarrow> (string \<times> string) set" where
  "due_pairs g = (\<lambda>rv. (rv_Person rv, rv_Machine rv)) ` set (so_revocations (gw_store g))"

text \<open>
  The engine agrees with the state on what is in force, except for pairs whose revocation is still to be carried out,
  which the state no longer grants.
\<close>

definition in_step :: "instant \<Rightarrow> gateway \<Rightarrow> bool" where
  "in_step now g \<longleftrightarrow> sound_state (st_of g) \<and>
     (\<forall>x. if x \<in> due_pairs g then granted (st_of g) x = None
          else in_force now (held (gw_aclE g)) x = in_force now (granted (st_of g)) x)"

definition synced :: "instant \<Rightarrow> gateway \<Rightarrow> bool" where
  "synced now g \<longleftrightarrow> sound_state (st_of g) \<and> so_revocations (gw_store g) = [] \<and>
     in_force now (held (gw_aclE g)) = in_force now (granted (st_of g))"

lemma synced_in_step: "synced now g \<longleftrightarrow> in_step now g \<and> so_revocations (gw_store g) = []"
  by (auto simp: synced_def in_step_def due_pairs_def)

lemma synced_cong:
  assumes "gw_store g' = gw_store g" "held (gw_aclE g') = held (gw_aclE g)"
  shows "synced now g' = synced now g" "in_step now g' = in_step now g"
  using assms by (simp_all add: synced_def in_step_def due_pairs_def)

lemma in_step_drain:
  assumes "in_step now g" "applyRevocations g now = (g', n)"
  shows "synced now g'"
proof -
  let ?g = "g\<lparr>gw_store := (gw_store g)\<lparr>so_revocations := []\<rparr>\<rparr>"
  have r: "g' = fst (revoke_all ?g now (so_revocations (gw_store g)))"
    using assms(2) by (simp add: applyRevocations_def DrainRevocations_def)
  have h: "held (gw_aclE g') x = (if x \<in> due_pairs g then None else held (gw_aclE g) x)" for x
    unfolding r revoke_all_held by (simp add: due_pairs_def)
  have "gw_store g' = (gw_store g)\<lparr>so_revocations := []\<rparr>" by (simp add: r)
  moreover have "in_force now (held (gw_aclE g')) x = in_force now (granted (st_of g)) x" for x
  proof -
    have "if x \<in> due_pairs g then granted (st_of g) x = None else in_force now (held (gw_aclE g)) x = in_force now (granted (st_of g)) x"
      using assms(1) unfolding in_step_def by blast
    then show ?thesis by (cases "x \<in> due_pairs g") (simp_all add: in_force_def h)
  qed
  ultimately show ?thesis using assms(1) by (simp add: synced_def in_step_def fun_eq_iff)
qed

definition calm :: "gw_state \<Rightarrow> gw_state \<Rightarrow> bool" where
  "calm prev d \<longleftrightarrow> pe_Name ` set (gs_People prev) \<subseteq> pe_Name ` set (gs_People d) \<and>
     (\<forall>m \<in> set (gs_Machines prev). \<exists>m' \<in> set (gs_Machines d). mc_ID m' = mc_ID m \<and> mc_MachineKey m' = mc_MachineKey m)"

lemma calm_loses_nothing:
  assumes "sound_state prev" "calm prev d"
  shows "\<not> cast_off prev d x"
proof
  assume "cast_off prev d x"
  then obtain old where old: "old \<in> set (gs_Grants prev)" "pair_of old = x"
    "fst x \<notin> pe_Name ` set (gs_People d) \<or> \<not> (\<exists>m \<in> set (gs_Machines d). mc_ID m = snd x \<and> fp_of (mc_MachineKey m) = gr_MachineKeyFingerprint old)"
    by (auto simp: cast_off_def)
  from assms(1) old(1) obtain m where "gr_Person old \<in> pe_Name ` set (gs_People prev)" "m \<in> set (gs_Machines prev)"
    "mc_ID m = gr_Machine old" "fp_of (mc_MachineKey m) = gr_MachineKeyFingerprint old"
    by (auto simp: sound_state_def wf_grant_def)
  with assms(2) old(2,3) show False unfolding calm_def by (metis fst_conv snd_conv subsetD)
qed

lemma txn_synced:
  assumes "gw_txn c i fn g = (g', r)" "synced now g"
  obtains (committed) d x where "r = TxDone x" "fn (st_of g) = Inr (d, x)" "gw_aclE g' = gw_aclE g" "sound_state (st_of g')"
      "granted (st_of g') = (\<lambda>x. if cast_off (st_of g) d x then None else granted d x)"
      "due_pairs g' = {x \<in> dom (granted d). cast_off (st_of g) d x}"
  | (still) "\<And>x. r \<noteq> TxDone x" "synced now g'" "st_of g' = st_of g"
  using assms(1)
proof (cases rule: gw_txn_cases)
  case (committed d x s)
  have wf: "sound_state (final_draft (st_of g) d)" using committed(4) by (rule wf_state_sound)
  have dist: "distinct (map pair_of (gs_Grants (st_of g)))" "distinct (map mc_ID (gs_Machines d))"
    using assms(2) wf by (simp_all add: synced_def sound_state_def)
  have "granted (final_draft (st_of g) d) = granted (fst (reconcileGrants (st_of g) d))" by (simp add: granted_def)
  then show thesis
    using committed wf reconciled_terms [OF dist] assms(2)
    by (intro that(1)) (simp_all add: synced_def due_pairs_def)
next
  case (refused e s)
  with assms(2) show thesis by (intro that(2)) (simp_all add: synced_def)
next
  case (failed err s)
  with assms(2) show thesis by (intro that(2)) (simp_all add: synced_def)
qed

lemma txn_failed:
  "gw_txn c i fn g = (g', TxRefused e) \<Longrightarrow> synced now g \<Longrightarrow> synced now g'"
  "gw_txn c i fn g = (g', TxFailed f) \<Longrightarrow> synced now g \<Longrightarrow> synced now g'"
  by (auto elim!: txn_synced)

lemma txn_not_done: "gw_txn c i fn g = (g', r) \<Longrightarrow> synced now g \<Longrightarrow> (\<And>x. r \<noteq> TxDone x) \<Longrightarrow> synced now g'"
  by (cases r) (auto dest: txn_failed)

lemma txn_neutral:
  assumes "gw_txn c i fn g = (g', r)" "synced now g"
    "\<And>d x. fn (st_of g) = Inr (d, x) \<Longrightarrow> calm (st_of g) d \<and> gs_Grants d = gs_Grants (st_of g)"
  shows "synced now g'"
  using assms(1,2)
proof (cases rule: txn_synced)
  case (committed d x)
  have "\<not> cast_off (st_of g) d y" for y
    using assms(3) [OF committed(2)] assms(2) calm_loses_nothing by (auto simp: synced_def)
  moreover have "granted d = granted (st_of g)" using assms(3) [OF committed(2)] by (simp add: granted_def)
  ultimately show ?thesis using committed assms(2) by (simp add: synced_def due_pairs_def)
qed

lemma txn_dropping:
  assumes "gw_txn c i fn g = (g', TxDone y)" "synced now g" "\<And>d x. fn (st_of g) = Inr (d, x) \<Longrightarrow> gs_Grants d = gs_Grants (st_of g)"
  shows "in_step now g'"
  using assms(1,2)
proof (cases rule: txn_synced)
  case (committed d x)
  from assms(3) [OF committed(2)] have "granted d = granted (st_of g)" by (simp add: granted_def)
  with committed assms(2) show ?thesis by (auto simp: synced_def in_step_def in_force_def split: option.splits)
qed blast

end
