(* ===== verification/Demo_Gateway.thy ===== *)
theory Demo_Gateway
  imports Onboarding
begin

text \<open>
  A gateway small enough to compute with, on which the properties of the roles and of the commands are shown to have
  their hypotheses met, and the rule by which a transaction on it commits.
\<close>

lemma gw_txn_runs:
  assumes "\<not> so_readOnly (gw_store g)" "fn (st_of g) = Inr (d, x)" "checkFreshDoorDeadlines (st_of g) d (si_now i)"
    "wf_state (final_draft (st_of g) d)" "cf_enc c (applyMachineDefaults (final_draft (st_of g) d)) \<noteq> None" "si_save i = SaveDone"
  shows "\<exists>s. gw_txn c i fn g = (g\<lparr>gw_store := s\<rparr>, TxDone x)"
proof -
  let ?f = "\<lambda>st. case fn st of Inl _ \<Rightarrow> None | Inr (d, _) \<Rightarrow> Some d"
  have "?f (st_of g) = Some d" using assms(2) by simp
  from update_runs [where fn = ?f and enc = "cf_enc c", OF assms(1) this assms(3-6)] obtain t where "Update (cf_enc c) i ?f (gw_store g) = (t, None)" by blast
  with assms(2) show ?thesis by (intro exI [of _ t]) (simp add: gw_txn_def update_txn_def)
qed

definition demo_cfg :: gw_config where
  "demo_cfg = \<lparr>cf_enc = demo_senc, cf_fmt = (\<lambda>_. ''T''), cf_ParseRFC3339 = (\<lambda>_. None), cf_ParseAuthorizedKey = (\<lambda>_. Some (''ssh-ed25519'', None)),
     cf_SplitHostPort = (\<lambda>_. None), cf_ParseAddr = (\<lambda>_. None), cf_enrolSigner = (\<lambda>_. None),
     cf_ScrubCommand = (\<lambda>s. s), cf_AuthSuccessQuiet = 600, cf_PINDigits = 2, cf_WindowTTL = 120\<rparr>"

definition demo_gateway :: "gw_state \<Rightarrow> gateway" where
  "demo_gateway st = \<lparr>gw_store = demo_store st ''A'',
     gw_aclE = \<lparr>e_limits = \<lparr>PerPerson = 0, PerMachine = 0\<rparr>, e_grants = [], e_sessions = [], e_nextID = 0, e_perPerson = [], e_perMachine = []\<rparr>,
     gw_pairRate = \<lparr>rl_cfg = \<lparr>MaxKnownFailures = 3, MaxUnknownFailures = 3, rWindow = 60, PairBanDuration = 180, AddrBanDuration = 180\<rparr>,
       rl_pairs = [], rl_addrs = []\<rparr>,
     gw_audit = \<lparr>au_failing = False, au_since = 1, au_lastErr = '''', au_lost = 0, au_watched = []\<rparr>,
     gw_journal = [], gw_answers = [], gw_now = 1, gw_enrolHMAC = [1], gw_reg = [], gw_keyConns = [], gw_effects = [],
     gw_authQuiet = [], gw_authDeny = []\<rparr>"

definition demo_hash :: "string \<Rightarrow> byte list" where
  "demo_hash secret = the (HashEnrolSecret [1] (bytes_of secret))"

lemma demo_hash: "HashEnrolSecret [1] (bytes_of secret) = Some (demo_hash secret)" "length (demo_hash secret) = 32"
  by (simp_all add: demo_hash_def HashEnrolSecret_def length_sha256)

lemma demo_fp: "ComputeFingerprint demo_pub = Inr (fp_of demo_pub)"
  using material_fp [OF demo_key_ok] by simp

lemma demo_admin_ok: "wf_state (NewState\<lparr>gs_People := [new_admin ''admin'' (fp_of demo_pub) demo_pub 1]\<rparr>)"
proof -
  have "nameRe ''admin''" by code_simp
  then show ?thesis
    by (simp add: NewState_def wf_state_def wf_ids_def wf_refs_def wf_person_def new_admin_def wf_key_def demo_key_ok all_fps_def)
qed

lemma no_doors_fresh: "gs_Machines d = [] \<Longrightarrow> checkFreshDoorDeadlines s d now"
  by (simp add: checkFreshDoorDeadlines_def)

lemma demo_final: "gs_Grants d = [] \<Longrightarrow> gs_Goals d = [] \<Longrightarrow> gs_CommandHistory d = [] \<Longrightarrow> final_draft s d = d"
  by (simp add: final_draft_def reconcileGrants_def reconcileGoals_def reconcileRecentCommands_def)

lemma demo_parts [simp]:
  "gw_store (demo_gateway st) = demo_store st ''A''" "gw_enrolHMAC (demo_gateway st) = [1]"
  "so_state (demo_store st a) = st" "\<not> so_readOnly (demo_store st a)" "cf_enc demo_cfg st \<noteq> None" "si_save demo_sin = SaveDone"
  "cf_PINDigits demo_cfg = 2" "peerHost demo_cfg = (\<lambda>a. a)"
  by (simp_all add: demo_gateway_def demo_store_def demo_cfg_def demo_senc_def demo_sin_def peerHost_def fun_eq_iff)

end
