(* ===== verification/Admin_Safety.thy ===== *)
theory Admin_Safety
  imports Admin Demo_Gateway
begin

text \<open>
  What the dispatcher promises whatever a command does (authority, and no "ok" off the record), and what single commands
  promise about administrators, keys and host keys.
\<close>

section \<open>Authority\<close>

definition spec_of :: "request \<Rightarrow> commandSpec" where
  "spec_of rq = the (gm_get commandTable (request_command rq))"

definition modelled :: "string list" where
  "modelled = [''people.add'', ''people.remove'', ''people.rename'', ''people.list'', ''people.keys.add'', ''people.keys.remove'',
     ''pairing.start'', ''pairing.stop'', ''machines.remove'', ''machines.rename'', ''machines.set-user'', ''machines.rekey'',
     ''machines.enrol-code'', ''grants.grant'', ''grants.revoke'', ''grants.set-caps'', ''grants.extend'', ''grants.list'',
     ''sessions.kill'', ''goal.set'', ''goal.current'', ''goal.history'', ''goal.list'']"

definition reading_commands :: "string list" where
  "reading_commands = [''people.list'', ''grants.list'', ''goal.current'', ''goal.history'', ''goal.list'']"

lemma request_modelled: "request_command rq \<in> set modelled"
  by (cases rq) (simp_all add: modelled_def)

lemma modelled_table:
  assumes "n \<in> set modelled"
  shows "\<exists>sp. gm_get commandTable n = Some sp \<and> cs_adminOnly sp \<and> cs_auditOps sp = [] \<and>
    (cs_readOnly sp \<longleftrightarrow> n \<in> set reading_commands) \<and> cut_colon (n @ '':ok'') = Some (n, ''ok'') \<and> n \<noteq> ''''"
proof -
  have "list_all (\<lambda>n. case gm_get commandTable n of None \<Rightarrow> False | Some sp \<Rightarrow> cs_adminOnly sp \<and> cs_auditOps sp = [] \<and>
    (cs_readOnly sp \<longleftrightarrow> n \<in> set reading_commands) \<and> cut_colon (n @ '':ok'') = Some (n, ''ok'') \<and> n \<noteq> '''') modelled"
    by code_simp
  with assms show ?thesis by (auto simp: list_all_iff split: option.splits)
qed

lemma table_spec: "gm_get commandTable (request_command rq) = Some (spec_of rq)"
  using modelled_table [OF request_modelled [of rq]] by (auto simp: spec_of_def)

lemma spec_of_fields:
  "cs_adminOnly (spec_of rq)" "cs_auditOps (spec_of rq) = []"
  "cs_readOnly (spec_of rq) \<longleftrightarrow> request_command rq \<in> set reading_commands"
  using modelled_table [OF request_modelled [of rq]] by (auto simp: spec_of_def)

lemma op_of_line: "adminOpOf (mk_event EventAdminOp a ob (request_command rq @ '':ok'') d) = request_command rq"
  "request_command rq \<noteq> ''''"
  using modelled_table [OF request_modelled [of rq]] by (auto simp: adminOpOf_def mk_event_def)

lemma reading_run:
  assumes "request_command rq \<in> set reading_commands"
  shows "fst (run_request c i person now rq g) = g"
  using assms
  by (cases rq) (simp_all add: reading_commands_def cmdPeopleList_def cmdGrantsList_def cmdGoalCurrent_def cmdGoalHistory_def
      cmdGoalList_def with_goal_pair_def with_request_def split: option.split sum.split)

lemma run_admin_eq:
  "run_admin c i person rq g =
    (if personRoleOf (st_of g) person \<noteq> Some ''admin'' then (g, Inl (errf ''E_EXEC_UNKNOWN'' 2))
     else if request_command rq \<in> set reading_commands then finish_run (run_request c i person (gw_now g) rq g)
     else if au_failing (gw_audit g) then (g, Inl (errf ''E_AUDIT_UNAVAILABLE'' 1))
     else (case watchCmd (gw_audit g) person [request_command rq] of (h, w) \<Rightarrow>
       (case finish_run (run_request c i person (gw_now g) rq (g\<lparr>gw_audit := h\<rparr>)) of
          (g', Inr res) \<Rightarrow> if lostSince (gw_audit g') w then (g', Inl auditLost) else (g', Inr res)
        | (g', Inl err) \<Rightarrow> (g', Inl err))))"
  by (simp add: run_admin_def runCommand_def table_spec spec_of_fields ownRecords_def auditRefusal_def audit_snapshot_def)

lemma finish_run_fst [simp]: "fst (finish_run r) = fst r"
  by (simp add: finish_run_def split: prod.split option.split)

lemma finish_run_Inr: "finish_run r = (g, Inr a) \<longleftrightarrow> r = (g, Some (Inr a))"
  by (auto simp: finish_run_def split: prod.splits option.splits)

lemma run_admin_cases:
  assumes "run_admin c i person rq g = (g', r)"
  obtains (stranger) "personRoleOf (st_of g) person \<noteq> Some ''admin''" "g' = g" "r = Inl (errf ''E_EXEC_UNKNOWN'' 2)"
  | (still) "g' = g" "personRoleOf (st_of g) person = Some ''admin''"
      "r = Inl (errf ''E_AUDIT_UNAVAILABLE'' 1) \<and> au_failing (gw_audit g) \<or> cs_readOnly (spec_of rq)"
  | (ran) h w where "personRoleOf (st_of g) person = Some ''admin''" "\<not> au_failing (gw_audit g)" "\<not> cs_readOnly (spec_of rq)"
      "watchCmd (gw_audit g) person [request_command rq] = (h, w)"
      "g' = fst (run_request c i person (gw_now g) rq (g\<lparr>gw_audit := h\<rparr>))"
      "\<And>a. r = Inr a \<Longrightarrow> run_request c i person (gw_now g) rq (g\<lparr>gw_audit := h\<rparr>) = (g', Some (Inr a)) \<and> \<not> lostSince (gw_audit g') w"
proof (cases "personRoleOf (st_of g) person = Some ''admin'' \<and> request_command rq \<notin> set reading_commands \<and> \<not> au_failing (gw_audit g)")
  case True
  obtain h w where w: "watchCmd (gw_audit g) person [request_command rq] = (h, w)" by force
  obtain g1 r1 where r1: "finish_run (run_request c i person (gw_now g) rq (g\<lparr>gw_audit := h\<rparr>)) = (g1, r1)" by force
  have "(case r1 of Inr res \<Rightarrow> if lostSince (gw_audit g1) w then (g1, Inl auditLost) else (g1, Inr res) | Inl err \<Rightarrow> (g1, Inl err)) = (g', r)"
    using assms True w r1 by (simp add: run_admin_eq)
  then have "g' = g1" "r = Inr a \<Longrightarrow> r1 = Inr a \<and> \<not> lostSince (gw_audit g') w" for a
    by (auto split: sum.splits if_splits)
  moreover have "g1 = fst (run_request c i person (gw_now g) rq (g\<lparr>gw_audit := h\<rparr>))" using r1 finish_run_fst by (metis fst_conv)
  ultimately show thesis using True w r1 by (intro ran [of h w]) (auto simp: spec_of_fields finish_run_Inr)
next
  case False
  have "g1 = g" if "request_command rq \<in> set reading_commands" "finish_run (run_request c i person (gw_now g) rq g) = (g1, r1)" for g1 r1
    using reading_run [OF that(1), of c i person "gw_now g" g] that(2) finish_run_fst by (metis fst_conv)
  with False assms stranger still show thesis by (auto simp: run_admin_eq spec_of_fields split: if_splits)
qed


section \<open>No command answers ok off the record\<close>

definition own_record :: "string \<Rightarrow> string \<Rightarrow> event \<Rightarrow> bool" where
  "own_record person op e \<longleftrightarrow> ev_Actor e = person \<and> adminOpOf e = op"

lemma own_record_time [simp]: "own_record person op (e\<lparr>ev_Time := t\<rparr>) = own_record person op e"
  by (simp add: own_record_def adminOpOf_def)

text \<open>
  What the dispatcher relies on: a command that succeeds has written through \<open>appendEvent\<close>, its own lines satisfying
  \<open>lines\<close>; what it promises: an answer "ok" means those lines are in the journal.
\<close>

locale audited_command =
  fixes run :: "gateway \<Rightarrow> result" and person :: string and op :: string and lines :: "answer \<Rightarrow> event list \<Rightarrow> bool"
  assumes own_lines: "run g = (g', Some (Inr a)) \<Longrightarrow>
      \<exists>es. audit_of g' = audit_of (append_all g es) \<and> lines a (filter (own_record person op) es)"
    and op_named: "op \<noteq> ''''"
begin

lemma success_on_record:
  assumes "watchCmd (gw_audit g) person [op] = (h, w)" "run (g\<lparr>gw_audit := h\<rparr>) = (g', Some (Inr a))" "\<not> lostSince (gw_audit g') w"
  shows "\<exists>new es. gw_journal g' = gw_journal g @ new \<and> lines a es \<and> filter (own_record person op) new = map (stamped g) es"
proof -
  let ?k = "auditWatchKey person op" and ?g = "g\<lparr>gw_audit := h\<rparr>"
  have h: "h = (gw_audit g)\<lparr>au_watched := watch_key ?k (au_watched (gw_audit g))\<rparr>" "w = [(?k, watched_count h ?k)]"
    using assms(1) by (auto simp: watchCmd_def Let_def)
  have watched: "gm_get (au_watched (gw_audit ?g)) ?k \<noteq> None" by (simp add: h get_watch_key)
  from own_lines [OF assms(2)] obtain es where es: "audit_of g' = audit_of (append_all ?g es)"
    "lines a (filter (own_record person op) es)" by blast
  have own_counts: "own_record person op e \<Longrightarrow> counts_for ?k e" for e
    using op_named by (auto simp: own_record_def counts_for_def)
  have kept: "\<not> watched_count (gw_audit g') ?k > watched_count (gw_audit ?g) ?k"
    using assms(3) by (simp add: h(2) lostSince_def)
  obtain new where "gw_journal (append_all ?g es) = gw_journal ?g @ new"
    "watched_count (gw_audit (append_all ?g es)) ?k \<ge> watched_count (gw_audit ?g) ?k"
    "watched_count (gw_audit (append_all ?g es)) ?k = watched_count (gw_audit ?g) ?k \<longrightarrow>
      filter (own_record person op) new = map (stamped ?g) (filter (own_record person op) es)"
    using append_all_record [OF watched, of "own_record person op" es] own_counts by auto
  moreover have "stamped ?g = stamped g" by (simp add: stamped_def fun_eq_iff)
  moreover have "gw_audit g' = gw_audit (append_all ?g es)" "gw_journal g' = gw_journal (append_all ?g es)"
    using es(1) by (simp_all add: audit_of_def)
  ultimately show ?thesis using kept es(2) by (intro exI [of _ new] exI [of _ "filter (own_record person op) es"]) (auto simp: le_antisym)
qed

end

text \<open>The line of a command that did its work, and the two answers that say there was nothing to do.\<close>

definition ok_line :: "string \<Rightarrow> string \<Rightarrow> event \<Rightarrow> bool" where
  "ok_line person op e \<longleftrightarrow> ev_Type e = EventAdminOp \<and> ev_Actor e = person \<and> ev_Result e = op @ '':ok''"

definition nothing_to_do :: "answer \<Rightarrow> bool" where
  "nothing_to_do a \<longleftrightarrow> (\<exists>caps was. a = AnsCaps caps was 0 \<and> was = hd caps) \<or> a = AnsExtended None None 0"

definition one_ok_line :: "string \<Rightarrow> string \<Rightarrow> answer \<Rightarrow> event list \<Rightarrow> bool" where
  "one_ok_line person op a es \<longleftrightarrow> (\<exists>e. es = [e] \<and> ok_line person op e) \<or> nothing_to_do a \<and> es = []"

text \<open>What a command does before its own line: writes, if any, that are no operation of an administrator.\<close>

definition quietly :: "gateway \<Rightarrow> gateway \<Rightarrow> bool" where
  "quietly g g' \<longleftrightarrow> (\<exists>es. audit_of g' = audit_of (append_all g es) \<and> (\<forall>e \<in> set es. adminOpOf e = ''''))"

lemma quietly_audit: "audit_of g' = audit_of g \<Longrightarrow> quietly g g'"
  unfolding quietly_def by (intro exI [of _ "[]"]) simp

lemma quietly_trans: "quietly g g1 \<Longrightarrow> quietly g1 g2 \<Longrightarrow> quietly g g2"
  unfolding quietly_def by (metis append_all_append audit_of_append_all set_append UnE)

lemma quietly_fields [simp]:
  "quietly g g" "quietly g (g1\<lparr>gw_effects := ef\<rparr>) = quietly g g1" "quietly g (g1\<lparr>gw_aclE := e\<rparr>) = quietly g g1"
  "quietly g (g1\<lparr>gw_store := s\<rparr>) = quietly g g1"
  by (simp_all add: quietly_audit) (simp_all add: quietly_def)

lemma quietly_txn: "gw_txn c i fn g = (g', r) \<Longrightarrow> quietly g g'"
  by (simp add: audit_of_txn quietly_audit)

lemma quietly_revoke: "gw_revoke g1 p m now cause = (g2, r) \<Longrightarrow> quietly g g2 = quietly g g1"
  by (auto simp: gw_revoke_def split: prod.splits)

lemma quietly_add: "gw_add_grant g1 p m u caps now = (g2, r) \<Longrightarrow> quietly g g2 = quietly g g1"
  by (auto simp: gw_add_grant_def split: prod.splits)

lemma quietly_kill: "gw_kill g1 i now cause = (g2, r) \<Longrightarrow> quietly g g2 = quietly g g1"
  by (auto simp: gw_kill_def split: prod.splits)

lemma quietly_kill_machine: "quietly g (kill_machine g1 m now) = quietly g g1"
proof -
  have "quietly g (foldl (\<lambda>g s. fst (gw_kill g (s_id s) now DenyMachineUnverified)) g1 ss) = quietly g g1" for ss
    by (induction ss arbitrary: g1) (simp_all add: quietly_kill [OF surjective_pairing])
  then show ?thesis by (simp add: kill_machine_def)
qed

lemma quietly_revoke_moved: "revoke_moved g1 name now mgs = (g2, r) \<Longrightarrow> quietly g g2 = quietly g g1"
  by (induction mgs arbitrary: g1 g2 r) (auto simp: quietly_revoke split: prod.splits sum.splits)

lemma quietly_add_moved: "add_moved g1 name now mgs = (g2, r) \<Longrightarrow> quietly g g2 = quietly g g1"
  by (induction mgs arbitrary: g1 g2 r) (auto simp: quietly_add split: prod.splits option.splits)

lemma quietly_applyRevocations:
  assumes "applyRevocations g1 now = (g2, n)" "quietly g g1"
  shows "quietly g g2"
proof -
  obtain s revs where dr: "DrainRevocations (gw_store g1) = (s, revs)" by force
  have "quietly (g1\<lparr>gw_store := s\<rparr>) (fst (revoke_all (g1\<lparr>gw_store := s\<rparr>) now revs))"
    unfolding quietly_def using revoke_all_audit [of "g1\<lparr>gw_store := s\<rparr>" now revs] by fast
  with assms(2) quietly_trans [of g "g1\<lparr>gw_store := s\<rparr>"]
  have "quietly g (fst (revoke_all (g1\<lparr>gw_store := s\<rparr>) now revs))" by simp
  then show ?thesis using assms(1) by (simp add: applyRevocations_def dr)
qed

lemmas quietly_simps = quietly_revoke quietly_add quietly_kill quietly_kill_machine quietly_revoke_moved
  quietly_add_moved quietly_applyRevocations

definition recorded :: "string \<Rightarrow> string \<Rightarrow> gateway \<Rightarrow> result \<Rightarrow> bool" where
  "recorded person op g r \<longleftrightarrow> (\<forall>a. snd r = Some (Inr a) \<longrightarrow>
     (\<exists>es. audit_of (fst r) = audit_of (append_all g es) \<and> one_ok_line person op a (filter (own_record person op) es)))"

definition plain_op :: "string \<Rightarrow> bool" where
  "plain_op op \<longleftrightarrow> op \<noteq> '''' \<and> cut_colon (op @ '':ok'') = Some (op, ''ok'')"

lemma recorded_refusal [simp]: "recorded person op g (g', Some (Inl err))" "recorded person op g (g', None)"
  by (simp_all add: recorded_def)

lemma recorded_ok:
  assumes "plain_op op" "quietly g g1"
  shows "recorded person op g (answers (logAdminOp g1 person op ob ''ok'' d) a)"
proof -
  let ?e = "mk_event EventAdminOp person ob (op @ '':ok'') d"
  from assms(2) obtain es where es: "audit_of g1 = audit_of (append_all g es)" "\<forall>e \<in> set es. adminOpOf e = ''''"
    by (auto simp: quietly_def)
  have "audit_of (logAdminOp g1 person op ob ''ok'' d) = audit_of (append_all g (es @ [?e]))"
    using audit_of_appendEvent [OF es(1), of ?e] by (simp add: logAdminOp_def append_all_append)
  moreover have "filter (own_record person op) (es @ [?e]) = [?e]"
    using es(2) assms(1) by (auto simp: filter_empty_conv own_record_def plain_op_def adminOpOf_def mk_event_def)
  moreover have "ok_line person op ?e" by (simp add: ok_line_def mk_event_def)
  ultimately show ?thesis unfolding recorded_def one_ok_line_def by fastforce
qed

lemma recorded_nothing:
  assumes "plain_op op" "quietly g g1" "nothing_to_do a"
  shows "recorded person op g (answers g1 a)"
proof -
  from assms(2) obtain es where es: "audit_of g1 = audit_of (append_all g es)" "\<forall>e \<in> set es. adminOpOf e = ''''"
    by (auto simp: quietly_def)
  then have "filter (own_record person op) es = []" using assms(1) by (auto simp: filter_empty_conv own_record_def plain_op_def)
  with es(1) assms(3) show ?thesis by (auto simp: recorded_def one_ok_line_def)
qed

lemma recorded_with_request:
  "(\<And>req. recorded person op g (k req)) \<Longrightarrow> recorded person op g (with_request g body proto k)"
  by (simp add: with_request_def split: sum.split option.split)

lemma plain_ops:
  "plain_op ''people.add''" "plain_op ''people.remove''" "plain_op ''people.rename''" "plain_op ''people.keys.add''"
  "plain_op ''people.keys.remove''" "plain_op ''pairing.start''" "plain_op ''pairing.stop''" "plain_op ''machines.remove''"
  "plain_op ''machines.rename''" "plain_op ''machines.set-user''" "plain_op ''machines.rekey''" "plain_op ''machines.enrol-code''"
  "plain_op ''grants.grant''" "plain_op ''grants.revoke''" "plain_op ''grants.set-caps''" "plain_op ''grants.extend''"
  "plain_op ''sessions.kill''" "plain_op ''goal.set''"
  using modelled_table by (simp_all add: modelled_def plain_op_def)

lemma people_recorded:
  "recorded person ''people.add'' g (cmdPeopleAdd c i person now b1 g)"
  "recorded person ''people.remove'' g (cmdPeopleRemove c i person now b2 g)"
  "recorded person ''people.rename'' g (cmdPeopleRename c i person now b3 g)"
  "recorded person ''people.keys.add'' g (cmdPeopleKeysAdd c i person now b4 g)"
  "recorded person ''people.keys.remove'' g (cmdPeopleKeysRemove c i person b4 g)"
  by (auto simp: cmdPeopleAdd_def cmdPeopleRemove_def cmdPeopleRename_def cmdPeopleKeysAdd_def cmdPeopleKeysRemove_def Let_def
      intro!: recorded_with_request recorded_ok plain_ops
      dest!: quietly_txn simp: quietly_simps split: option.split sum.split txn.split prod.split)

lemma machines_recorded:
  "recorded person ''machines.remove'' g (cmdMachinesRemove c i person now b1 g)"
  "recorded person ''machines.rename'' g (cmdMachinesRename c i person b2 g)"
  "recorded person ''machines.set-user'' g (cmdMachinesSetUser c i person now b2 g)"
  "recorded person ''machines.rekey'' g (cmdMachinesRekey c i person b2 g)"
  "recorded person ''machines.enrol-code'' g (cmdMachinesEnrolCode c i d person now b3 g)"
  by (auto simp: cmdMachinesRemove_def cmdMachinesRename_def cmdMachinesSetUser_def cmdMachinesRekey_def cmdMachinesEnrolCode_def
      Let_def intro!: recorded_with_request recorded_ok plain_ops
      dest!: quietly_txn simp: quietly_simps split: option.split txn.split prod.split rekey_verdict.split)

lemma grants_recorded:
  "recorded person ''grants.grant'' g (cmdGrantsGrant c i person now b1 g)"
  "recorded person ''grants.revoke'' g (cmdGrantsRevoke c i person now b2 g)"
  by (auto simp: cmdGrantsGrant_def cmdGrantsRevoke_def Let_def intro!: recorded_with_request recorded_ok plain_ops
      dest!: quietly_txn simp: quietly_simps split: option.split txn.split prod.split sum.split)

lemma caps_recorded: "recorded person ''grants.set-caps'' g (cmdGrantsSetCaps c i person now b g)"
  unfolding cmdGrantsSetCaps_def
  by (rule recorded_with_request)
    (auto simp: nothing_to_do_def intro!: recorded_ok recorded_nothing plain_ops
      dest!: quietly_txn simp: quietly_simps split: option.split txn.split prod.split sum.split if_splits)

lemma extend_recorded: "recorded person ''grants.extend'' g (cmdGrantsExtend c i person now b g)"
  unfolding cmdGrantsExtend_def
  by (rule recorded_with_request)
    (auto simp: nothing_to_do_def intro!: recorded_ok recorded_nothing plain_ops
      dest!: quietly_txn simp: quietly_simps split: option.split txn.split prod.split sum.split if_splits)

lemma others_recorded:
  "recorded person ''sessions.kill'' g (cmdSessionsKill person now b1 g)"
  "recorded person ''goal.set'' g (cmdGoalSet c i person now b2 g)"
  by (auto simp: cmdSessionsKill_def cmdGoalSet_def with_goal_pair_def
      intro!: recorded_with_request recorded_ok plain_ops
      dest!: quietly_txn simp: quietly_simps split: option.split txn.split prod.split sum.split)

lemma pairing_recorded:
  "recorded person ''pairing.start'' g (as_answer f (cmdAdminPairingStart c i d person now b g))"
  "recorded person ''pairing.stop'' g (as_answer h (cmdAdminPairingStop c i person b g))"
  by (auto simp: cmdAdminPairingStart_def cmdAdminPairingStop_def as_answer_def Let_def intro!: recorded_ok plain_ops
      dest!: quietly_txn split: option.split txn.split prod.split sum.split pin_result.split)

lemma request_recorded:
  assumes "request_command rq \<notin> set reading_commands"
  shows "recorded person (request_command rq) g (run_request c i person now rq g)"
  using assms people_recorded machines_recorded grants_recorded caps_recorded extend_recorded others_recorded pairing_recorded
  by (cases rq) (simp_all add: reading_commands_def)

text \<open>A read-only command is outside the contract: it has no line. The contract holds of every other.\<close>

definition run_changing :: "gw_config \<Rightarrow> store_in \<Rightarrow> string \<Rightarrow> instant \<Rightarrow> request \<Rightarrow> gateway \<Rightarrow> result" where
  "run_changing c i person now rq g =
    (if request_command rq \<in> set reading_commands then (g, None) else run_request c i person now rq g)"

interpretation command: audited_command "run_changing c i person now rq" person "request_command rq"
  "one_ok_line person (request_command rq)" for c i person now rq
proof
  fix g g' a assume "run_changing c i person now rq g = (g', Some (Inr a))"
  then show "\<exists>es. audit_of g' = audit_of (append_all g es) \<and>
      one_ok_line person (request_command rq) a (filter (own_record person (request_command rq)) es)"
    using request_recorded [of rq person g c i now] by (auto simp: run_changing_def recorded_def split: if_splits)
qed (rule op_of_line)

text \<open>
  C15. No command answers "ok" off the record. Whatever the journal's disk does, an answer "ok" to a command that is
  not read-only means the journal could be written when it began, and the lines the command added hold, under the
  administrator's name and for that operation, exactly one line and it says "ok" - or none, and the answer is the one
  that says nothing had to change.
\<close>

theorem admin_ok_on_record:
  assumes "run_admin c i person rq g = (g', Inr a)" "\<not> cs_readOnly (spec_of rq)"
  shows "\<not> au_failing (gw_audit g) \<and> (\<exists>new. gw_journal g' = gw_journal g @ new \<and>
    ((\<exists>e. filter (own_record person (request_command rq)) new = [e] \<and> ok_line person (request_command rq) e \<and> ev_Time e = gw_now g) \<or>
     filter (own_record person (request_command rq)) new = [] \<and> nothing_to_do a))"
  using assms(1)
proof (cases rule: run_admin_cases)
  case (ran h w)
  from ran(6) [OF refl] ran(3) have r: "run_changing c i person (gw_now g) rq (g\<lparr>gw_audit := h\<rparr>) = (g', Some (Inr a))"
    by (simp add: run_changing_def spec_of_fields)
  from command.success_on_record [OF ran(4) r] ran(6) [OF refl] obtain new es where
    "gw_journal g' = gw_journal g @ new" "one_ok_line person (request_command rq) a es"
    "filter (own_record person (request_command rq)) new = map (stamped g) es" by blast
  with ran(2) show ?thesis by (auto simp: one_ok_line_def ok_line_def stamped_def)
qed (use assms in auto)

section \<open>The commands on a small gateway\<close>

definition demo_owned :: gw_state where
  "demo_owned = NewState\<lparr>gs_People := [new_admin ''admin'' (fp_of demo_pub) demo_pub 1]\<rparr>"

definition demo_stop :: request where
  "demo_stop = PairingStop (Inr \<lparr>qr_Proto = 1\<rparr>)"

lemma demo_owned_fields [simp]:
  "gs_PairingPending demo_owned = None" "personRoleOf demo_owned ''admin'' = Some ''admin''" "personRoleOf demo_owned ''eve'' = None"
  by (simp_all add: demo_owned_def NewState_def personRoleOf_def new_admin_def)

lemma demo_stop_spec [simp]: "request_command demo_stop = ''pairing.stop''" "\<not> cs_readOnly (spec_of demo_stop)"
  by (simp_all add: demo_stop_def spec_of_fields reading_commands_def)


lemma demo_stop_runs:
  "\<exists>s. cmdAdminPairingStop demo_cfg demo_sin ''admin'' (Inr \<lparr>qr_Proto = 1\<rparr>) ((demo_gateway demo_owned)\<lparr>gw_audit := h\<rparr>) =
     (logAdminOp ((demo_gateway demo_owned)\<lparr>gw_audit := h, gw_store := s\<rparr>) ''admin'' ''pairing.stop'' ''pairing'' ''ok''
        [(''stopped'', d_bool False)], Some (Inr False))"
proof -
  let ?g = "(demo_gateway demo_owned)\<lparr>gw_audit := h\<rparr>"
  let ?f = "\<lambda>st. Inr (st\<lparr>gs_PairingPending := None\<rparr>, gs_PairingPending st \<noteq> None) :: unit + gw_state \<times> bool"
  have d: "demo_owned\<lparr>gs_PairingPending := None\<rparr> = demo_owned" by (simp add: demo_owned_def NewState_def)
  have "final_draft demo_owned demo_owned = demo_owned" by (rule demo_final) (simp_all add: demo_owned_def NewState_def)
  moreover have "checkFreshDoorDeadlines demo_owned demo_owned (si_now demo_sin)" by (rule no_doors_fresh) (simp add: demo_owned_def NewState_def)
  moreover have "wf_state demo_owned" using demo_admin_ok by (simp add: demo_owned_def)
  ultimately obtain s where "gw_txn demo_cfg demo_sin ?f ?g = (?g\<lparr>gw_store := s\<rparr>, TxDone False)"
    using gw_txn_runs [of ?g ?f demo_owned False demo_sin demo_cfg] by (auto simp: d)
  then show ?thesis by (auto simp: cmdAdminPairingStop_def decodeStrict_def checkProto_def)
qed

theorem admin_ok_on_record_witness:
  "\<exists>g' e. run_admin demo_cfg demo_sin ''admin'' demo_stop (demo_gateway demo_owned) = (g', Inr (AnsStopped False)) \<and>
     filter (own_record ''admin'' ''pairing.stop'') (gw_journal g') = [e] \<and> ok_line ''admin'' ''pairing.stop'' e"
proof -
  let ?g = "demo_gateway demo_owned"
  obtain h w where w: "watchCmd (gw_audit ?g) ''admin'' [''pairing.stop''] = (h, w)" by force
  obtain s where s: "cmdAdminPairingStop demo_cfg demo_sin ''admin'' (Inr \<lparr>qr_Proto = 1\<rparr>) (?g\<lparr>gw_audit := h\<rparr>) =
     (logAdminOp (?g\<lparr>gw_audit := h, gw_store := s\<rparr>) ''admin'' ''pairing.stop'' ''pairing'' ''ok'' [(''stopped'', d_bool False)], Some (Inr False))"
    using demo_stop_runs [of h] by blast
  let ?g1 = "logAdminOp (?g\<lparr>gw_audit := h, gw_store := s\<rparr>) ''admin'' ''pairing.stop'' ''pairing'' ''ok'' [(''stopped'', d_bool False)]"
  have "au_watched (gw_audit ?g1) = au_watched h" by (simp add: logAdminOp_def watched_appendEvent writes_def demo_gateway_def)
  with w have "\<not> lostSince (gw_audit ?g1) w" by (auto simp: lostSince_def watchCmd_def watched_count_def Let_def)
  moreover have "\<not> au_failing (gw_audit ?g)" by (simp add: demo_gateway_def)
  ultimately have run: "run_admin demo_cfg demo_sin ''admin'' demo_stop ?g = (?g1, Inr (AnsStopped False))"
    using w s by (simp add: run_admin_eq reading_commands_def finish_run_def as_answer_def)
      (simp add: demo_stop_def finish_run_def as_answer_def)
  have "gw_journal ?g = []" by (simp add: demo_gateway_def)
  with admin_ok_on_record [OF run] run show ?thesis by (auto simp: nothing_to_do_def)
qed

section \<open>Connections whose key is taken away\<close>

lemma gw_kill_fields [simp]:
  "gw_store (fst (gw_kill g i now cause)) = gw_store g" "gw_keyConns (fst (gw_kill g i now cause)) = gw_keyConns g"
  "set (gw_effects g) \<subseteq> set (gw_effects (fst (gw_kill g i now cause)))"
  by (auto simp: gw_kill_def split: prod.split)

lemma gw_kill_sessions:
  "e_sessions (gw_aclE (fst (gw_kill g i now cause))) =
    filter (\<lambda>(j, ls). \<not> (SessionID_Valid i \<and> j = i)) (e_sessions (gw_aclE g))"
proof (cases "SessionID_Valid i \<and> gm_get (e_sessions (gw_aclE g)) i \<noteq> None")
  case True
  then show ?thesis
    using killLocked_sessions [of "gw_aclE g" "[i]" cause] by (auto simp: gw_kill_def Kill_def split: prod.split)
next
  case False
  have "filter (\<lambda>(j, ls). \<not> (SessionID_Valid i \<and> j = i)) (e_sessions (gw_aclE g)) = e_sessions (gw_aclE g)"
    using False by (auto simp: filter_id_conv map_of_eq_None_iff rev_image_eqI)
  with False show ?thesis by (auto simp: gw_kill_def Kill_def)
qed

definition cut_off :: "nat \<Rightarrow> key_conn \<Rightarrow> gateway \<Rightarrow> bool" where
  "cut_off n kc g \<longleftrightarrow> (if SessionID_Valid (kc_session kc) then kc_session kc \<notin> fst ` set (e_sessions (gw_aclE g))
     else CloseConn n \<in> set (gw_effects g))"

definition cut_session :: "(nat \<times> key_conn) list \<Rightarrow> session_id \<Rightarrow> bool" where
  "cut_session cs j \<longleftrightarrow> SessionID_Valid j \<and> (\<exists>(n, kc) \<in> set cs. kc_session kc = j)"

lemma cut_session_Cons: "cut_session ((n, kc) # cs) j \<longleftrightarrow> SessionID_Valid j \<and> kc_session kc = j \<or> cut_session cs j"
  by (auto simp: cut_session_def)

lemma cut_one: "cut_off n kc (cutKeyConn g (n, kc))"
  by (auto simp: cut_off_def cutKeyConn_def gw_kill_sessions)

lemma cut_one_keeps: "cut_off n kc g \<Longrightarrow> cut_off n kc (cutKeyConn g a)"
  using gw_kill_fields(3) [THEN subsetD]
  by (cases a) (auto simp: cut_off_def cutKeyConn_def gw_kill_sessions rev_image_eqI)

lemma cut_fields [simp]: "gw_store (cutKeyConn g a) = gw_store g" "gw_keyConns (cutKeyConn g a) = gw_keyConns g"
  by (simp_all add: cutKeyConn_def split: prod.split)

lemma cut_all:
  "gw_store (foldl cutKeyConn g cs) = gw_store g \<and> gw_keyConns (foldl cutKeyConn g cs) = gw_keyConns g \<and>
   (\<forall>(n, kc) \<in> set cs. cut_off n kc (foldl cutKeyConn g cs)) \<and> (cut_off n kc g \<longrightarrow> cut_off n kc (foldl cutKeyConn g cs)) \<and>
   e_sessions (gw_aclE (foldl cutKeyConn g cs)) = filter (\<lambda>(j, ls). \<not> cut_session cs j) (e_sessions (gw_aclE g))"
proof (induction cs arbitrary: g n kc)
  case Nil
  show ?case by (simp add: cut_session_def)
next
  case (Cons a cs)
  obtain m k where a: "a = (m, k)" by force
  have "e_sessions (gw_aclE (cutKeyConn g a)) = filter (\<lambda>(j, ls). \<not> (SessionID_Valid j \<and> kc_session k = j)) (e_sessions (gw_aclE g))"
    by (auto simp: a cutKeyConn_def gw_kill_sessions filter_id_conv intro!: filter_cong)
      (rule sym, auto simp: filter_id_conv)
  with Cons.IH [of "cutKeyConn g a"] show ?case
    using cut_one [of m k g] cut_one_keeps [of n kc g a]
    by (auto simp: a cut_session_Cons intro!: filter_cong)
qed

text \<open>
  C16. A key that is taken away stops working at once. A command on a connection whose key its person no longer holds
  never runs and changes neither the state nor the live sessions; and when a command has run, every tracked
  connection whose key is no longer held is cut off - its session ended, or the connection closed - and the live
  sessions that remain are exactly the others.
\<close>

theorem removed_keys_cut:
  assumes "serveCommandSession c run person n kc x g = (g', r)"
  shows "(st_of g', gw_aclE g') = (st_of g, gw_aclE g) \<and> (\<forall>a. r \<noteq> Some (Inr a)) \<or>
    keyHeld (st_of g) kc \<and>
    (\<exists>command body g1 res. runCommand (run command body) person command g = (g1, res) \<and> r = Some res \<and> st_of g' = st_of g1 \<and>
      (\<forall>(n, kc) \<in> set (gw_keyConns g'). \<not> keyHeld (st_of g') kc \<longrightarrow> cut_off n kc g') \<and>
      e_sessions (gw_aclE g') = filter (\<lambda>(j, ls). \<not> cut_session (filter (\<lambda>(n, kc). \<not> keyHeld (st_of g1) kc) (gw_keyConns g1)) j)
        (e_sessions (gw_aclE g1)))"
proof (cases "r = None \<or> (\<exists>err. r = Some (Inl err)) \<and> g' = g")
  case True
  have "st_of (gw_AuthDenied c g a u f why1) = st_of g \<and> gw_aclE (gw_AuthDenied c g a u f why1) = gw_aclE g" for a u f why1
    by (simp add: gw_AuthDenied_def Let_def split: prod.split option.split)
  with True assms show ?thesis
    by (auto simp: serveCommandSession_def Let_def split: if_splits sum.splits option.splits prod.splits)
next
  case False
  with assms obtain m body where m: "xi_type x = ''exec''" "ParseExec (xi_payload x) = Inr m"
    "readBounded (xi_body x) maxExecRequestBytes = Some body" "keyHeld (st_of g) kc"
    by (auto simp: serveCommandSession_def Let_def split: if_splits sum.splits option.splits)
  obtain g1 res where r1: "runCommand (run (ex_command m) body) person (ex_command m) g = (g1, res)" by force
  from assms m have "r = Some res" "g' = cutRemovedKeys g1" by (simp_all add: serveCommandSession_def r1)
  note m = r1 this m(4)
  show ?thesis
    using cut_all [of g1 "filter (\<lambda>(n, kc). \<not> keyHeld (st_of g1) kc) (gw_keyConns g1)"] m
    by (intro disjI2 conjI exI [of _ "ex_command m"] exI [of _ body] exI [of _ g1] exI [of _ res]) (auto simp: cutRemovedKeys_def)
qed

definition demo_conn :: key_conn where
  "demo_conn = \<lparr>kc_person = ''admin'', kc_fingerprint = fp_of demo_pub, kc_addr = ''a'', kc_session = 0\<rparr>"

definition demo_lost_conn :: key_conn where
  "demo_lost_conn = demo_conn\<lparr>kc_fingerprint := fp_of demo_pub @ ''x''\<rparr>"

definition demo_exec :: exec_in where
  "demo_exec = \<lparr>xi_type = ''exec'', xi_payload = [0, 0, 0, 6] @ bytes_of ''whoami'', xi_body = Some []\<rparr>"

theorem removed_keys_cut_witness:
  "\<exists>g' r. serveCommandSession demo_cfg (\<lambda>_ _ g. (g, Some (Inr (AnsRemoved '''')))) ''admin'' 3 demo_conn demo_exec
      ((demo_gateway demo_owned)\<lparr>gw_keyConns := [(3, demo_conn), (7, demo_lost_conn)]\<rparr>) = (g', Some (Inr r)) \<and>
     CloseConn 7 \<in> set (gw_effects g')"
proof -
  let ?g = "(demo_gateway demo_owned)\<lparr>gw_keyConns := [(3, demo_conn), (7, demo_lost_conn)]\<rparr>"
  have held: "keyHeld demo_owned demo_conn" "\<not> keyHeld demo_owned demo_lost_conn"
    by (simp_all add: keyHeld_def demo_owned_def NewState_def personWithKey_def new_admin_def demo_conn_def demo_lost_conn_def)
  have exec: "ParseExec (xi_payload demo_exec) = Inr \<lparr>ex_command = ''whoami''\<rparr>" "xi_type demo_exec = ''exec''"
    "readBounded (xi_body demo_exec) maxExecRequestBytes = Some []" by code_simp+
  have table: "gm_get commandTable ''whoami'' = Some (spec False True)" by code_simp
  obtain g' r where r: "serveCommandSession demo_cfg (\<lambda>_ _ g. (g, Some (Inr (AnsRemoved '''')))) ''admin'' 3 demo_conn demo_exec ?g = (g', r)"
    by force
  then have "r = Some (Inr (AnsRemoved ''''))" "g' = cutRemovedKeys ?g"
    by (auto simp: serveCommandSession_def exec held runCommand_def table spec_def finish_run_def)
  moreover have "\<not> SessionID_Valid (kc_session demo_lost_conn)"
    by (simp add: demo_lost_conn_def demo_conn_def SessionID_Valid_def)
  moreover have "gw_keyConns g' = gw_keyConns ?g" "st_of g' = demo_owned"
    using cut_all [of ?g] by (simp_all add: \<open>g' = cutRemovedKeys ?g\<close> cutRemovedKeys_def)
  ultimately show ?thesis using removed_keys_cut [OF r] r held by (auto simp: cut_off_def)
qed

section \<open>The journal comes back\<close>

lemma append_all_healthy:
  assumes "gw_answers g = []"
  shows "gw_journal (append_all g es) = gw_journal g @ map (stamped g) es \<and> au_lost (gw_audit (append_all g es)) = au_lost (gw_audit g) \<and>
    (es \<noteq> [] \<longrightarrow> \<not> au_failing (gw_audit (append_all g es)))"
  using assms
proof (induction es arbitrary: g rule: rev_induct)
  case (snoc e es)
  have "gw_answers (append_all g es) = []"
    using snoc.prems by (induction es arbitrary: g) (simp_all add: answers_appendEvent)
  with snoc show ?case
    by (simp add: append_all_append journal_appendEvent failing_appendEvent lost_appendEvent writes_def stamped_def)
qed simp

lemma append_all_failing:
  "gw_answers g = map Some errs \<Longrightarrow> length es = length errs \<Longrightarrow>
    gw_journal (append_all g es) = gw_journal g \<and> gw_answers (append_all g es) = [] \<and>
    au_lost (gw_audit (append_all g es)) = au_lost (gw_audit g) + length errs"
proof (induction errs arbitrary: g es)
  case (Cons err errs)
  then obtain e fs where es: "es = e # fs" "length fs = length errs" by (cases es) auto
  have "\<not> writes g" using Cons.prems(1) by (simp add: writes_def)
  with Cons.IH [of "appendEvent g e" fs] Cons.prems(1) es show ?case
    by (simp add: answers_appendEvent journal_appendEvent lost_appendEvent)
qed simp

text \<open>
  C31. Commands are refused no longer than the disk fails. When the journal's next writes fail with \<open>errs\<close> and then
  work again, whatever the gateway writes meanwhile, the first line after those brings the commands back; every line
  from that one on is in the journal, in order, and the lost ones are counted.
\<close>

theorem service_resumes:
  assumes "gw_answers g = map Some errs" "length es > length errs"
  shows "auditRefusal (append_all g es) = None \<and>
    gw_journal (append_all g es) = gw_journal g @ map (stamped g) (drop (length errs) es) \<and>
    au_lost (gw_audit (append_all g es)) = au_lost (gw_audit g) + length errs"
proof -
  let ?n = "length errs"
  let ?g = "append_all g (take ?n es)"
  have "append_all g es = append_all ?g (drop ?n es)" by (simp flip: append_all_append)
  moreover have "stamped ?g = stamped g" by (simp add: stamped_def fun_eq_iff)
  ultimately show ?thesis
    using append_all_failing [OF assms(1), of "take ?n es"] append_all_healthy [of ?g "drop ?n es"] assms(2)
    by (auto simp: auditRefusal_def audit_snapshot_def)
qed

theorem service_resumes_witness:
  "auditRefusal (append_all ((demo_gateway demo_owned)\<lparr>gw_answers := [Some ''disk full'']\<rparr>)
     [mk_event EventAdminOp ''a'' ''o'' ''x:ok'' [], mk_event EventAdminOp ''a'' ''o'' ''x:ok'' []]) = None"
  using service_resumes [of "(demo_gateway demo_owned)\<lparr>gw_answers := [Some ''disk full'']\<rparr>" "[''disk full'']"
    "[mk_event EventAdminOp ''a'' ''o'' ''x:ok'' [], mk_event EventAdminOp ''a'' ''o'' ''x:ok'' []]"] by simp

end
