(* ===== verification/Admin_People.thy ===== *)
theory Admin_People
  imports Admin_Safety
begin

text \<open>
  What the commands can do to the people of the state, as a step relation: every command is one of its steps, and the
  guards of the two commands that take something away show which administrators remain.
\<close>

section \<open>Steps on people\<close>

inductive people_step :: "bool \<Rightarrow> person list \<Rightarrow> person list \<Rightarrow> bool" where
  same: "people_step b ps ps"
| added: "people_step b ps (ps @ [p])"
| removed: "find (\<lambda>p. pe_Name p = name) (rev ps) = Some victim \<Longrightarrow>
    pe_Role victim = ''admin'' \<longrightarrow> \<not> length (filter (\<lambda>p. pe_Role p = ''admin'') ps) \<le> 1 \<Longrightarrow>
    people_step True ps (del_last (\<lambda>p. pe_Name p = name) ps)"
| named: "people_step b ps (map (\<lambda>p. if pe_Name p = src then p\<lparr>pe_Name := dst\<rparr> else p) ps)"
| key_added: "people_step b ps (upd_first P (\<lambda>p. p\<lparr>pe_Keys := pe_Keys p @ [k]\<rparr>) ps)"
| key_removed: "find P ps = Some p \<Longrightarrow> list_ex K (pe_Keys p) \<Longrightarrow>
    pe_Role p = ''admin'' \<longrightarrow> \<not> sum_list (map (\<lambda>p. if pe_Role p = ''admin'' then length (pe_Keys p) else 0) ps) \<le> 1 \<Longrightarrow>
    people_step b ps (upd_first P (\<lambda>p. p\<lparr>pe_Keys := del_first K (pe_Keys p)\<rparr>) ps)"

abbreviation admins :: "person list \<Rightarrow> person list" where
  "admins ps \<equiv> filter (\<lambda>p. pe_Role p = ''admin'') ps"

abbreviation admin_keys :: "person list \<Rightarrow> nat" where
  "admin_keys ps \<equiv> sum_list (map (\<lambda>p. if pe_Role p = ''admin'' then length (pe_Keys p) else 0) ps)"

lemma del_first_found: "find P xs = Some x \<Longrightarrow> \<exists>ys zs. xs = ys @ x # zs \<and> del_first P xs = ys @ zs \<and> P x"
proof (induction xs)
  case (Cons a xs)
  show ?case
  proof (cases "P a")
    case False
    with Cons obtain ys zs where "a # xs = (a # ys) @ x # zs" "del_first P (a # xs) = (a # ys) @ zs" "P x" by auto
    then show ?thesis by blast
  qed (use Cons.prems in \<open>fastforce intro: exI [of _ "[]"]\<close>)
qed simp

lemma upd_first_found: "find P xs = Some x \<Longrightarrow> \<exists>ys zs. xs = ys @ x # zs \<and> upd_first P f xs = ys @ f x # zs"
proof (induction xs)
  case (Cons a xs)
  show ?case
  proof (cases "P a")
    case False
    with Cons obtain ys zs where "a # xs = (a # ys) @ x # zs" "upd_first P f (a # xs) = (a # ys) @ f x # zs" by auto
    then show ?thesis by blast
  qed (use Cons.prems in \<open>fastforce intro: exI [of _ "[]"]\<close>)
qed simp

lemma upd_first_missing: "find P xs = None \<Longrightarrow> upd_first P f xs = xs"
  by (induction xs) (auto split: if_splits)

lemma upd_first_keeps_roles: "(\<And>p. pe_Role (f p) = pe_Role p) \<Longrightarrow> map pe_Role (upd_first P f ps) = map pe_Role ps"
  by (rule upd_first_props(1))

lemma admins_by_role: "admins ps \<noteq> [] \<longleftrightarrow> ''admin'' \<in> set (map pe_Role ps)"
  by (auto simp: filter_empty_conv rev_image_eqI)

lemma del_last_found:
  assumes "find P (rev xs) = Some x"
  shows "\<exists>ys zs. xs = ys @ x # zs \<and> del_last P xs = ys @ zs \<and> P x"
proof -
  from del_first_found [OF assms] obtain ys zs where "rev xs = ys @ x # zs" "del_first P (rev xs) = ys @ zs" "P x" by blast
  then have "xs = rev zs @ x # rev ys" "del_last P xs = rev zs @ rev ys" "P x"
    by (simp_all add: del_last_def rev_swap)
  then show ?thesis by blast
qed

lemma del_first_length: "list_ex K ks \<Longrightarrow> Suc (length (del_first K ks)) = length ks"
  by (induction ks) auto

section \<open>Which administrators remain\<close>

lemma step_keeps_admins:
  assumes "people_step b ps qs" "admins ps \<noteq> []"
  shows "admins qs \<noteq> []"
  using assms
proof (cases rule: people_step.cases)
  case (removed name victim)
  from del_last_found [OF removed(3)] obtain ys zs where "ps = ys @ victim # zs" "del_last (\<lambda>p. pe_Name p = name) ps = ys @ zs" by blast
  with removed assms(2) show ?thesis by (cases "pe_Role victim = ''admin''") (auto simp: filter_empty_conv)
next
  case (named src dst)
  have "map pe_Role qs = map pe_Role ps" by (simp add: named)
  with assms(2) show ?thesis by (simp add: admins_by_role)
next
  case (key_added P k)
  have "map pe_Role qs = map pe_Role ps" unfolding key_added by (rule upd_first_keeps_roles) simp
  with assms(2) show ?thesis by (simp add: admins_by_role)
next
  case (key_removed P p K)
  have "map pe_Role qs = map pe_Role ps" unfolding key_removed by (rule upd_first_keeps_roles) simp
  with assms(2) show ?thesis by (simp add: admins_by_role)
qed auto

lemma step_keeps_keys:
  assumes "people_step False ps qs" "admin_keys ps > 0"
  shows "admin_keys qs > 0"
  using assms
proof (cases rule: people_step.cases)
  case (named src dst)
  have "map (\<lambda>p. if pe_Role p = ''admin'' then length (pe_Keys p) else 0) qs =
      map (\<lambda>p. if pe_Role p = ''admin'' then length (pe_Keys p) else 0) ps" by (simp add: named)
  with assms(2) show ?thesis by metis
next
  case (key_added P k)
  show ?thesis
  proof (cases "find P ps")
    case (Some p)
    from upd_first_found [OF this, of "\<lambda>p. p\<lparr>pe_Keys := pe_Keys p @ [k]\<rparr>"] obtain ys zs where
      "ps = ys @ p # zs" "qs = ys @ p\<lparr>pe_Keys := pe_Keys p @ [k]\<rparr> # zs" using key_added by blast
    with assms(2) show ?thesis by (auto split: if_splits)
  qed (use assms(2) in \<open>simp add: key_added upd_first_missing\<close>)
next
  case (key_removed P p K)
  from upd_first_found [OF key_removed(2), of "\<lambda>p. p\<lparr>pe_Keys := del_first K (pe_Keys p)\<rparr>"] obtain ys zs where
    "ps = ys @ p # zs" "qs = ys @ p\<lparr>pe_Keys := del_first K (pe_Keys p)\<rparr> # zs" using key_removed(1) by blast
  moreover have "admin_keys (ys @ q # zs) = admin_keys ys + (if pe_Role q = ''admin'' then length (pe_Keys q) else 0) + admin_keys zs" for q
    by simp
  ultimately have "admin_keys qs + 1 \<ge> admin_keys ps" "pe_Role p \<noteq> ''admin'' \<longrightarrow> admin_keys qs = admin_keys ps"
    using del_first_length [OF key_removed(3)] by simp_all
  then show ?thesis using key_removed(4) assms(2) by linarith
qed auto

section \<open>Every command is a step\<close>

definition stepped :: "bool \<Rightarrow> gateway \<Rightarrow> result \<Rightarrow> bool" where
  "stepped b g r \<longleftrightarrow> people_step b (gs_People (st_of g)) (gs_People (st_of (fst r)))"

lemma stepped_I: "people_step b (gs_People (st_of g)) (gs_People (st_of g')) \<Longrightarrow> stepped b g (g', r)"
  by (simp add: stepped_def)

lemma map_sum_Inr: "map_sum id f r = Inr y \<longleftrightarrow> (\<exists>x. r = Inr x \<and> y = f x)"
  by (cases r) auto

lemma stepped_txn:
  assumes "gw_txn c i fn g = (g', r)" "\<And>d x. fn (st_of g) = Inr (d, x) \<Longrightarrow> people_step b (gs_People (st_of g)) (gs_People d)"
  shows "people_step b (gs_People (st_of g)) (gs_People (st_of g'))"
  using assms(1) by (cases rule: gw_txn_cases) (use assms(2) people_step.same in auto)

lemma stepped_with_request: "(\<And>req. stepped b g (k req)) \<Longrightarrow> stepped b g (with_request g body proto k)"
  by (simp add: with_request_def stepped_def people_step.same split: sum.split option.split)

lemma engine_keeps_state:
  "gw_revoke g1 p m now cause = (g2, r) \<Longrightarrow> st_of g2 = st_of g1"
  "gw_add_grant g1 p m u caps now = (g2, e) \<Longrightarrow> st_of g2 = st_of g1"
  "gw_kill g1 j now cause = (g2, b) \<Longrightarrow> st_of g2 = st_of g1"
  "applyRevocations g1 now = (g2, n) \<Longrightarrow> st_of g2 = st_of g1"
  using applyRevocations_state [of g1 now] by (auto simp: gw_revoke_def gw_add_grant_def gw_kill_def split: prod.splits)

lemma moved_keep_state:
  "revoke_moved g1 name now mgs = (g2, r) \<Longrightarrow> st_of g2 = st_of g1"
  "add_moved g1 name now mgs = (g2, e) \<Longrightarrow> st_of g2 = st_of g1"
  by (induction mgs arbitrary: g1 g2 r e) (auto simp: engine_keeps_state split: prod.splits sum.splits option.splits)

lemma kill_machine_state: "st_of (kill_machine g m now) = st_of g"
proof -
  have "st_of (foldl (\<lambda>g s. fst (gw_kill g (s_id s) now DenyMachineUnverified)) g ss) = st_of g" for ss
    by (induction ss arbitrary: g) simp_all
  then show ?thesis by (simp add: kill_machine_def)
qed

lemmas keeps_state = engine_keeps_state moved_keep_state kill_machine_state

lemma people_drafts:
  "remove_person name st = Inr (d, x) \<Longrightarrow> people_step True (gs_People st) (gs_People d)"
  "RenamePerson st src dst = Inr (d, y) \<Longrightarrow> people_step b (gs_People st) (gs_People d)"
  "add_key name k st = Inr (d, x) \<Longrightarrow> people_step b (gs_People st) (gs_People d)"
  "remove_key name fp st = Inr (d, x) \<Longrightarrow> people_step b (gs_People st) (gs_People d)"
  by (auto simp: remove_person_def RenamePerson_def add_key_def remove_key_def adminKeysInState_def Let_def
      simp del: One_nat_def intro: people_step.intros(1,2,4,5) elim: people_step.removed people_step.key_removed split: option.splits if_splits)

lemma people_stepped:
  "stepped b g (cmdPeopleAdd c i person now b1 g)" "stepped True g (cmdPeopleRemove c i person now b2 g)"
  "stepped b g (cmdPeopleRename c i person now b3 g)" "stepped b g (cmdPeopleKeysAdd c i person now b4 g)"
  "stepped b g (cmdPeopleKeysRemove c i person b4 g)"
  by (auto simp: cmdPeopleAdd_def cmdPeopleRemove_def cmdPeopleRename_def cmdPeopleKeysAdd_def cmdPeopleKeysRemove_def Let_def
      keeps_state people_step.same people_step.added map_sum_Inr
      intro!: stepped_with_request stepped_I elim!: stepped_txn dest!: people_drafts
      split: option.split sum.split txn.split prod.split if_splits)

lemma untouched_people:
  "RenameMachine st a b = Inr (d, x1) \<Longrightarrow> gs_People d = gs_People st"
  "rekey_machine a b st = Inr (d, x2) \<Longrightarrow> gs_People d = gs_People st"
  "mint_invitation a h p now e st = Inr (d, x3) \<Longrightarrow> gs_People d = gs_People st"
  "grant_pair_txn a b u caps st = Inr (d, x4) \<Longrightarrow> gs_People d = gs_People st"
  "set_caps_txn a b caps st = Inr (d, x5) \<Longrightarrow> gs_People d = gs_People st"
  "set_until_txn a b u st = Inr (d, x6) \<Longrightarrow> gs_People d = gs_People st"
  "SetGoal st a b t now = Inr (d, x7) \<Longrightarrow> gs_People d = gs_People st"
  "RevokeAccess st a b = (d, x8) \<Longrightarrow> gs_People d = gs_People st"
  by (auto simp: RenameMachine_def rekey_machine_def mint_invitation_def grant_pair_txn_def set_caps_txn_def set_until_txn_def
      SetGoal_def RevokeAccess_def GrantAccess_def SetGrantCaps_def SetGrantUntil_def Let_def
      split: option.splits if_splits sum.splits prod.splits)

lemma machines_stepped:
  "stepped b g (cmdMachinesRemove c i person now b1 g)" "stepped b g (cmdMachinesRename c i person b2 g)"
  "stepped b g (cmdMachinesSetUser c i person now b2 g)" "stepped b g (cmdMachinesRekey c i person b2 g)"
  "stepped b g (cmdMachinesEnrolCode c i dr person now b3 g)"
  unfolding cmdMachinesRemove_def cmdMachinesRename_def cmdMachinesSetUser_def cmdMachinesRekey_def cmdMachinesEnrolCode_def
  by (intro stepped_with_request; auto simp: Let_def with_goal_pair_def keeps_state people_step.same
      intro!: stepped_I elim!: stepped_txn dest!: untouched_people
      split: option.split sum.split txn.split prod.split if_splits rekey_verdict.split)+

lemma grants_stepped:
  "stepped b g (cmdGrantsGrant c i person now b4 g)" "stepped b g (cmdGrantsRevoke c i person now b5 g)"
  unfolding cmdGrantsGrant_def cmdGrantsRevoke_def
  by (intro stepped_with_request; auto simp: Let_def with_goal_pair_def keeps_state people_step.same
      intro!: stepped_I elim!: stepped_txn dest!: untouched_people
      split: option.split sum.split txn.split prod.split if_splits rekey_verdict.split)+

lemma changes_stepped:
  "stepped b g (cmdGrantsSetCaps c i person now b6 g)" "stepped b g (cmdGrantsExtend c i person now b7 g)"
  unfolding cmdGrantsSetCaps_def cmdGrantsExtend_def
  by (intro stepped_with_request; auto simp: Let_def with_goal_pair_def keeps_state people_step.same
      intro!: stepped_I elim!: stepped_txn dest!: untouched_people
      split: option.split sum.split txn.split prod.split if_splits rekey_verdict.split)+

lemma goals_stepped:
  "stepped b g (cmdSessionsKill person now b8 g)" "stepped b g (cmdGoalSet c i person now b7 g)"
  unfolding cmdSessionsKill_def cmdGoalSet_def
  by (intro stepped_with_request; auto simp: Let_def with_goal_pair_def keeps_state people_step.same
      intro!: stepped_I elim!: stepped_txn dest!: untouched_people
      split: option.split sum.split txn.split prod.split if_splits rekey_verdict.split)+

lemma pairing_stepped:
  "stepped b g (as_answer f (cmdAdminPairingStart c i d person now b1 g))" "stepped b g (as_answer h (cmdAdminPairingStop c i person b1 g))"
  by (auto simp: cmdAdminPairingStart_def cmdAdminPairingStop_def as_answer_def Let_def people_step.same
      intro!: stepped_I elim!: stepped_txn split: option.split txn.split prod.split sum.split pin_result.split)

definition removes_people :: "request \<Rightarrow> bool" where
  "removes_people rq \<longleftrightarrow> request_command rq = ''people.remove''"

lemma request_stepped: "stepped (removes_people rq) g (run_request c i person now rq g)"
proof (cases "request_command rq \<in> set reading_commands")
  case True
  then show ?thesis by (simp add: reading_run stepped_def people_step.same)
next
  case False
  with people_stepped machines_stepped grants_stepped changes_stepped goals_stepped pairing_stepped
  show ?thesis by (cases rq) (simp_all add: reading_commands_def removes_people_def)
qed

lemma run_admin_stepped:
  "people_step (removes_people rq) (gs_People (st_of g)) (gs_People (st_of (fst (run_admin c i person rq g))))"
proof -
  obtain g' r where a: "run_admin c i person rq g = (g', r)" by force
  then show ?thesis
  proof (cases rule: run_admin_cases)
    case (ran h w)
    with request_stepped [of rq "g\<lparr>gw_audit := h\<rparr>" c i person "gw_now g"] show ?thesis by (simp add: stepped_def a)
  qed (simp_all add: people_step.same a)
qed

section \<open>Runs of commands\<close>

record order =
  or_store :: store_in
  or_person :: string
  or_request :: request

fun run_orders :: "gw_config \<Rightarrow> order list \<Rightarrow> gateway \<Rightarrow> gateway" where
  "run_orders c [] g = g"
| "run_orders c (o1 # os) g = run_orders c os (fst (run_admin c (or_store o1) (or_person o1) (or_request o1) g))"

text \<open>
  C17. An administrator always remains. Whatever commands administrators run, in whatever order and whatever the disk
  and the journal do, a gateway that has an administrator keeps one; and as long as nobody is removed, a gateway that
  has an administrator's key keeps one too.
\<close>

theorem administrators_remain:
  assumes "HasAnyAdmin (st_of g)"
  shows "HasAnyAdmin (st_of (run_orders c os g)) \<and>
    (list_all (\<lambda>o1. \<not> removes_people (or_request o1)) os \<and> adminKeysInState (st_of g) \<ge> 1 \<longrightarrow>
      adminKeysInState (st_of (run_orders c os g)) \<ge> 1)"
  using assms
proof (induction os arbitrary: g)
  case (Cons o1 os)
  let ?rq = "or_request o1" and ?g = "fst (run_admin c (or_store o1) (or_person o1) (or_request o1) g)"
  have admin: "HasAnyAdmin st \<longleftrightarrow> admins (gs_People st) \<noteq> []" for st
    by (auto simp: HasAnyAdmin_def list_ex_iff filter_empty_conv)
  note step = run_admin_stepped [of ?rq g c "or_store o1" "or_person o1"]
  have "HasAnyAdmin (st_of ?g)" using step_keeps_admins [OF step] Cons.prems by (simp add: admin)
  moreover have "adminKeysInState (st_of ?g) \<ge> 1" if "\<not> removes_people ?rq" "adminKeysInState (st_of g) \<ge> 1"
    using step_keeps_keys [of "gs_People (st_of g)"] step that by (simp add: adminKeysInState_def Suc_le_eq)
  ultimately show ?case using Cons.IH [of ?g] by auto
qed simp

theorem administrators_remain_witness:
  "HasAnyAdmin (st_of (run_orders demo_cfg [\<lparr>or_store = demo_sin, or_person = ''admin'', or_request = demo_stop\<rparr>] (demo_gateway demo_owned))) \<and>
   adminKeysInState (st_of (run_orders demo_cfg [\<lparr>or_store = demo_sin, or_person = ''admin'', or_request = demo_stop\<rparr>] (demo_gateway demo_owned))) \<ge> 1"
proof -
  have "HasAnyAdmin (st_of (demo_gateway demo_owned))" "adminKeysInState (st_of (demo_gateway demo_owned)) \<ge> 1"
    by (simp_all add: HasAnyAdmin_def adminKeysInState_def demo_owned_def NewState_def new_admin_def)
  with administrators_remain [of "demo_gateway demo_owned" demo_cfg "[\<lparr>or_store = demo_sin, or_person = ''admin'', or_request = demo_stop\<rparr>]"]
  show ?thesis by (simp add: removes_people_def del: run_orders.simps)
qed

text \<open>
  The guard of \<open>people.remove\<close> counts administrators and not their keys: it lets the last person who can still log in
  as an administrator be removed, when another administrator is left without a key.
\<close>

lemma removal_can_strand:
  "\<exists>st d. wf_state st \<and> adminKeysInState st = 1 \<and> remove_person ''admin'' st = Inr (d, True) \<and> wf_state d \<and>
     HasAnyAdmin d \<and> adminKeysInState d = 0"
proof -
  let ?a = "new_admin ''admin'' (fp_of demo_pub) demo_pub 1" and ?b = "\<lparr>pe_Name = ''ann'', pe_Role = ''admin'', pe_Keys = []\<rparr>"
  let ?st = "NewState\<lparr>gs_People := [?b, ?a]\<rparr>" and ?d = "NewState\<lparr>gs_People := [?b]\<rparr>"
  have "nameRe ''admin''" "nameRe ''ann''" by code_simp+
  then have "wf_state ?st" "wf_state ?d"
    by (simp_all add: NewState_def wf_state_def wf_ids_def wf_refs_def wf_person_def new_admin_def wf_key_def demo_key_ok all_fps_def)
  moreover have "remove_person ''admin'' ?st = Inr (?d, True)"
    by (simp add: remove_person_def new_admin_def del_last_def NewState_def)
  ultimately show ?thesis
    by (intro exI [of _ ?st] exI [of _ ?d]) (simp add: adminKeysInState_def HasAnyAdmin_def new_admin_def)
qed

end
