(* ===== verification/Access_Commands.thy ===== *)
theory Access_Commands
  imports Access_Terms Admin_People
begin

text \<open>Every command of an administrator leaves the engine in step with the state.\<close>

section \<open>Commands that leave access alone\<close>

definition neutral :: "gw_state \<Rightarrow> gw_state \<Rightarrow> bool" where
  "neutral prev d \<longleftrightarrow> calm prev d \<and> gs_Grants d = gs_Grants prev"

lemma neutralI:
  assumes "gs_Grants d = gs_Grants prev" "pe_Name ` set (gs_People prev) \<subseteq> pe_Name ` set (gs_People d)"
    "set (map (\<lambda>m. (mc_ID m, mc_MachineKey m)) (gs_Machines prev)) \<subseteq> set (map (\<lambda>m. (mc_ID m, mc_MachineKey m)) (gs_Machines d))"
  shows "neutral prev d"
  using assms by (fastforce simp: neutral_def calm_def subset_iff image_iff)

lemma neutral_same [simp]: "neutral st st"
  by (rule neutralI) simp_all

lemma txn_neutral':
  "gw_txn c i fn g = (g', r) \<Longrightarrow> synced now g \<Longrightarrow> (\<And>d x. fn (st_of g) = Inr (d, x) \<Longrightarrow> neutral (st_of g) d) \<Longrightarrow> synced now g'"
  by (rule txn_neutral) (auto simp: neutral_def)

lemma upd_first_names: "(\<And>p. pe_Name (f p) = pe_Name p) \<Longrightarrow> pe_Name ` set (upd_first P f ps) = pe_Name ` set ps"
  by (metis upd_first_props(1) set_map)

lemma upd_first_machines:
  "(\<And>m. mc_ID (f m) = mc_ID m \<and> mc_MachineKey (f m) = mc_MachineKey m) \<Longrightarrow>
    map (\<lambda>m. (mc_ID m, mc_MachineKey m)) (upd_first P f ms) = map (\<lambda>m. (mc_ID m, mc_MachineKey m)) ms"
  by (rule upd_first_props(1)) simp

lemma neutral_people:
  "neutral st (st\<lparr>gs_People := gs_People st @ [p]\<rparr>)"
  "add_key name k st = Inr (d, x) \<Longrightarrow> neutral st d"
  "remove_key name fp st = Inr (d, x) \<Longrightarrow> neutral st d"
  by (auto simp: add_key_def remove_key_def Let_def upd_first_names split: option.splits if_splits intro!: neutralI)

lemma neutral_machines:
  "RenameMachine st a b = Inr (d, x) \<Longrightarrow> neutral st d"
  "neutral st (st\<lparr>gs_Machines := upd_first P (set_user u) (gs_Machines st)\<rparr>)"
  "rekey_machine a b st = Inr (d, y) \<Longrightarrow> neutral st d"
  "mint_invitation a h pub now e st = Inr (d, z) \<Longrightarrow> neutral st d"
proof -
  show "neutral st d" if "RenameMachine st a b = Inr (d, x)"
  proof (rule neutralI)
    have "map (\<lambda>m. (mc_ID m, mc_MachineKey m)) (gs_Machines d) = map (\<lambda>m. (mc_ID m, mc_MachineKey m)) (gs_Machines st)"
      using that by (auto simp: RenameMachine_def split: if_splits)
    then show "set (map (\<lambda>m. (mc_ID m, mc_MachineKey m)) (gs_Machines st)) \<subseteq> set (map (\<lambda>m. (mc_ID m, mc_MachineKey m)) (gs_Machines d))"
      by (simp only: subset_refl)
  qed (use that in \<open>auto simp: RenameMachine_def split: if_splits\<close>)
  show "neutral st (st\<lparr>gs_Machines := upd_first P (set_user u) (gs_Machines st)\<rparr>)"
    by (rule neutralI) (simp_all add: upd_first_machines set_user_def del: set_map)
  show "neutral st d" if "rekey_machine a b st = Inr (d, y)"
    using that by (auto simp: rekey_machine_def upd_first_machines simp del: set_map intro!: neutralI
        split: option.splits sum.splits if_splits)
  show "neutral st d" if "mint_invitation a h pub now e st = Inr (d, z)"
    using that by (auto simp: mint_invitation_def intro!: neutralI split: if_splits)
qed

lemma neutral_goal: "SetGoal st p m t now = Inr (d, x) \<Longrightarrow> neutral st d"
  by (auto simp: SetGoal_def Let_def intro!: neutralI split: option.splits if_splits sum.splits)

lemma synced_fields [simp]:
  "synced now (logAdminOp g a op ob r d) = synced now g" "synced now (appendEvent g e) = synced now g"
  "synced now (g\<lparr>gw_effects := ef\<rparr>) = synced now g" "synced now (g\<lparr>gw_audit := h\<rparr>) = synced now g"
  "synced now (g\<lparr>gw_pairRate := l\<rparr>) = synced now g"
  by (simp_all add: synced_def)

lemma synced_kill [simp]: "synced now (fst (gw_kill g i t cause)) = synced now g"
proof (rule synced_cong)
  show "held (gw_aclE (fst (gw_kill g i t cause))) = held (gw_aclE g)"
    using held_kill [of "gw_aclE g" "[i]" cause] by (auto simp: gw_kill_def Kill_def Let_def split: prod.splits)
qed simp

lemma synced_kill_machine [simp]: "synced now (kill_machine g m t) = synced now g"
proof -
  have "synced now (foldl (\<lambda>g s. fst (gw_kill g (s_id s) t DenyMachineUnverified)) g ss) = synced now g" for ss
    by (induction ss arbitrary: g) simp_all
  then show ?thesis by (simp add: kill_machine_def)
qed

lemma synced_with_request: "synced now g \<Longrightarrow> (\<And>req. synced now (fst (k req))) \<Longrightarrow> synced now (fst (with_request g body proto k))"
  by (simp add: with_request_def split: sum.split option.split)

lemma neutral_commands:
  assumes "synced now g"
  shows "synced now (fst (cmdPeopleAdd c i person t b1 g))" "synced now (fst (cmdPeopleKeysAdd c i person t b2 g))"
    "synced now (fst (cmdPeopleKeysRemove c i person b2 g))" "synced now (fst (cmdMachinesRename c i person b3 g))"
    "synced now (fst (cmdMachinesRekey c i person b3 g))" "synced now (fst (cmdMachinesEnrolCode c i dr person t b4 g))"
    "synced now (fst (cmdGoalSet c i person t b5 g))"
  using assms unfolding cmdPeopleAdd_def cmdPeopleKeysAdd_def cmdPeopleKeysRemove_def cmdMachinesRename_def cmdMachinesRekey_def
    cmdMachinesEnrolCode_def cmdGoalSet_def
  by (intro synced_with_request; auto simp: Let_def with_goal_pair_def neutral_people neutral_machines neutral_goal
      elim!: txn_neutral' split: option.split sum.split txn.split prod.split rekey_verdict.split if_splits)+

lemma set_user_synced: "synced now g \<Longrightarrow> synced now (fst (cmdMachinesSetUser c i person t b g))"
  unfolding cmdMachinesSetUser_def
  by (rule synced_with_request; auto simp: Let_def neutral_machines elim!: txn_neutral' split: option.split txn.split prod.split)

lemma pairing_commands:
  assumes "synced now g"
  shows "synced now (fst (as_answer f (cmdAdminPairingStart c i d person t b g)))"
    "synced now (fst (as_answer h (cmdAdminPairingStop c i person b g)))"
proof -
  have n: "neutral st (st\<lparr>gs_PairingPending := p\<rparr>)" for st p by (rule neutralI) simp_all
  show "synced now (fst (as_answer f (cmdAdminPairingStart c i d person t b g)))"
    using assms by (auto simp: cmdAdminPairingStart_def as_answer_def Let_def n elim!: txn_neutral'
        split: option.split txn.split prod.split sum.split pin_result.split)
  show "synced now (fst (as_answer h (cmdAdminPairingStop c i person b g)))"
    using assms by (auto simp: cmdAdminPairingStop_def as_answer_def n elim!: txn_neutral'
        split: option.split txn.split prod.split sum.split)
qed

lemma sessions_kill_synced: "synced now g \<Longrightarrow> synced now (fst (cmdSessionsKill person t b g))"
  unfolding cmdSessionsKill_def
  by (rule synced_with_request) (auto simp: case_prod_beta split: sum.split)

section \<open>Commands that take somebody or something away\<close>

lemma people_remove_synced:
  assumes "synced now g"
  shows "synced now (fst (cmdPeopleRemove c i person now b g))"
  unfolding cmdPeopleRemove_def
proof (rule synced_with_request [OF assms])
  fix req
  obtain g' r where t: "gw_txn c i (remove_person (nr_Name req)) g = (g', r)" by force
  have "in_step now g'" if "r = TxDone y" for y
    using t that assms by (auto intro!: txn_dropping simp: remove_person_def split: option.splits if_splits)
  moreover have "synced now g'" if "r \<noteq> TxDone True"
    using t assms
  proof (cases rule: txn_synced)
    case (committed d x)
    then have "d = st_of g" using that by (auto simp: remove_person_def split: option.splits if_splits)
    then show ?thesis using t assms committed(2) by (intro txn_neutral' [OF t assms]) auto
  qed
  ultimately show "synced now (fst (case gw_txn c i (remove_person (nr_Name req)) g of
       (g', TxRefused _) \<Rightarrow> refuses g' ''E_CONFLICT'' 2
     | (g', TxFailed _) \<Rightarrow> refuses g' ''E_INTERNAL'' 70
     | (g', TxDone found) \<Rightarrow>
        if \<not> found then refuses g' ''E_NOT_FOUND'' 2
        else case applyRevocations g' now of (g', _) \<Rightarrow> answers (logAdminOp g' person ''people.remove'' (nr_Name req) ''ok'' [])
               (AnsRemoved (nr_Name req))))"
    by (auto simp: t split: txn.split prod.split dest: in_step_drain)
qed

lemma in_step_effects [simp]: "in_step now (g\<lparr>gw_effects := ef\<rparr>) = in_step now g"
  by (simp add: in_step_def due_pairs_def)

lemma machines_remove_synced:
  assumes "synced now g"
  shows "synced now (fst (cmdMachinesRemove c i person now b g))"
  unfolding cmdMachinesRemove_def
proof (rule synced_with_request [OF assms], goal_cases)
  case (1 req)
  let ?fn = "\<lambda>st. Inr (st\<lparr>gs_Machines := del_first (\<lambda>m. mc_ID m = mq_ID req) (gs_Machines st)\<rparr>,
      list_ex (\<lambda>m. mc_ID m = mq_ID req) (gs_Machines st)) :: unit + gw_state \<times> bool"
  have none: "\<not> list_ex P xs \<Longrightarrow> del_first P xs = xs" for P and xs :: "machine_rec list" by (induction xs) auto
  obtain g' r where t: "gw_txn c i ?fn g = (g', r)" by force
  have dropped: "in_step now g'" if "r = TxDone y" for y
    using t that assms by (auto intro!: txn_dropping)
  have "synced now g'" if "r \<noteq> TxDone True"
    using t assms
  proof (cases rule: txn_synced)
    case (committed d x)
    then have "\<not> list_ex (\<lambda>m. mc_ID m = mq_ID req) (gs_Machines (st_of g))" using that by auto
    then show ?thesis by (intro txn_neutral' [OF t assms]) (auto simp: none)
  qed
  moreover have "synced now g2" if "r = TxDone y" "applyRevocations (g'\<lparr>gw_effects := ef\<rparr>) now = (g2, n)" for y ef g2 n
    using in_step_drain [OF _ that(2)] dropped [OF that(1)] by simp
  moreover have "synced now g2" if "r = TxDone y" "applyRevocations g' now = (g2, n)" for y g2 n
    using in_step_drain [OF dropped [OF that(1)] that(2)] .
  ultimately show ?case by (cases r) (auto simp: t Let_def split: prod.split option.split)
qed

section \<open>Commands on grants\<close>

lemma granted_append:
  "\<not> list_ex (is_pair p m) (gs_Grants st) \<Longrightarrow> gr_Person gr = p \<Longrightarrow> gr_Machine gr = m \<Longrightarrow>
    granted (st\<lparr>gs_Grants := gs_Grants st @ [gr]\<rparr>) = (granted st)((p, m) \<mapsto> (gr_Until gr, gr_Caps gr))"
proof -
  let ?t = "\<lambda>gr. (pair_of gr, (gr_Until gr, gr_Caps gr))"
  assume new: "\<not> list_ex (is_pair p m) (gs_Grants st)" and gr: "gr_Person gr = p" "gr_Machine gr = m"
  then have "map_of (map ?t (gs_Grants st)) (p, m) = None"
    by (auto simp: map_of_eq_None_iff list_ex_iff is_pair_def)
  with gr show ?thesis by (auto simp: granted_def map_add_def fun_eq_iff split: option.split)
qed

lemma granted_delete:
  assumes "distinct (map pair_of (gs_Grants st))"
  shows "granted (st\<lparr>gs_Grants := del_first (is_pair p m) (gs_Grants st)\<rparr>) = (granted st)((p, m) := None)"
proof -
  let ?t = "\<lambda>gr. (pair_of gr, (gr_Until gr, gr_Caps gr))"
  have "map_of (map ?t (del_first (is_pair p m) grs)) = (map_of (map ?t grs))((p, m) := None)" if "distinct (map pair_of grs)" for grs
    using that
  proof (induction grs)
    case (Cons gr grs)
    show ?case
    proof (cases "is_pair p m gr")
      case True
      then have "map_of (map ?t grs) (p, m) = None" using Cons.prems by (auto simp: is_pair_def map_of_eq_None_iff image_image)
      with True show ?thesis by (auto simp: is_pair_def fun_eq_iff)
    qed (use Cons in \<open>auto simp: is_pair_def\<close>)
  qed simp
  with assms show ?thesis by (simp add: granted_def)
qed

lemma granted_update:
  assumes "find (is_pair p m) (gs_Grants st) = Some gr" "\<And>x. pair_of (f x) = pair_of x"
  shows "granted (st\<lparr>gs_Grants := upd_first (is_pair p m) f (gs_Grants st)\<rparr>) = (granted st)((p, m) \<mapsto> (gr_Until (f gr), gr_Caps (f gr)))"
proof -
  let ?t = "\<lambda>gr. (pair_of gr, (gr_Until gr, gr_Caps gr))"
  have "map_of (map ?t (upd_first (is_pair p m) f grs)) = (map_of (map ?t grs))((p, m) \<mapsto> (gr_Until (f gr), gr_Caps (f gr)))"
    if "find (is_pair p m) grs = Some gr" for grs
    using that assms(2) by (induction grs) (auto simp: is_pair_def split: if_splits)
  with assms(1) show ?thesis by (simp add: granted_def)
qed

lemma granted_find: "find (is_pair p m) (gs_Grants st) = Some gr \<Longrightarrow> granted st (p, m) = Some (gr_Until gr, gr_Caps gr)"
proof -
  have "find (is_pair p m) grs = Some gr \<Longrightarrow> map_of (map (\<lambda>gr. (pair_of gr, (gr_Until gr, gr_Caps gr))) grs) (p, m) = Some (gr_Until gr, gr_Caps gr)" for grs
    by (induction grs) (auto simp: is_pair_def split: if_splits)
  then show "find (is_pair p m) (gs_Grants st) = Some gr \<Longrightarrow> granted st (p, m) = Some (gr_Until gr, gr_Caps gr)" by (simp add: granted_def)
qed

lemma find_is_pair: "find (is_pair p m) grs = Some gr \<Longrightarrow> gr \<in> set grs \<and> gr_Person gr = p \<and> gr_Machine gr = m"
  by (auto simp: find_Some_iff is_pair_def)

lemma txn_calm:
  assumes "gw_txn c i fn g = (g', TxDone y)" "synced now g" "\<And>d x. fn (st_of g) = Inr (d, x) \<Longrightarrow> calm (st_of g) d"
  obtains d where "fn (st_of g) = Inr (d, y)" "gw_aclE g' = gw_aclE g" "sound_state (st_of g')" "granted (st_of g') = granted d"
    "so_revocations (gw_store g') = []"
  using assms(1,2)
proof (cases rule: txn_synced)
  case (committed d x)
  have "\<not> cast_off (st_of g) d y" for y
    using assms(3) [OF committed(2)] assms(2) calm_loses_nothing by (auto simp: synced_def)
  with committed show thesis by (intro that) (auto simp: due_pairs_def)
qed blast

lemma calm_grants [simp]: "calm st (st\<lparr>gs_Grants := grs\<rparr>)"
  by (auto simp: calm_def)

lemma deadline_ahead: "parse_deadline c text now = Some u \<Longrightarrow> live_until now u"
  by (auto simp: parse_deadline_def live_until_def split: if_splits option.splits)

lemma good_of_grant: "sound_state st \<Longrightarrow> gr \<in> set (gs_Grants st) \<Longrightarrow> good_terms (gr_Person gr) (gr_Machine gr) (gr_Caps gr)"
  by (auto simp: sound_state_def good_terms_def wf_grant_def)

lemma caps_ok_cases: "caps_ok caps \<longleftrightarrow> caps \<in> {[''shell''], [''exec'']}"
  by (auto simp: caps_ok_def)

text \<open>
  The last step of every command that sets the terms of a pair: the state has them already, the engine is told. Terms
  that are not in force any more are refused by the engine, which must not hold older ones then.
\<close>

lemma add_synced:
  assumes "gw_add_grant g2 p m u caps now = (g3, err)" "0 \<le> now" "good_terms p m caps"
    "sound_state (st_of g2)" "so_revocations (gw_store g2) = []" "granted (st_of g2) = T((p, m) \<mapsto> (u, caps))"
    "\<And>y. y \<noteq> (p, m) \<Longrightarrow> in_force now (held (gw_aclE g2)) y = in_force now T y"
    "\<not> live_until now u \<Longrightarrow> in_force now (held (gw_aclE g2)) (p, m) = None"
  shows "synced now g3"
proof -
  note add = gw_add_held [OF assms(1-3)]
  have "in_force now (held (gw_aclE g3)) y = in_force now (T((p, m) \<mapsto> (u, caps))) y" for y
    using add assms(7) [of y] assms(8) by (cases "y = (p, m)"; cases "live_until now u") (auto simp: in_force_upd)
  with add assms(4-6) show ?thesis by (auto simp: synced_def)
qed

lemma grant_synced:
  assumes "synced now g" "0 \<le> now"
  shows "synced now (fst (cmdGrantsGrant c i person now b g))"
  unfolding cmdGrantsGrant_def
proof (rule synced_with_request [OF assms(1)], goal_cases)
  case (1 req)
  let ?p = "gq_Person req" and ?m = "gq_Machine req" and ?caps = "gq_Caps req"
  have told: "synced now g3"
    if u: "caps_ok ?caps" "parse_deadline c (gq_Until req) now = Some u"
      and t: "gw_txn c i (grant_pair_txn ?p ?m u ?caps) g = (g', TxDone y)" and a: "gw_add_grant g' ?p ?m u ?caps now = (g3, err)" for u g' y g3 err
  proof -
    have draft: "\<exists>m0 fp. d = (st_of g)\<lparr>gs_Grants := gs_Grants (st_of g) @ [\<lparr>gr_Person = ?p, gr_Machine = ?m,
          gr_MachineKeyFingerprint = fp, gr_Until = u, gr_Caps = ?caps\<rparr>]\<rparr> \<and>
        \<not> list_ex (is_pair ?p ?m) (gs_Grants (st_of g)) \<and> HasPerson (st_of g) ?p \<and> MachineByID (st_of g) ?m = Some m0"
      if "grant_pair_txn ?p ?m u ?caps (st_of g) = Inr (d, x)" for d x
      using that u(1) by (auto simp: grant_pair_txn_def GrantAccess_def Let_def caps_ok_def split: if_splits option.splits sum.splits)
    then have "calm (st_of g) d" if "grant_pair_txn ?p ?m u ?caps (st_of g) = Inr (d, x)" for d x
      using that calm_grants by metis
    from t assms(1) this obtain d where d: "grant_pair_txn ?p ?m u ?caps (st_of g) = Inr (d, y)" "gw_aclE g' = gw_aclE g"
      "sound_state (st_of g')" "granted (st_of g') = granted d" "so_revocations (gw_store g') = []" by (rule txn_calm)
    from draft [OF d(1)] have g': "granted (st_of g') = (granted (st_of g))((?p, ?m) \<mapsto> (u, ?caps))"
      using granted_append [of ?p ?m "st_of g"] d(4) by fastforce
    have "?p \<noteq> ''''" "?m \<noteq> ''''"
      using draft [OF d(1)] assms(1) by (auto simp: synced_def sound_state_def HasPerson_iff MachineByID_def find_Some_iff)
    then have "good_terms ?p ?m ?caps" using u(1) by (simp add: good_terms_def caps_ok_cases)
    from add_synced [OF a assms(2) this d(3,5) g'] show ?thesis
      using assms(1) d(2) deadline_ahead [OF u(2)] by (simp add: synced_def)
  qed
  then show ?case using assms(1) by (auto simp: Let_def split: option.split txn.split prod.split dest: txn_failed)
qed

lemma revoke_synced:
  assumes "synced now g"
  shows "synced now (fst (cmdGrantsRevoke c i person now b g))"
  unfolding cmdGrantsRevoke_def
proof (rule synced_with_request [OF assms], goal_cases)
  case (1 req)
  let ?p = "pr_Person req" and ?m = "pr_Machine req"
  let ?fn = "\<lambda>st. Inr (RevokeAccess st ?p ?m) :: unit + gw_state \<times> bool"
  have draft: "calm (st_of g) d \<and> (x \<longrightarrow> granted d = (granted (st_of g))((?p, ?m) := None)) \<and> (\<not> x \<longrightarrow> d = st_of g)"
    if "?fn (st_of g) = Inr (d, x)" for d x
    using that assms granted_delete [of "st_of g" ?p ?m]
    by (auto simp: RevokeAccess_def synced_def sound_state_def calm_def split: if_splits)
  then have quiet: "calm (st_of g) d" if "?fn (st_of g) = Inr (d, x)" for d x using that by blast
  have "synced now g'" if t: "gw_txn c i ?fn g = (g', TxDone False)" for g'
  proof -
    from t assms quiet obtain d where d: "?fn (st_of g) = Inr (d, False)" "gw_aclE g' = gw_aclE g"
      "sound_state (st_of g')" "granted (st_of g') = granted d" "so_revocations (gw_store g') = []"
      by (rule txn_calm)
    with draft [OF d(1)] assms show ?thesis by (simp add: synced_def)
  qed
  moreover have "synced now g2" if t: "gw_txn c i ?fn g = (g', TxDone True)" "gw_revoke g' ?p ?m now DenyGrantRevoked = (g2, r)" for g' g2 r
  proof -
    from t(1) assms quiet obtain d where d: "?fn (st_of g) = Inr (d, True)" "gw_aclE g' = gw_aclE g"
      "sound_state (st_of g')" "granted (st_of g') = granted d" "so_revocations (gw_store g') = []"
      by (rule txn_calm)
    with draft [OF d(1)] gw_revoke_held [OF t(2)] assms show ?thesis by (simp add: synced_def in_force_upd)
  qed
  ultimately show ?case using assms by (auto split: txn.split prod.split sum.split dest: txn_failed)
qed

lemma find_upd_first: "find P xs = Some x \<Longrightarrow> P (f x) \<Longrightarrow> find P (upd_first P f xs) = Some (f x)"
  by (induction xs) (auto split: if_splits)

lemma pair_in_find:
  assumes "distinct (map pair_of (gs_Grants d))"
  shows "pair_in d p m = find (is_pair p m) (gs_Grants d)"
proof -
  have "find (is_pair p m) (rev grs) = find (is_pair p m) grs" if "distinct (map pair_of grs)" for grs
    using that
  proof (induction grs)
    case (Cons gr grs)
    have app: "find P (xs @ ys) = (case find P xs of None \<Rightarrow> find P ys | Some x \<Rightarrow> Some x)" for P and xs ys :: "grant_rec list"
      by (induction xs) auto
    show ?case
    proof (cases "is_pair p m gr")
      case True
      then have "find (is_pair p m) grs = None" using Cons.prems by (auto simp: find_None_iff is_pair_def image_iff)
      with True Cons show ?thesis by (simp add: app)
    qed (use Cons in \<open>auto simp: app split: option.split\<close>)
  qed simp
  with assms show ?thesis by (simp add: pair_in_def)
qed

lemma set_caps_draft:
  assumes "sound_state st" "set_caps_txn p m caps st = Inr (d, r)"
  shows "calm st d \<and> (case r of None \<Rightarrow> d = st
    | Some (was, u) \<Rightarrow> \<exists>gr. find (is_pair p m) (gs_Grants st) = Some gr \<and> gr_Caps gr = [was] \<and> u = gr_Until gr \<and>
        granted d = (granted st)((p, m) \<mapsto> (u, caps)))"
proof (cases "find (is_pair p m) (gs_Grants st)")
  case None
  with assms(2) show ?thesis by (auto simp: set_caps_txn_def SetGrantCaps_def calm_def)
next
  case (Some gr)
  let ?d = "st\<lparr>gs_Grants := upd_first (is_pair p m) (\<lambda>g. g\<lparr>gr_Caps := caps\<rparr>) (gs_Grants st)\<rparr>"
  have "map pair_of (gs_Grants ?d) = map pair_of (gs_Grants st)" by (simp add: upd_first_props(1))
  then have "pair_in ?d p m = Some (gr\<lparr>gr_Caps := caps\<rparr>)"
    using pair_in_find [of ?d p m] find_upd_first [OF Some] find_is_pair [OF Some] assms(1)
    by (simp add: sound_state_def is_pair_def)
  moreover have "\<exists>c. gr_Caps gr = [c]"
    using good_of_grant [OF assms(1)] find_is_pair [OF Some] by (auto simp: good_terms_def)
  ultimately show ?thesis
    using assms(2) Some granted_update [OF Some, of "\<lambda>g. g\<lparr>gr_Caps := caps\<rparr>"] by (auto simp: set_caps_txn_def SetGrantCaps_def)
qed

lemma set_until_draft:
  assumes "sound_state st" "set_until_txn p m u st = Inr (d, r)"
  shows "calm st d \<and> (case r of None \<Rightarrow> d = st
    | Some (was, caps) \<Rightarrow> \<exists>gr. find (is_pair p m) (gs_Grants st) = Some gr \<and> gr_Caps gr = caps \<and> was = gr_Until gr \<and>
        granted d = (granted st)((p, m) \<mapsto> (u, caps)))"
proof (cases "find (is_pair p m) (gs_Grants st)")
  case None
  with assms(2) show ?thesis by (auto simp: set_until_txn_def SetGrantUntil_def calm_def)
next
  case (Some gr)
  let ?d = "st\<lparr>gs_Grants := upd_first (is_pair p m) (\<lambda>g. g\<lparr>gr_Until := u\<rparr>) (gs_Grants st)\<rparr>"
  have "map pair_of (gs_Grants ?d) = map pair_of (gs_Grants st)" by (simp add: upd_first_props(1))
  then have "pair_in ?d p m = Some (gr\<lparr>gr_Until := u\<rparr>)"
    using pair_in_find [of ?d p m] find_upd_first [OF Some] find_is_pair [OF Some] assms(1)
    by (simp add: sound_state_def is_pair_def)
  then show ?thesis
    using assms(2) Some granted_update [OF Some, of "\<lambda>g. g\<lparr>gr_Until := u\<rparr>"] by (auto simp: set_until_txn_def SetGrantUntil_def)
qed

text \<open>The end of \<open>grants.set-caps\<close> and \<open>grants.extend\<close>: sessions are cut where access shrinks, then the engine is told.\<close>

lemma tell_synced:
  assumes "synced now g" "0 \<le> now" "good_terms p m caps"
    and g1: "gw_aclE g1 = gw_aclE g" "sound_state (st_of g1)" "so_revocations (gw_store g1) = []"
      "granted (st_of g1) = (granted (st_of g))((p, m) \<mapsto> (u, caps))"
    and old: "live_until now u \<or> (\<exists>c. granted (st_of g) (p, m) = Some (u, c))"
    and cut: "(if shrinks then (case gw_revoke g1 p m now cause of (g', r) \<Rightarrow> (g', killed_by r)) else (g1, Inr 0)) = (g2, k)"
  shows "\<exists>n. k = Inr n" "gw_add_grant g2 p m u caps now = (g3, err) \<Longrightarrow> synced now g3"
proof -
  have g2: "gw_store g2 = gw_store g1" "held (gw_aclE g2) = (if shrinks then (held (gw_aclE g))((p, m) := None) else held (gw_aclE g))"
    using cut g1(1) gw_revoke_held [of g1 p m now cause] by (auto split: if_splits prod.splits)
  show "\<exists>n. k = Inr n" using cut revoke_never_fails [of g1 p m now cause] by (auto split: if_splits prod.splits)
  have eq: "in_force now (held (gw_aclE g)) y = in_force now (granted (st_of g)) y" for y
    using assms(1) by (simp add: synced_def)
  assume add: "gw_add_grant g2 p m u caps now = (g3, err)"
  show "synced now g3"
  proof (rule add_synced [OF add assms(2,3), of "granted (st_of g)"])
    show "in_force now (held (gw_aclE g2)) (p, m) = None" if "\<not> live_until now u"
      using that old eq [of "(p, m)"] by (auto simp: g2 in_force_def split: if_splits)
    show "in_force now (held (gw_aclE g2)) y = in_force now (granted (st_of g)) y" if "y \<noteq> (p, m)" for y
      using that eq [of y] by (auto simp: g2 in_force_def)
  qed (use g1 g2 in simp_all)
qed

lemma set_caps_told:
  assumes "synced now g" "0 \<le> now" "caps_ok caps" "gw_txn c i (set_caps_txn p m caps) g = (g1, TxDone (Some (was, u)))"
    and cut: "(if shrinks then (case gw_revoke g1 p m now cause of (g', r) \<Rightarrow> (g', killed_by r)) else (g1, Inr 0)) = (g2, k)"
  shows "was = hd caps \<Longrightarrow> synced now g1" "\<exists>n. k = Inr n" "gw_add_grant g2 p m u caps now = (g3, err) \<Longrightarrow> synced now g3"
proof -
  have sound: "sound_state (st_of g)" using assms(1) by (simp add: synced_def)
  have "calm (st_of g) d" if "set_caps_txn p m caps (st_of g) = Inr (d, x)" for d x using set_caps_draft [OF sound that] by blast
  with assms(4,1) obtain d where d: "set_caps_txn p m caps (st_of g) = Inr (d, Some (was, u))" "gw_aclE g1 = gw_aclE g"
    "sound_state (st_of g1)" "granted (st_of g1) = granted d" "so_revocations (gw_store g1) = []" by (rule txn_calm)
  from set_caps_draft [OF sound d(1)] obtain gr where gr: "find (is_pair p m) (gs_Grants (st_of g)) = Some gr" "gr_Caps gr = [was]"
    "u = gr_Until gr" "granted d = (granted (st_of g))((p, m) \<mapsto> (u, caps))" by auto
  have good: "good_terms p m caps"
    using good_of_grant [OF sound] find_is_pair [OF gr(1)] assms(3) by (auto simp: good_terms_def caps_ok_cases)
  have g1: "granted (st_of g1) = (granted (st_of g))((p, m) \<mapsto> (u, caps))" using d(4) gr(4) by simp
  have old: "live_until now u \<or> (\<exists>c. granted (st_of g) (p, m) = Some (u, c))" using granted_find [OF gr(1)] gr(3) by simp
  note told = tell_synced [OF assms(1,2) good d(2,3,5) g1 old cut]
  show "\<exists>n. k = Inr n" by (rule told(1))
  show "synced now g3" if "gw_add_grant g2 p m u caps now = (g3, err)" using that by (rule told(2))
  show "synced now g1" if "was = hd caps"
  proof -
    have "granted (st_of g) (p, m) = Some (u, caps)" using that assms(3) gr granted_find [OF gr(1)] by (auto simp: caps_ok_def)
    then have "granted (st_of g1) = granted (st_of g)" using g1 by (simp add: fun_upd_idem)
    with assms(1) d show ?thesis by (simp add: synced_def)
  qed
qed

lemma set_caps_none:
  assumes "synced now g" "gw_txn c i (set_caps_txn p m caps) g = (g1, TxDone None)"
  shows "synced now g1"
proof -
  have sound: "sound_state (st_of g)" using assms(1) by (simp add: synced_def)
  have "calm (st_of g) d" if "set_caps_txn p m caps (st_of g) = Inr (d, x)" for d x using set_caps_draft [OF sound that] by blast
  with assms(2,1) obtain d where d: "set_caps_txn p m caps (st_of g) = Inr (d, None)" "gw_aclE g1 = gw_aclE g"
    "sound_state (st_of g1)" "granted (st_of g1) = granted d" "so_revocations (gw_store g1) = []" by (rule txn_calm)
  with set_caps_draft [OF sound d(1)] assms(1) show ?thesis by (simp add: synced_def)
qed

lemma set_caps_synced:
  assumes "synced now g" "0 \<le> now"
  shows "synced now (fst (cmdGrantsSetCaps c i person now b g))"
  unfolding cmdGrantsSetCaps_def
proof (rule synced_with_request [OF assms(1)], goal_cases)
  case (1 req)
  let ?p = "pc_Person req" and ?m = "pc_Machine req" and ?caps = "pc_Caps req"
  show ?case
  proof (cases "caps_ok ?caps")
    case ok: True
    obtain g1 r where t: "gw_txn c i (set_caps_txn ?p ?m ?caps) g = (g1, r)" by force
    note failed = txn_not_done [OF t assms(1)]
    show ?thesis
    proof (cases r)
      case (TxDone res)
      show ?thesis
      proof (cases res)
        case None
        with TxDone t ok show ?thesis using set_caps_none [OF assms(1)] by simp
      next
        case (Some w)
        obtain was u where w: "w = (was, u)" by force
        note t' = t [unfolded TxDone Some w]
        obtain g2 k where cut: "(if was = ''shell'' \<and> hd ?caps = ''exec''
          then (case gw_revoke g1 ?p ?m now DenyGrantChanged of (g', r) \<Rightarrow> (g', killed_by r)) else (g1, Inr 0)) = (g2, k)" by force
        note told = set_caps_told [OF assms ok t' cut]
        obtain n where k: "k = Inr n" using told(2) by blast
        obtain g3 err where a: "gw_add_grant g2 ?p ?m u ?caps now = (g3, err)" by force
        show ?thesis using told(1) told(3) [OF a] ok by (cases err) (simp_all add: t' cut k a)
      qed
    qed (use failed ok in \<open>simp_all add: t\<close>)
  qed (use assms in simp)
qed

lemma set_until_told:
  assumes "synced now g" "0 \<le> now" "live_until now u" "gw_txn c i (set_until_txn p m u) g = (g1, TxDone (Some (was, caps)))"
    and cut: "(if shrinks then (case gw_revoke g1 p m now cause of (g', r) \<Rightarrow> (g', killed_by r)) else (g1, Inr 0)) = (g2, k)"
  shows "was = u \<Longrightarrow> synced now g1" "\<exists>n. k = Inr n" "gw_add_grant g2 p m u caps now = (g3, err) \<Longrightarrow> synced now g3"
proof -
  have sound: "sound_state (st_of g)" using assms(1) by (simp add: synced_def)
  have "calm (st_of g) d" if "set_until_txn p m u (st_of g) = Inr (d, x)" for d x using set_until_draft [OF sound that] by blast
  with assms(4,1) obtain d where d: "set_until_txn p m u (st_of g) = Inr (d, Some (was, caps))" "gw_aclE g1 = gw_aclE g"
    "sound_state (st_of g1)" "granted (st_of g1) = granted d" "so_revocations (gw_store g1) = []" by (rule txn_calm)
  from set_until_draft [OF sound d(1)] obtain gr where gr: "find (is_pair p m) (gs_Grants (st_of g)) = Some gr" "gr_Caps gr = caps"
    "was = gr_Until gr" "granted d = (granted (st_of g))((p, m) \<mapsto> (u, caps))" by auto
  have good: "good_terms p m caps" using good_of_grant [OF sound] find_is_pair [OF gr(1)] gr(2) by auto
  have g1: "granted (st_of g1) = (granted (st_of g))((p, m) \<mapsto> (u, caps))" using d(4) gr(4) by simp
  note told = tell_synced [OF assms(1,2) good d(2,3,5) g1 disjI1 [OF assms(3)] cut]
  show "\<exists>n. k = Inr n" by (rule told(1))
  show "synced now g3" if "gw_add_grant g2 p m u caps now = (g3, err)" using that by (rule told(2))
  show "synced now g1" if "was = u"
  proof -
    have "granted (st_of g1) = granted (st_of g)" using that gr granted_find [OF gr(1)] g1 by (simp add: fun_upd_idem)
    with assms(1) d show ?thesis by (simp add: synced_def)
  qed
qed

lemma set_until_none:
  assumes "synced now g" "gw_txn c i (set_until_txn p m u) g = (g1, TxDone None)"
  shows "synced now g1"
proof -
  have sound: "sound_state (st_of g)" using assms(1) by (simp add: synced_def)
  have "calm (st_of g) d" if "set_until_txn p m u (st_of g) = Inr (d, x)" for d x using set_until_draft [OF sound that] by blast
  with assms(2,1) obtain d where d: "set_until_txn p m u (st_of g) = Inr (d, None)" "gw_aclE g1 = gw_aclE g"
    "sound_state (st_of g1)" "granted (st_of g1) = granted d" "so_revocations (gw_store g1) = []" by (rule txn_calm)
  with set_until_draft [OF sound d(1)] assms(1) show ?thesis by (simp add: synced_def)
qed

lemma extend_synced:
  assumes "synced now g" "0 \<le> now"
  shows "synced now (fst (cmdGrantsExtend c i person now b g))"
  unfolding cmdGrantsExtend_def
proof (rule synced_with_request [OF assms(1)], goal_cases)
  case (1 req)
  let ?p = "px_Person req" and ?m = "px_Machine req"
  show ?case
  proof (cases "parse_deadline c (px_Text req) now")
    case ok: (Some u)
    obtain g1 r where t: "gw_txn c i (set_until_txn ?p ?m u) g = (g1, r)" by force
    note failed = txn_not_done [OF t assms(1)]
    show ?thesis
    proof (cases r)
      case (TxDone res)
      show ?thesis
      proof (cases res)
        case None
        with TxDone t ok show ?thesis using set_until_none [OF assms(1)] by simp
      next
        case (Some w)
        obtain was caps where w: "w = (was, caps)" by force
        note t' = t [unfolded TxDone Some w]
        obtain g2 k where cut: "(if shortening was u
          then (case gw_revoke g1 ?p ?m now DenyGrantChanged of (g', r) \<Rightarrow> (g', killed_by r)) else (g1, Inr 0)) = (g2, k)" by force
        note told = set_until_told [OF assms deadline_ahead [OF ok] t' cut]
        obtain n where k: "k = Inr n" using told(2) by blast
        obtain g3 err where a: "gw_add_grant g2 ?p ?m u caps now = (g3, err)" by force
        show ?thesis using told(1) told(3) [OF a] ok by (cases err) (simp_all add: t' cut k a)
      qed
    qed (use failed ok in \<open>simp_all add: t\<close>)
  qed (use assms in simp)
qed

section \<open>Renaming a person\<close>

definition moved_terms :: "moved_grant list \<Rightarrow> string \<Rightarrow> (instant option \<times> string list) option" where
  "moved_terms mgs = map_of (map (\<lambda>mg. (mg_machine mg, (mg_until mg, mg_caps mg))) mgs)"

lemma moved_terms_eq:
  assumes "distinct (map pair_of (gs_Grants st))"
  shows "moved_terms (moved_grants now src st) m = in_force now (granted st) (src, m)"
    "distinct (map mg_machine (moved_grants now src st))"
proof -
  let ?t = "\<lambda>gr. (pair_of gr, (gr_Until gr, gr_Caps gr))"
  let ?mk = "\<lambda>gr. \<lparr>mg_machine = gr_Machine gr, mg_until = gr_Until gr, mg_caps = gr_Caps gr\<rparr>"
  let ?P = "\<lambda>gr. gr_Person gr = src \<and> live_until now (gr_Until gr)"
  have "moved_terms (map ?mk (filter ?P grs)) m = in_force now (map_of (map ?t grs)) (src, m)" if "distinct (map pair_of grs)" for grs
    using that
  proof (induction grs)
    case (Cons gr grs)
    have "map_of (map ?t grs) (src, m) = None" if "gr_Person gr = src" "gr_Machine gr = m"
      using that Cons.prems by (auto simp: map_of_eq_None_iff image_iff)
    with Cons show ?case by (auto simp: moved_terms_def in_force_def)
  qed (simp add: moved_terms_def in_force_def)
  with assms show "moved_terms (moved_grants now src st) m = in_force now (granted st) (src, m)"
    by (simp add: moved_grants_def granted_def)
  have "distinct (map mg_machine (map ?mk (filter ?P grs)))" if "distinct (map pair_of grs)" for grs
    using that by (induction grs) (auto simp: image_iff)
  with assms show "distinct (map mg_machine (moved_grants now src st))" by (simp add: moved_grants_def)
qed

lemma revoke_moved_held:
  assumes "revoke_moved g name now mgs = (g', r)"
  shows "gw_store g' = gw_store g" "\<exists>n. r = Inr n"
    "held (gw_aclE g') = (\<lambda>x. if fst x = name \<and> snd x \<in> mg_machine ` set mgs then None else held (gw_aclE g) x)"
proof -
  have "gw_store g' = gw_store g \<and> (\<exists>n. r = Inr n) \<and>
      held (gw_aclE g') = (\<lambda>x. if fst x = name \<and> snd x \<in> mg_machine ` set mgs then None else held (gw_aclE g) x)"
    using assms
  proof (induction mgs arbitrary: g g' r)
    case (Cons mg mgs)
    obtain g1 r1 where rv: "gw_revoke g name (mg_machine mg) now DenyPersonRenamed = (g1, r1)" by force
    obtain n where n: "killed_by r1 = Inr n" using revoke_never_fails [OF rv] by blast
    obtain g2 r2 where rest: "revoke_moved g1 name now mgs = (g2, r2)" by force
    from Cons.IH [OF rest] gw_revoke_held [OF rv] Cons.prems show ?case by (auto simp: rv n rest fun_eq_iff)
  qed auto
  then show "gw_store g' = gw_store g" "\<exists>n. r = Inr n"
    "held (gw_aclE g') = (\<lambda>x. if fst x = name \<and> snd x \<in> mg_machine ` set mgs then None else held (gw_aclE g) x)" by blast+
qed

lemma add_moved_held:
  assumes "add_moved g name now mgs = (g', r)" "0 \<le> now" "distinct (map mg_machine mgs)"
    "\<And>mg. mg \<in> set mgs \<Longrightarrow> good_terms name (mg_machine mg) (mg_caps mg) \<and> live_until now (mg_until mg)"
  shows "gw_store g' = gw_store g \<and> r = None \<and> held (gw_aclE g') =
    (\<lambda>x. if fst x = name \<and> moved_terms mgs (snd x) \<noteq> None then moved_terms mgs (snd x) else held (gw_aclE g) x)"
  using assms(1,3,4)
proof (induction mgs arbitrary: g)
  case (Cons mg mgs)
  obtain g1 e1 where a: "gw_add_grant g name (mg_machine mg) (mg_until mg) (mg_caps mg) now = (g1, e1)" by force
  have mg: "good_terms name (mg_machine mg) (mg_caps mg)" "live_until now (mg_until mg)" using Cons.prems(3) [of mg] by simp_all
  note one = gw_add_held [OF a assms(2) mg(1)]
  have "add_moved g1 name now mgs = (g', r)" using Cons.prems(1) one mg(2) by (simp add: a)
  with Cons.IH [of g1] Cons.prems have rest: "gw_store g' = gw_store g1 \<and> r = None \<and> held (gw_aclE g') =
      (\<lambda>x. if fst x = name \<and> moved_terms mgs (snd x) \<noteq> None then moved_terms mgs (snd x) else held (gw_aclE g1) x)" by simp
  have "moved_terms mgs (mg_machine mg) = None"
    using Cons.prems(2) by (auto simp: moved_terms_def map_of_eq_None_iff image_image)
  with rest one mg(2) show ?case by (auto simp: moved_terms_def fun_eq_iff)
qed (simp add: moved_terms_def)

lemma renamed_terms:
  assumes "sound_state st" "RenamePerson st src dst = Inr (d, True)"
  shows "granted d x = (if fst x = src then None else if fst x = dst then granted st (src, snd x) else granted st x)"
    "granted st (dst, m) = None" "x \<in> dom (granted d) \<Longrightarrow> \<not> cast_off st d x"
proof -
  let ?t = "\<lambda>gr. (pair_of gr, (gr_Until gr, gr_Caps gr))" and ?f = "\<lambda>gr. if gr_Person gr = src then gr\<lparr>gr_Person := dst\<rparr> else gr"
  have names: "src \<in> pe_Name ` set (gs_People st)" "dst \<notin> pe_Name ` set (gs_People st)"
    and d: "d = st\<lparr>gs_People := map (\<lambda>p. if pe_Name p = src then p\<lparr>pe_Name := dst\<rparr> else p) (gs_People st),
        gs_Grants := map ?f (gs_Grants st), gs_Goals := map (\<lambda>g. if go_Person g = src then g\<lparr>go_Person := dst\<rparr> else g) (gs_Goals st)\<rparr>"
    using assms(2) by (auto simp: RenamePerson_def HasPerson_iff split: if_splits)
  have nodst: "gr_Person gr \<noteq> dst" if "gr \<in> set (gs_Grants st)" for gr
    using assms(1) that names(2) unfolding sound_state_def by blast
  then show "granted st (dst, m) = None" unfolding granted_def map_of_eq_None_iff by fastforce
  have "src \<noteq> dst" using names by blast
  then have "map_of (map ?t (map ?f grs)) x =
      (if fst x = src then None else if fst x = dst then map_of (map ?t grs) (src, snd x) else map_of (map ?t grs) x)"
    if "\<And>gr. gr \<in> set grs \<Longrightarrow> gr_Person gr \<noteq> dst" for grs
    using that by (induction grs) (auto simp: prod_eq_iff)
  with nodst show terms: "granted d x = (if fst x = src then None else if fst x = dst then granted st (src, snd x) else granted st x)"
    by (simp add: granted_def d)
  show "\<not> cast_off st d x" if "x \<in> dom (granted d)"
  proof
    assume "cast_off st d x"
    then obtain old where old: "old \<in> set (gs_Grants st)" "pair_of old = x"
      "fst x \<notin> pe_Name ` set (gs_People d) \<or> \<not> (\<exists>m \<in> set (gs_Machines d). mc_ID m = snd x \<and> fp_of (mc_MachineKey m) = gr_MachineKeyFingerprint old)"
      by (auto simp: cast_off_def)
    have "fst x \<noteq> src" using that terms by (auto split: if_splits)
    moreover have "fst x \<in> pe_Name ` set (gs_People st)" "\<exists>m \<in> set (gs_Machines st). mc_ID m = snd x \<and> fp_of (mc_MachineKey m) = gr_MachineKeyFingerprint old"
      using assms(1) old(1,2) by (auto simp: sound_state_def wf_grant_def)
    ultimately show False using old(3) by (force simp: d image_iff)
  qed
qed

lemma rename_told:
  assumes "synced now g" "0 \<le> now" "dst \<noteq> ''''"
    and t: "gw_txn c i (\<lambda>st. map_sum id (\<lambda>(d, ok). (d, moved_grants now src st, ok)) (RenamePerson st src dst)) g =
      (g1, TxDone (mgs, True))"
    and moves: "revoke_moved g1 src now mgs = (g2, k)" "add_moved g2 dst now mgs = (g3, err)"
  shows "(\<exists>n. k = Inr n) \<and> err = None \<and> synced now g3"
proof -
  have sound: "sound_state (st_of g)" using assms(1) by (simp add: synced_def)
  then have dist: "distinct (map pair_of (gs_Grants (st_of g)))" by (simp add: sound_state_def)
  from t assms(1) obtain d where d: "RenamePerson (st_of g) src dst = Inr (d, True)" "mgs = moved_grants now src (st_of g)"
    "gw_aclE g1 = gw_aclE g" "sound_state (st_of g1)" "granted (st_of g1) = (\<lambda>x. if cast_off (st_of g) d x then None else granted d x)"
    "due_pairs g1 = {x \<in> dom (granted d). cast_off (st_of g) d x}"
    by (cases rule: txn_synced) (auto simp: map_sum_Inr)
  note terms = renamed_terms [OF sound d(1)]
  have "due_pairs g1 = {}" using d(6) terms(3) by blast
  then have g1: "granted (st_of g1) x = granted d x" "so_revocations (gw_store g1) = []" for x
    using d(5) terms(3) [of x] by (cases "granted d x"; auto simp: due_pairs_def)+
  have good: "good_terms dst (mg_machine mg) (mg_caps mg) \<and> live_until now (mg_until mg)" if "mg \<in> set mgs" for mg
  proof -
    from that obtain gr where "gr \<in> set (gs_Grants (st_of g))" "live_until now (gr_Until gr)"
      "mg = \<lparr>mg_machine = gr_Machine gr, mg_until = gr_Until gr, mg_caps = gr_Caps gr\<rparr>"
      by (auto simp: d(2) moved_grants_def)
    with good_of_grant [OF sound, of gr] assms(3) show ?thesis by (simp add: good_terms_def)
  qed
  note rv = revoke_moved_held [OF moves(1)]
  have mv: "moved_terms mgs m = in_force now (granted (st_of g)) (src, m)" "distinct (map mg_machine mgs)" for m
    using moved_terms_eq [OF dist] by (simp_all add: d(2))
  note ad = add_moved_held [OF moves(2) assms(2) mv(2) good]
  have eq: "in_force now (held (gw_aclE g)) y = in_force now (granted (st_of g)) y" for y using assms(1) by (simp add: synced_def)
  have machines: "m \<in> mg_machine ` set mgs \<longleftrightarrow> moved_terms mgs m \<noteq> None" for m
    by (auto simp: moved_terms_def map_of_eq_None_iff image_image)
  have srcdst: "src \<noteq> dst" using d(1) by (auto simp: RenamePerson_def split: if_splits)
  have "in_force now (held (gw_aclE g3)) x = in_force now (granted d) x" for x
  proof -
    obtain p m where x: "x = (p, m)" by force
    have idem: "in_force now t y = Some (u, cs) \<Longrightarrow> live_until now u" for t y u cs
      by (auto simp: in_force_def split: option.splits if_splits)
    have h: "held (gw_aclE g3) x = (if p = dst \<and> moved_terms mgs m \<noteq> None then moved_terms mgs m
        else if p = src \<and> moved_terms mgs m \<noteq> None then None else held (gw_aclE g) x)"
      using ad rv(3) d(3) machines [of m] srcdst by (cases "moved_terms mgs m") (auto simp: x)
    show ?thesis
    proof (cases "moved_terms mgs m")
      case None
      with h eq [of x] terms(1) [of x] terms(2) [of m] mv(1) [of m] srcdst show ?thesis
        by (auto simp: in_force_def x)
    next
      case (Some v)
      with h eq [of x] terms(1) [of x] terms(2) [of m] mv(1) [of m] srcdst show ?thesis
        by (auto simp: in_force_def x split: option.splits if_splits prod.splits)
    qed
  qed
  then have "in_force now (held (gw_aclE g3)) = in_force now (granted (st_of g1))" using g1 by (simp add: in_force_def fun_eq_iff)
  moreover have "gw_store g3 = gw_store g1" "err = None" using ad rv(1) by auto
  ultimately show ?thesis using rv(2) g1(2) d(4) by (auto simp: synced_def)
qed

lemma rename_synced:
  assumes "synced now g" "0 \<le> now"
  shows "synced now (fst (cmdPeopleRename c i person now b g))"
  unfolding cmdPeopleRename_def
proof (rule synced_with_request [OF assms(1)], goal_cases)
  case (1 req)
  let ?src = "rr_From req" and ?dst = "rr_To req"
  let ?fn = "\<lambda>st. map_sum id (\<lambda>(d, ok). (d, moved_grants now ?src st, ok)) (RenamePerson st ?src ?dst)"
  show ?case
  proof (cases "ValidName ?dst \<and> ?dst \<notin> set reservedPersonNames")
    case ok: True
    then have dst: "?dst \<noteq> ''''" using nameRe_bounds by (auto simp: ValidName_nameRe)
    obtain g1 r where t: "gw_txn c i ?fn g = (g1, r)" by force
    note failed = txn_not_done [OF t assms(1)]
    show ?thesis
    proof (cases r)
      case (TxDone res)
      obtain mgs found where res: "res = (mgs, found)" by force
      note t' = t [unfolded TxDone res]
      show ?thesis
      proof (cases found)
        case True
        obtain g2 k where rv: "revoke_moved g1 ?src now mgs = (g2, k)" by force
        obtain g3 err where ad: "add_moved g2 ?dst now mgs = (g3, err)" by force
        have t1: "gw_txn c i ?fn g = (g1, TxDone (mgs, True))" using t' True by simp
        from rename_told [OF assms dst t1 rv ad] ok show ?thesis by (auto simp: t1 rv ad)
      next
        case False
        have "synced now g1"
          using t' assms(1)
        proof (cases rule: txn_synced)
          case (committed d x)
          then have "d = st_of g" using False by (auto simp: map_sum_Inr RenamePerson_def split: if_splits)
          with txn_neutral' [OF t' assms(1)] committed(2) show ?thesis by auto
        qed
        with False ok show ?thesis by (simp add: t')
      qed
    qed (use failed ok in \<open>simp_all add: t\<close>)
  qed (use assms in auto)
qed

end
