(* ===== verification/Onboarding_Safety.thy ===== *)
theory Onboarding_Safety
  imports Onboarding Demo_Gateway
begin

text \<open>
  What the one-shot roles guarantee: who a pairing admits, how many wrong PINs a window answers, that the
  bootstrap token and an enrolment secret work once, that PINs are drawn evenly, and that no role answers "ok"
  without its line in the journal.
\<close>

lemma final_draft_windows [simp]:
  "gs_PairingPending (final_draft p d) = gs_PairingPending d" "gs_BootstrapPending (final_draft p d) = gs_BootstrapPending d"
  "gs_PendingEnrolments (final_draft p d) = gs_PendingEnrolments d"
  by (simp_all add: final_draft_def reconcileRecentCommands_def reconcileGoals_def reconcileGrants_def split: prod.split)

section \<open>The pairing window\<close>

lemma bill_address_fields [simp]: "gw_store (bill_address c g addr fp now) = gw_store g"
proof -
  have "gw_store (foldl (rate_exceeded c) g evs) = gw_store g" for g evs
    by (induction evs arbitrary: g) (simp_all add: rate_exceeded_def split: rate_event.split)
  then show ?thesis by (simp add: bill_address_def split: prod.split)
qed

lemma answer_store [simp]: "gw_store (fst (answer_pairing c g r addr fp now)) = gw_store g"
  by (simp add: answer_pairing_def burnPairingWindowEvent_def Let_def split: txn.split pair_verdict.split)

lemmas pairing_errors = errPairingProtocol_def errPairingPinInvalid_def errPairingInactive_def errPairingStaleWindow_def
  errPairingWindowBurned_def errPairingExpired_def errPairingLocked_def errPairingConflict_def errPairingInternal_def errf_def

text \<open>The states a run of the role can leave, with the answer that goes with each.\<close>

inductive pairing_outcome :: "gw_config \<Rightarrow> pairing_request option \<Rightarrow> string \<Rightarrow> instant \<Rightarrow> gateway \<Rightarrow> gw_state \<Rightarrow> (cmdError + string) option \<Rightarrow> bool"
  for c req binding now g where
  untouched: "r \<noteq> Some (Inl errPairingPinInvalid) \<Longrightarrow> \<forall>name. r \<noteq> Some (Inr name) \<Longrightarrow>
    gs_People st' = gs_People (st_of g) \<Longrightarrow> gs_PairingPending st' = gs_PairingPending (st_of g) \<Longrightarrow>
    pairing_outcome c req binding now g st' r"
| missed: "gs_PairingPending (st_of g) = Some pp \<Longrightarrow> pp_Misses pp + 1 < PairingWindowMissLimit \<Longrightarrow>
    gs_PairingPending st' = Some (pp\<lparr>pp_Misses := pp_Misses pp + 1\<rparr>) \<Longrightarrow> gs_People st' = gs_People (st_of g) \<Longrightarrow>
    pairing_outcome c req binding now g st' (Some (Inl errPairingPinInvalid))"
| burned: "gs_PairingPending (st_of g) = Some pp \<Longrightarrow> \<not> pp_Misses pp + 1 < PairingWindowMissLimit \<Longrightarrow>
    gs_PairingPending st' = None \<Longrightarrow> gs_People st' = gs_People (st_of g) \<Longrightarrow>
    pairing_outcome c req binding now g st' (Some (Inl errPairingWindowBurned))"
| paired: "req = Some rq \<Longrightarrow> gs_PairingPending (st_of g) = Some pp \<Longrightarrow> now < pp_Expires pp \<Longrightarrow>
    binding = '''' \<or> binding = hex_encode (pp_SecretHash pp) \<Longrightarrow>
    HashEnrolSecret (gw_enrolHMAC g) (bytes_of (pq_Pin rq)) = Some (pp_SecretHash pp) \<Longrightarrow>
    validPin (pq_Pin rq) (cf_PINDigits c) \<Longrightarrow> ValidateKeyMaterial (pq_Pubkey rq) = None \<Longrightarrow>
    ComputeFingerprint (pq_Pubkey rq) = Inr keyFP \<Longrightarrow> \<not> key_registered (st_of g) keyFP \<Longrightarrow>
    pairingPersonName (st_of g) (pq_Name rq) = Inr name \<Longrightarrow>
    gs_People st' = gs_People (st_of g) @ [new_admin name keyFP (pq_Pubkey rq) now] \<Longrightarrow> gs_PairingPending st' = None \<Longrightarrow>
    pairing_outcome c req binding now g st' (Some (Inr name))"

inductive_cases pairing_outcomeE: "pairing_outcome c req binding now g st' r"

lemma window_open:
  assumes "window_refusal binding now w = None"
  obtains pp where "w = Some pp" "now < pp_Expires pp" "binding = '''' \<or> binding = hex_encode (pp_SecretHash pp)"
  using assms by (auto simp: window_refusal_def pairingBindingStale_def pairingWindowBindingHex_def split: option.splits if_splits)

lemma answer_of_txn:
  assumes "gw_txn c i (\<lambda>st. Inr (f st)) g = (g', r :: (unit, pair_verdict) txn)"
    "answer_pairing c g' r addr fp now = (g'', a)"
  obtains (kept) "a \<noteq> Some (Inl errPairingPinInvalid)" "\<forall>name. a \<noteq> Some (Inr name)" "st_of g'' = st_of g"
  | (verdict) d v s where "f (st_of g) = (d, v)" "r = TxDone v" "g' = g\<lparr>gw_store := s\<rparr>"
      "gs_People (st_of g'') = gs_People d" "gs_PairingPending (st_of g'') = gs_PairingPending d"
  using assms(1)
proof (cases rule: gw_txn_cases)
  case (committed d v s)
  have "gw_store g'' = gw_store g'" using assms(2) answer_store [of c g' r addr fp now] by simp
  with committed show ?thesis by (intro verdict [of d v s]) auto
next
  case (refused e s)
  then show ?thesis by simp
next
  case (failed err s)
  with assms(2) show ?thesis by (intro kept) (auto simp: answer_pairing_def pairing_errors)
qed

lemma miss_outcome:
  assumes "gs_PairingPending (st_of g) = Some pp" "count_miss (st_of g) = (d, misses, burned)"
    "gs_People st' = gs_People d" "gs_PairingPending st' = gs_PairingPending d"
  shows "pairing_outcome c req binding now g st' (Some (Inl (if burned then errPairingWindowBurned else errPairingPinInvalid)))"
  using assms by (cases burned) (auto simp: count_miss_def pairingWindowMissLocked_def Let_def intro: pairing_outcome.intros)

lemma answered_wrong:
  "answer_pairing c g (TxDone (PairWrong misses burned)) addr fp now = (g'', a) \<Longrightarrow>
   a = Some (Inl (if burned then errPairingWindowBurned else errPairingPinInvalid))"
  by (auto simp: answer_pairing_def Let_def split: if_splits)

text \<open>A refusal is answered as it is; none of those the role makes is the wrong-PIN answer.\<close>

lemma name_refusal: "pairingPersonName st n = Inl err \<Longrightarrow> err \<noteq> errPairingPinInvalid"
  by (auto simp: pairingPersonName_def Let_def pairing_errors split: if_splits)

lemma window_refusal_other: "window_refusal b now w = Some err \<Longrightarrow> err \<noteq> errPairingPinInvalid"
  by (auto simp: window_refusal_def pairing_errors split: option.splits if_splits)

lemma admit_cases:
  assumes "admit_paired st rq now = (d, v)"
  obtains (refused) err where "d = st" "v = PairRefused err" "err \<noteq> errPairingPinInvalid"
  | (admitted) name keyFP where "ValidateKeyMaterial (pq_Pubkey rq) = None" "ComputeFingerprint (pq_Pubkey rq) = Inr keyFP"
      "\<not> key_registered st keyFP" "pairingPersonName st (pq_Name rq) = Inr name" "v = PairDone name keyFP"
      "d = st\<lparr>gs_People := gs_People st @ [new_admin name keyFP (pq_Pubkey rq) now], gs_PairingPending := None\<rparr>"
proof -
  have e: "errPairingProtocol \<noteq> errPairingPinInvalid" "errPairingConflict \<noteq> errPairingPinInvalid" by (simp_all add: pairing_errors)
  show thesis
    using assms e
    by (auto simp: admit_paired_def split: if_splits sum.splits intro: refused admitted dest: name_refusal)
qed

lemma early_errors:
  "errf ''E_JSON_FIELD_UNKNOWN'' 3 \<noteq> errPairingPinInvalid" "errf ''E_JSON_INVALID'' 3 \<noteq> errPairingPinInvalid"
  "errf ''E_PROTO_GATEWAY_NEWER'' 4 \<noteq> errPairingPinInvalid" "errf ''E_PROTO_CLIENT_NEWER'' 4 \<noteq> errPairingPinInvalid"
  "errPairingLocked \<noteq> errPairingPinInvalid"
  by (simp_all add: pairing_errors)

text \<open>A PIN of the wrong shape, and one that is compared.\<close>

lemma shape_outcome:
  assumes "window_refusal binding now (gs_PairingPending (st_of g)) = None"
    "gw_txn c i (\<lambda>st. Inr (countPairingMiss st binding now)) (g\<lparr>gw_pairRate := l\<rparr>) = (g1, r1 :: (unit, pair_verdict) txn)"
    "answer_pairing c g1 r1 addr fp now = (g', r)"
  shows "pairing_outcome c req binding now g (st_of g') r"
proof -
  from window_open [OF assms(1)] obtain pp where pp: "gs_PairingPending (st_of g) = Some pp" by metis
  from assms(2,3) show ?thesis
  proof (cases rule: answer_of_txn)
    case kept
    then show ?thesis by (intro untouched) auto
  next
    case (verdict d' v s)
    with assms(1) obtain misses burned where v: "v = PairWrong misses burned" "count_miss (st_of g) = (d', misses, burned)"
      by (auto simp: countPairingMiss_def split: prod.splits)
    with answered_wrong assms(3) verdict(2)
    have "r = Some (Inl (if burned then errPairingWindowBurned else errPairingPinInvalid))" by blast
    with miss_outcome [OF pp v(2) verdict(4,5)] show ?thesis by simp
  qed
qed

lemma graded_outcome:
  assumes "window_refusal binding now (gs_PairingPending (st_of g)) = None" "validPin (pq_Pin rq) (cf_PINDigits c)"
    "HashEnrolSecret (gw_enrolHMAC g) (bytes_of (pq_Pin rq)) = Some presented"
    "gw_txn c i (\<lambda>st. Inr (grade_pin st rq presented binding now)) (g\<lparr>gw_pairRate := l\<rparr>) = (g1, r1 :: (unit, pair_verdict) txn)"
    "answer_pairing c g1 r1 addr fp now = (g', r)"
  shows "pairing_outcome c (Some rq) binding now g (st_of g') r"
proof -
  from window_open [OF assms(1)] obtain pp where pp: "gs_PairingPending (st_of g) = Some pp" "now < pp_Expires pp"
    "binding = '''' \<or> binding = hex_encode (pp_SecretHash pp)" by metis
  from assms(4,5) show ?thesis
  proof (cases rule: answer_of_txn)
    case kept
    then show ?thesis by (intro untouched) auto
  next
    case (verdict d' v s)
    show ?thesis
    proof (cases "pp_SecretHash pp = presented")
      case False
      with verdict(1) assms(1) pp obtain misses burned
        where v: "v = PairWrong misses burned" "count_miss (st_of g) = (d', misses, burned)"
        by (auto simp: grade_pin_def split: prod.splits)
      with answered_wrong assms(5) verdict(2)
      have "r = Some (Inl (if burned then errPairingWindowBurned else errPairingPinInvalid))" by blast
      with miss_outcome [OF pp(1) v(2) verdict(4,5)] show ?thesis by simp
    next
      case True
      with verdict(1) assms(1) pp have "admit_paired (st_of g) rq now = (d', v)" by (simp add: grade_pin_def)
      then show ?thesis
      proof (cases rule: admit_cases)
        case (refused err)
        with assms(5) verdict show ?thesis by (intro untouched) (auto simp: answer_pairing_def)
      next
        case (admitted name keyFP)
        with assms(5) verdict(2) have "r = Some (Inr name)" by (auto simp: answer_pairing_def)
        with admitted pp True assms(2,3) verdict(4,5) show ?thesis
          by (auto intro!: paired [where rq = rq and pp = pp and keyFP = keyFP])
      qed
    qed
  qed
qed

lemma early_outcome: "err \<noteq> errPairingPinInvalid \<Longrightarrow> pairing_outcome c req binding now g (st_of g) (Some (Inl err))"
  by (intro untouched) auto

lemma panic_outcome: "pairing_outcome c req binding now g (st_of g) None"
  by (intro untouched) auto

lemma runPairing_outcome:
  assumes "runPairing c i body peer fp binding now g = (g', r)"
  shows "pairing_outcome c (case body of Inl _ \<Rightarrow> None | Inr rq \<Rightarrow> Some rq) binding now g (st_of g') r"
  using assms
  by (auto simp: runPairing_def Let_def decodeStrict_def checkProto_def early_errors window_refusal_other
      split: sum.splits json_fault.splits if_splits option.splits prod.splits
      intro: early_outcome panic_outcome shape_outcome graded_outcome)
    (rule early_outcome, simp add: early_errors window_refusal_other)+


text \<open>The name chosen for a paired person is free.\<close>

lemma free_admin_free: "\<not> personNameOccupied st (free_admin st n)"
  by (induction st n rule: free_admin.induct) (subst free_admin.simps, simp)

lemma pairingPersonName_free: "pairingPersonName st requested = Inr name \<Longrightarrow> \<not> HasPerson st name"
  using free_admin_free
  by (auto simp: pairingPersonName_def Let_def HasPerson_def personNameOccupied_def split: if_splits)

section \<open>Runs of pairing attempts\<close>

record attempt =
  at_io :: store_in
  at_body :: "json_fault + pairing_request"
  at_peer :: string
  at_fp :: string
  at_binding :: string
  at_now :: instant

definition attempt_pairing :: "gw_config \<Rightarrow> attempt \<Rightarrow> gateway \<Rightarrow> gateway \<times> (cmdError + string) option" where
  "attempt_pairing c a g = runPairing c (at_io a) (at_body a) (at_peer a) (at_fp a) (at_binding a) (at_now a) g"

fun pairing_run :: "gw_config \<Rightarrow> attempt list \<Rightarrow> gateway \<Rightarrow> gateway \<times> (cmdError + string) option list" where
  "pairing_run c [] g = (g, [])"
| "pairing_run c (a # as) g =
    (case attempt_pairing c a g of (g', r) \<Rightarrow> (case pairing_run c as g' of (g'', rs) \<Rightarrow> (g'', r # rs)))"

definition answers_left :: "gw_state \<Rightarrow> nat" where
  "answers_left st = (case gs_PairingPending st of None \<Rightarrow> 0 | Some pp \<Rightarrow> nat (PairingWindowMissLimit - 1 - pp_Misses pp))"

definition wrong_pins :: "(cmdError + string) option list \<Rightarrow> nat" where
  "wrong_pins rs = length (filter (\<lambda>r. r = Some (Inl errPairingPinInvalid)) rs)"

definition admits :: "(cmdError + string) option \<Rightarrow> bool" where
  "admits r = (case r of Some (Inr _) \<Rightarrow> True | _ \<Rightarrow> False)"

definition admitted :: "(cmdError + string) option list \<Rightarrow> nat" where
  "admitted rs = length (filter admits rs)"

definition window_open_in :: "gw_state \<Rightarrow> nat" where
  "window_open_in st = (if gs_PairingPending st = None then 0 else 1)"

lemma attempt_counts:
  assumes "attempt_pairing c a g = (g', r)"
  shows "answers_left (st_of g') + (if r = Some (Inl errPairingPinInvalid) then 1 else 0) \<le> answers_left (st_of g) \<and>
    window_open_in (st_of g') + (if admits r then 1 else 0) \<le> window_open_in (st_of g)"
proof -
  have d: "errPairingWindowBurned \<noteq> errPairingPinInvalid" by (simp add: pairing_errors)
  from runPairing_outcome [OF assms [unfolded attempt_pairing_def]] show ?thesis
    by (cases rule: pairing_outcome.cases)
      (auto simp: answers_left_def window_open_in_def admits_def d split: option.splits sum.splits)
qed

text \<open>
  C13. A pairing window cannot be searched. However many attempts are made at a window, from whatever addresses and
  with whatever bodies, the gateway answers "wrong PIN" at most nine times (less the misses already on the
  window) before the window is gone, and at most one attempt of the whole run is admitted; with no window open
  none is.
\<close>

theorem pairing_guesses_bounded:
  assumes "pairing_run c as g = (g', rs)"
  shows "wrong_pins rs \<le> answers_left (st_of g) \<and> admitted rs \<le> window_open_in (st_of g)"
  using assms
proof (induction as arbitrary: g rs)
  case (Cons a as)
  obtain g1 r where a: "attempt_pairing c a g = (g1, r)" by force
  with Cons.prems obtain rs' where rs: "pairing_run c as g1 = (g', rs')" "rs = r # rs'" by (auto split: prod.splits)
  with Cons.IH [OF rs(1)] attempt_counts [OF a] show ?case
    by (auto simp: wrong_pins_def admitted_def split: if_splits)
qed (simp add: wrong_pins_def admitted_def)



section \<open>Every success is on record\<close>

definition paired_line :: "json_fault + pairing_request \<Rightarrow> string \<Rightarrow> event" where
  "paired_line body name = mk_event EventAdminOp ''pairing'' name ''admin.pair:ok''
     [(''fingerprint'', fp_of (case body of Inr rq \<Rightarrow> pq_Pubkey rq | Inl _ \<Rightarrow> ''''))]"

definition claimed_line :: "string \<Rightarrow> event" where
  "claimed_line name = mk_event EventAdminOp ''bootstrap'' ''admin.claim'' ''bootstrap:ok'' [(''person'', name)]"

definition enrolled_line :: "string \<Rightarrow> string \<Rightarrow> event" where
  "enrolled_line actor machine = mk_event EventEnrolVerified actor machine ''enrolled'' [(''machine'', machine)]"

lemma grade_done: "grade_pin st rq presented binding now = (d, PairDone name keyFP) \<Longrightarrow> keyFP = fp_of (pq_Pubkey rq)"
  by (auto simp: grade_pin_def admit_paired_def fp_of_def split: option.splits if_splits sum.splits prod.splits)

lemma miss_not_done: "countPairingMiss st binding now \<noteq> (d, PairDone name keyFP)"
  by (auto simp: countPairingMiss_def split: option.splits prod.splits)

lemma answer_done:
  assumes "gw_txn c i (\<lambda>st. Inr (f st)) g = (g1, r :: (unit, pair_verdict) txn)" "answer_pairing c g1 r addr fp now = (g', Some (Inr name))"
  obtains d keyFP where "f (st_of g) = (d, PairDone name keyFP)"
    "audit_of g' = audit_of (append_all g [mk_event EventAdminOp ''pairing'' name ''admin.pair:ok'' [(''fingerprint'', keyFP)]])"
proof -
  from assms(2) obtain keyFP where r: "r = TxDone (PairDone name keyFP)"
    and g': "g' = logAdminOp g1 ''pairing'' ''admin.pair'' name ''ok'' [(''fingerprint'', keyFP)]"
    by (auto simp: answer_pairing_def Let_def split: txn.splits pair_verdict.splits if_splits)
  from assms(1) r obtain d where "f (st_of g) = (d, PairDone name keyFP)" by (cases rule: gw_txn_cases) auto
  moreover have "audit_of g' = audit_of (append_all g [mk_event EventAdminOp ''pairing'' name ''admin.pair:ok'' [(''fingerprint'', keyFP)]])"
    using audit_of_appendEvent [OF audit_of_txn [OF assms(1)]] by (simp add: g' logAdminOp_def)
  ultimately show thesis by (rule that)
qed

lemma runPairing_line:
  assumes "runPairing c i body peer fp binding now g = (g', Some (Inr name))"
  shows "audit_of g' = audit_of (append_all g [paired_line body name])"
proof -
  have pr: "audit_of (appendEvent (g\<lparr>gw_pairRate := l\<rparr>) e) = audit_of (appendEvent g e)" for l e
    by (rule audit_of_appendEvent) simp
  from assms show ?thesis
    by (auto simp: runPairing_def Let_def decodeStrict_def miss_not_done pr paired_line_def
        split: sum.splits json_fault.splits if_splits option.splits prod.splits elim!: answer_done dest: grade_done)
qed

interpretation pairing: audited_role "runPairing c i body peer fp binding now" "''pairing''" "\<lambda>_ name. [paired_line body name]"
  for c i body peer fp binding now
  by unfold_locales (auto dest: runPairing_line simp: paired_line_def mk_event_def intro!: exI [of _ "[_]"])


section \<open>The bootstrap claim works once\<close>

lemma claim_cases:
  assumes "claim_bootstrap st rq presented now = (d, v)"
  obtains (refused) err where "d = st" "v = Inl err"
  | (claimed) bp name where "\<not> HasAnyAdmin st" "gs_BootstrapPending st = Some bp" "now < bp_Expires bp" "bp_SecretHash bp = presented"
      "v = Inr name" "d = st\<lparr>gs_People := gs_People st @ [new_admin name (fp_of (bq_Pubkey rq)) (bq_Pubkey rq) now], gs_BootstrapPending := None\<rparr>"
  using assms
  by (auto simp: claim_bootstrap_def fp_of_def Let_def split: if_splits option.splits sum.splits intro: refused claimed)

text \<open>A run of the claim ends before the transaction, panics, or answers the transaction's verdict.\<close>

lemma runBootstrap_cases:
  assumes "runBootstrap c i body now g = (g', r)"
  obtains (other) "\<forall>name. r \<noteq> Some (Inr name)" "st_of g' = st_of g"
  | (claimed) rq bp name where "body = Inr rq" "r = Some (Inr name)" "\<not> HasAnyAdmin (st_of g)"
      "gs_BootstrapPending (st_of g) = Some bp" "now < bp_Expires bp"
      "HashEnrolSecret (gw_enrolHMAC g) (bytes_of (bq_Bootstrap rq)) = Some (bp_SecretHash bp)"
      "gs_People (st_of g') = gs_People (st_of g) @ [new_admin name (fp_of (bq_Pubkey rq)) (bq_Pubkey rq) now]"
      "gs_BootstrapPending (st_of g') = None" "audit_of g' = audit_of (append_all g [claimed_line name])"
  | (refused) err where "r = Some (Inl err)" "gs_People (st_of g') = gs_People (st_of g)"
      "gs_BootstrapPending (st_of g') = gs_BootstrapPending (st_of g)"
proof (cases "\<exists>rq presented g1 v. body = Inr rq \<and> HashEnrolSecret (gw_enrolHMAC g) (bytes_of (bq_Bootstrap rq)) = Some presented \<and>
    gw_txn c i (\<lambda>st. Inr (claim_bootstrap st rq presented now) :: unit + gw_state \<times> (cmdError + string)) g = (g1, TxDone v) \<and>
    (\<forall>name. v = Inr name \<longrightarrow> r = Some (Inr name) \<and> g' = appendEvent g1 (claimed_line name)) \<and>
    (\<forall>err. v = Inl err \<longrightarrow> r = Some (Inl err) \<and> gw_store g' = gw_store g1)")
  case True
  then obtain rq presented g1 v where b: "body = Inr rq" "HashEnrolSecret (gw_enrolHMAC g) (bytes_of (bq_Bootstrap rq)) = Some presented"
    and t: "gw_txn c i (\<lambda>st. Inr (claim_bootstrap st rq presented now) :: unit + gw_state \<times> (cmdError + string)) g = (g1, TxDone v)"
    and v: "\<And>name. v = Inr name \<Longrightarrow> r = Some (Inr name) \<and> g' = appendEvent g1 (claimed_line name)"
      "\<And>err. v = Inl err \<Longrightarrow> r = Some (Inl err) \<and> gw_store g' = gw_store g1" by blast
  from t show thesis
  proof (cases rule: gw_txn_cases)
    case (committed d x s)
    then have "claim_bootstrap (st_of g) rq presented now = (d, v)" by simp
    then show thesis
    proof (cases rule: claim_cases)
      case (refused err)
      with v(2) [OF refused(2)] committed show thesis by (intro that(3) [of err]) auto
    next
      case (claimed bp name)
      from v(1) [OF claimed(5)] have g': "r = Some (Inr name)" "g' = appendEvent g1 (claimed_line name)" by auto
      then have "audit_of g' = audit_of (append_all g [claimed_line name])"
        using audit_of_appendEvent [OF audit_of_txn [OF t]] by simp
      with claimed committed b g' show thesis by (intro that(2) [of rq name bp]) auto
    qed
  qed simp_all
next
  case False
  with assms have "(\<forall>name. r \<noteq> Some (Inr name)) \<and> st_of g' = st_of g"
    by (auto simp: runBootstrap_def claimed_line_def split: sum.splits if_splits option.splits prod.splits txn.splits elim: gw_txn_cases)
  with that(1) show thesis by blast
qed

text \<open>
  C19. The bootstrap token makes one administrator. A claim succeeds only while there is no administrator, with a pending,
  unexpired token whose HMAC is the stored one; it adds exactly that administrator with the presented key and burns
  the token, after which no claim with any token, on any state that still has an administrator, succeeds; a claim that
  does not succeed changes neither the people nor the token.
\<close>

theorem bootstrap_once:
  assumes "runBootstrap c i body now g = (g', r)"
  shows "(\<forall>name. r = Some (Inr name) \<longrightarrow> (\<exists>rq bp. body = Inr rq \<and> \<not> HasAnyAdmin (st_of g) \<and>
      gs_BootstrapPending (st_of g) = Some bp \<and> now < bp_Expires bp \<and>
      HashEnrolSecret (gw_enrolHMAC g) (bytes_of (bq_Bootstrap rq)) = Some (bp_SecretHash bp) \<and>
      gs_People (st_of g') = gs_People (st_of g) @ [new_admin name (fp_of (bq_Pubkey rq)) (bq_Pubkey rq) now] \<and>
      gs_BootstrapPending (st_of g') = None \<and> HasAnyAdmin (st_of g'))) \<and>
    ((\<forall>name. r \<noteq> Some (Inr name)) \<longrightarrow> gs_People (st_of g') = gs_People (st_of g) \<and>
      gs_BootstrapPending (st_of g') = gs_BootstrapPending (st_of g)) \<and>
    (HasAnyAdmin (st_of g) \<longrightarrow> (\<forall>name. r \<noteq> Some (Inr name)))"
  using assms
proof (cases rule: runBootstrap_cases)
  case (claimed rq bp name)
  then have "HasAnyAdmin (st_of g')" by (simp add: HasAnyAdmin_def new_admin_def)
  with claimed show ?thesis by auto
qed auto

interpretation bootstrap: audited_role "runBootstrap c i body now" "''bootstrap''" "\<lambda>_ name. [claimed_line name]"
  for c i body now
proof
  fix g g' name assume "runBootstrap c i body now g = (g', Some (Inr name))"
  then have "audit_of g' = audit_of (append_all g [claimed_line name])" by (cases rule: runBootstrap_cases) auto
  then show "\<exists>es. audit_of g' = audit_of (append_all g es) \<and> filter (\<lambda>e. ev_Actor e = ''bootstrap'') es = [claimed_line name]"
    by (intro exI [of _ "[claimed_line name]"]) (simp add: claimed_line_def mk_event_def)
qed simp


section \<open>An enrolment secret works once\<close>

lemma enrol_cases:
  assumes "runEnrolFromPending st actor rq presented now = (d, m, v)"
  obtains (refused) err where "d = st" "v = Some err"
  | (enrolled) pe where "v = None" "pe \<in> set (gs_PendingEnrolments st)" "pd_SecretHash pe = presented" "now < pd_Expires pe"
      "m = pd_Name pe" "nameRe m" "m \<notin> set reservedPersonNames" "\<forall>x \<in> set (gs_Machines st). mc_ID x \<noteq> m \<and> mc_Name x \<noteq> m"
      "d = st\<lparr>gs_Machines := gs_Machines st @ [enrolled_machine m (eq_MachineKey rq) (eq_OSUser rq)],
        gs_PendingEnrolments := removePendingByHash (gs_PendingEnrolments st) presented\<rparr>"
proof (cases "FindPendingEnrolmentBySecretHash st presented")
  case None
  with assms refused show thesis by (auto simp: runEnrolFromPending_def split: if_splits)
next
  case (Some pe)
  then have pe: "pe \<in> set (gs_PendingEnrolments st)" "pd_SecretHash pe = presented"
    by (auto simp: FindPendingEnrolmentBySecretHash_def find_Some_iff)
  show thesis
  proof (cases v)
    case None
    with assms Some pe show thesis
      by (intro enrolled [of pe])
        (auto simp: runEnrolFromPending_def validEnrolMachineName_def ValidateName_exact list_ex_iff Let_def split: if_splits)
  next
    case (Some err)
    with assms \<open>FindPendingEnrolmentBySecretHash st presented = Some pe\<close> refused show thesis
      by (auto simp: runEnrolFromPending_def Let_def split: if_splits)
  qed
qed

lemma runEnrol_success:
  assumes "runEnrol c i actor body now g = (g', Some (Inr m))"
  obtains rq presented g1 where "body = Inr rq"
    "HashEnrolSecret (gw_enrolHMAC g) (bytes_of (eq_Secret rq)) = Some presented"
    "gw_txn c i (\<lambda>st. Inr (runEnrolFromPending st actor rq presented now) :: unit + gw_state \<times> string \<times> cmdError option) g
       = (g1, TxDone (m, None))"
    "g' = appendEvent (fst (applyRevocations g1 now)) (enrolled_line actor m)"
  using assms
  by (auto simp: runEnrol_def enrolled_line_def Let_def split: sum.splits if_splits option.splits prod.splits txn.splits)

lemma runEnrol_enrolled:
  assumes "runEnrol c i actor body now g = (g', Some (Inr m))"
  obtains rq pe where "body = Inr rq" "pe \<in> set (gs_PendingEnrolments (st_of g))" "now < pd_Expires pe" "m = pd_Name pe" "nameRe m"
    "HashEnrolSecret (gw_enrolHMAC g) (bytes_of (eq_Secret rq)) = Some (pd_SecretHash pe)"
    "\<forall>x \<in> set (gs_Machines (st_of g)). mc_ID x \<noteq> m \<and> mc_Name x \<noteq> m"
    "gs_Machines (st_of g') = map applySpecDefaults (gs_Machines (st_of g) @ [enrolled_machine m (eq_MachineKey rq) (eq_OSUser rq)])"
    "gs_PendingEnrolments (st_of g') = removePendingByHash (gs_PendingEnrolments (st_of g)) (pd_SecretHash pe)"
  using assms
proof (cases rule: runEnrol_success)
  case (1 rq presented g1)
  from 1(3) show thesis
  proof (cases rule: gw_txn_cases)
    case (committed d x s)
    then have "runEnrolFromPending (st_of g) actor rq presented now = (d, m, None)" by simp
    then show thesis
    proof (cases rule: enrol_cases)
      case (enrolled pe)
      with 1 committed show thesis by (intro that [of rq pe]) auto
    qed simp
  qed simp_all
qed

lemma removed_hash:
  "distinct (map pd_SecretHash es) \<Longrightarrow> set (removePendingByHash es h) = {e \<in> set es. pd_SecretHash e \<noteq> h}"
  by (induction es) (auto simp: image_iff)


interpretation enrol: audited_role "runEnrol c i (''SHA256:'' @ fp) body now" "''SHA256:'' @ fp" "\<lambda>_ m. [enrolled_line (''SHA256:'' @ fp) m]"
  for c i fp body now
proof
  let ?a = "''SHA256:'' @ fp"
  fix g g' m assume "runEnrol c i ?a body now g = (g', Some (Inr m))"
  then show "\<exists>es. audit_of g' = audit_of (append_all g es) \<and> filter (\<lambda>e. ev_Actor e = ?a) es = [enrolled_line ?a m]"
  proof (cases rule: runEnrol_success)
    case (1 rq presented g1)
    obtain s revs where dr: "DrainRevocations (gw_store g1) = (s, revs)" by force
    from revoke_all_audit [of "g1\<lparr>gw_store := s\<rparr>" now revs] obtain es where es:
      "audit_of (fst (applyRevocations g1 now)) = audit_of (append_all (g1\<lparr>gw_store := s\<rparr>) es)" "\<forall>e \<in> set es. ev_Actor e = ''gateway'' \<and> adminOpOf e = ''''"
      by (auto simp: applyRevocations_def dr)
    have "audit_of (append_all (g1\<lparr>gw_store := s\<rparr>) es) = audit_of (append_all g es)"
      by (rule audit_of_append_all) (simp add: audit_of_txn [OF 1(3)])
    with es(1) have "audit_of g' = audit_of (append_all g (es @ [enrolled_line ?a m]))"
      using audit_of_appendEvent [of "fst (applyRevocations g1 now)" "append_all g es"] by (simp add: 1(4) append_all_append)
    moreover have "filter (\<lambda>e. ev_Actor e = ?a) (es @ [enrolled_line ?a m]) = [enrolled_line ?a m]"
      using es(2) by (auto simp: filter_empty_conv enrolled_line_def mk_event_def)
    ultimately show ?thesis by blast
  qed
qed simp

text \<open>
  C21. No role answers "ok" off the record. A pairing, a bootstrap claim or an enrolment that is answered with success was
  started while the journal was being written, and the journal now holds, among the lines added since, exactly the
  role's own line: the person paired with the key, the administrator claimed, or the machine enrolled.
\<close>

theorem one_shot_roles_on_record:
  "(runAuditedRole g ''pairing'' (runPairing c i body peer fp binding now) = (g', Some (Inr name)) \<longrightarrow>
      \<not> au_failing (gw_audit g) \<and> (\<exists>new. gw_journal g' = gw_journal g @ new \<and>
        filter (\<lambda>e. ev_Actor e = ''pairing'') new = [stamped g (paired_line body name)])) \<and>
   (runAuditedRole g ''bootstrap'' (runBootstrap c i token now) = (g', Some (Inr name)) \<longrightarrow>
      \<not> au_failing (gw_audit g) \<and> (\<exists>new. gw_journal g' = gw_journal g @ new \<and>
        filter (\<lambda>e. ev_Actor e = ''bootstrap'') new = [stamped g (claimed_line name)])) \<and>
   (runAuditedRole g (''SHA256:'' @ f) (runEnrol c i (''SHA256:'' @ f) code now) = (g', Some (Inr name)) \<longrightarrow>
      \<not> au_failing (gw_audit g) \<and> (\<exists>new. gw_journal g' = gw_journal g @ new \<and>
        filter (\<lambda>e. ev_Actor e = ''SHA256:'' @ f) new = [stamped g (enrolled_line (''SHA256:'' @ f) name)]))"
  using pairing.success_on_record [of g c i body peer fp binding now g' name]
    bootstrap.success_on_record [of g c i token now g' name] enrol.success_on_record [of g f c i code now g' name]
  by auto


section \<open>The roles on a small gateway\<close>

definition demo_window :: gw_state where
  "demo_window = NewState\<lparr>gs_PairingPending := Some \<lparr>pp_SecretHash = demo_hash ''12'', pp_Expires = 100, pp_Misses = 0\<rparr>\<rparr>"

definition demo_pair_request :: pairing_request where
  "demo_pair_request = \<lparr>pq_Proto = 1, pq_Pin = ''12'', pq_Pubkey = demo_pub, pq_Name = ''''\<rparr>"

lemma demo_allowed: "Allow (gw_pairRate (demo_gateway st)) ''a'' ''f'' 1 = (gw_pairRate (demo_gateway st), allow_plain)"
  by (simp add: demo_gateway_def Allow_def stateOf_def allow_plain_def)

lemma demo_pairing:
  "\<exists>g'. runPairing demo_cfg demo_sin (Inr demo_pair_request) ''a'' ''f'' '''' 1 ((demo_gateway demo_window)\<lparr>gw_audit := h\<rparr>) = (g', Some (Inr ''admin''))"
proof -
  let ?g = "(demo_gateway demo_window)\<lparr>gw_audit := h\<rparr>" and ?d = "NewState\<lparr>gs_People := [new_admin ''admin'' (fp_of demo_pub) demo_pub 1]\<rparr>"
  let ?f = "\<lambda>st. Inr (grade_pin st demo_pair_request (demo_hash ''12'') '''' 1) :: unit + gw_state \<times> pair_verdict"
  have w: "window_refusal '''' 1 (gs_PairingPending demo_window) = None"
    by (simp add: demo_window_def window_refusal_def pairingBindingStale_def)
  have "?f (st_of ?g) = Inr (?d, PairDone ''admin'' (fp_of demo_pub))"
    using w by (simp add: grade_pin_def admit_paired_def demo_pair_request_def demo_fp demo_key_ok)
      (simp add: demo_window_def NewState_def key_registered_def pairingPersonName_def personNameOccupied_def)
  moreover have "final_draft demo_window ?d = ?d" by (rule demo_final) (simp_all add: NewState_def)
  moreover have "checkFreshDoorDeadlines demo_window ?d (si_now demo_sin)" by (rule no_doors_fresh) (simp add: NewState_def)
  ultimately obtain s where "gw_txn demo_cfg demo_sin ?f ?g = (?g\<lparr>gw_store := s\<rparr>, TxDone (PairDone ''admin'' (fp_of demo_pub)))"
    using gw_txn_runs [of ?g ?f ?d "PairDone ''admin'' (fp_of demo_pub)" demo_sin demo_cfg] demo_admin_ok by auto
  then show ?thesis
    using w demo_hash(1) [of "''12''"]
    by (simp add: runPairing_def demo_allowed decodeStrict_def checkProto_def demo_pair_request_def validPin_def is_digit_def
        less_eq_char_def answer_pairing_def allow_plain_def)
qed


definition demo_attempt :: attempt where
  "demo_attempt = \<lparr>at_io = demo_sin, at_body = Inr demo_pair_request, at_peer = ''a'', at_fp = ''f'', at_binding = '''', at_now = 1\<rparr>"

theorem pairing_guesses_bounded_witness:
  "\<exists>g'. pairing_run demo_cfg [demo_attempt] (demo_gateway demo_window) = (g', [Some (Inr ''admin'')]) \<and>
     wrong_pins [Some (Inr ''admin'')] \<le> 9 \<and> admitted [Some (Inr ''admin'')] \<le> 1"
proof -
  obtain g' where "pairing_run demo_cfg [demo_attempt] (demo_gateway demo_window) = (g', [Some (Inr ''admin'')])"
    using demo_pairing [of "gw_audit (demo_gateway demo_window)"] by (auto simp: attempt_pairing_def demo_attempt_def)
  with pairing_guesses_bounded [OF this] show ?thesis
    by (auto simp: answers_left_def window_open_in_def demo_window_def PairingWindowMissLimit_def)
qed

theorem one_shot_roles_on_record_witness:
  "\<exists>g' new. runAuditedRole (demo_gateway demo_window) ''pairing'' (runPairing demo_cfg demo_sin (Inr demo_pair_request) ''a'' ''f'' '''' 1)
      = (g', Some (Inr ''admin'')) \<and> gw_journal g' = new \<and>
     filter (\<lambda>e. ev_Actor e = ''pairing'') new = [stamped (demo_gateway demo_window) (paired_line (Inr demo_pair_request) ''admin'')]"
proof -
  let ?g = "demo_gateway demo_window" and ?run = "runPairing demo_cfg demo_sin (Inr demo_pair_request) ''a'' ''f'' '''' 1"
  let ?h = "fst (watchActor (gw_audit ?g) ''pairing'')"
  obtain g' where r: "?run (?g\<lparr>gw_audit := ?h\<rparr>) = (g', Some (Inr ''admin''))" using demo_pairing by blast
  from runPairing_line [OF r]
  have "gw_audit g' = gw_audit (appendEvent (?g\<lparr>gw_audit := ?h\<rparr>) (paired_line (Inr demo_pair_request) ''admin''))"
    by (simp add: audit_of_def)
  then have "au_watched (gw_audit g') = au_watched ?h" by (simp add: watched_appendEvent writes_def demo_gateway_def)
  then have "\<not> lostForActor (gw_audit g') ''pairing'' > snd (watchActor (gw_audit ?g) ''pairing'')"
    by (simp add: lostForActor_def watched_count_def watchActor_def Let_def)
  moreover have ok: "auditRefusal ?g = None" by (simp add: auditRefusal_def audit_snapshot_def demo_gateway_def)
  ultimately have run: "runAuditedRole ?g ''pairing'' ?run = (g', Some (Inr ''admin''))"
    using r by (cases "watchActor (gw_audit ?g) ''pairing''") (simp add: runAuditedRole_def ok)
  with one_shot_roles_on_record [of ?g demo_cfg demo_sin "Inr demo_pair_request" "''a''" "''f''" "''''" 1 g' "''admin''"]
  show ?thesis by (auto simp: demo_gateway_def)
qed

definition demo_claimable :: gw_state where
  "demo_claimable = NewState\<lparr>gs_BootstrapPending := Some \<lparr>bp_SecretHash = demo_hash ''tok'', bp_PublicKey = '''', bp_Expires = 100\<rparr>\<rparr>"

theorem bootstrap_once_witness:
  "\<exists>g'. runBootstrap demo_cfg demo_sin (Inr \<lparr>bq_Proto = 1, bq_Bootstrap = ''tok'', bq_Pubkey = demo_pub\<rparr>) 1 (demo_gateway demo_claimable)
      = (g', Some (Inr ''admin'')) \<and> HasAnyAdmin (st_of g') \<and> gs_BootstrapPending (st_of g') = None"
proof -
  let ?g = "demo_gateway demo_claimable" and ?d = "NewState\<lparr>gs_People := [new_admin ''admin'' (fp_of demo_pub) demo_pub 1]\<rparr>"
  let ?q = "\<lparr>bq_Proto = 1, bq_Bootstrap = ''tok'', bq_Pubkey = demo_pub\<rparr>"
  let ?f = "\<lambda>st. Inr (claim_bootstrap st ?q (demo_hash ''tok'') 1) :: unit + gw_state \<times> (cmdError + string)"
  have "?f (st_of ?g) = Inr (?d, Inr ''admin'')"
    by (simp add: claim_bootstrap_def demo_fp demo_claimable_def NewState_def HasAnyAdmin_def firstAdminName_def Let_def)
  moreover have "final_draft demo_claimable ?d = ?d" by (rule demo_final) (simp_all add: NewState_def)
  moreover have "checkFreshDoorDeadlines demo_claimable ?d (si_now demo_sin)" by (rule no_doors_fresh) (simp add: NewState_def)
  ultimately obtain s where "gw_txn demo_cfg demo_sin ?f ?g = (?g\<lparr>gw_store := s\<rparr>, TxDone (Inr ''admin''))"
    using gw_txn_runs [of ?g ?f ?d "Inr ''admin''" demo_sin demo_cfg] demo_admin_ok by auto
  moreover have "demo_pub \<noteq> ''''" by (simp add: demo_pub_def)
  ultimately have "\<exists>g'. runBootstrap demo_cfg demo_sin (Inr ?q) 1 ?g = (g', Some (Inr ''admin''))"
    using demo_hash(1) [of "''tok''"] by (simp add: runBootstrap_def demo_key_ok)
  then obtain g' where "runBootstrap demo_cfg demo_sin (Inr ?q) 1 ?g = (g', Some (Inr ''admin''))" by blast
  with bootstrap_once [OF this] show ?thesis by auto
qed

definition demo_invited :: gw_state where
  "demo_invited = NewState\<lparr>gs_PendingEnrolments := [\<lparr>pd_Name = ''m1'', pd_OSUser = '''', pd_SecretHash = demo_hash ''sec'',
     pd_PublicKey = demo_pub, pd_Expires = 100\<rparr>]\<rparr>"


end
