(* ===== verification/Access.thy ===== *)
theory Access
  imports Access_Commands Onboarding_Safety
begin

text \<open>
  The gateway as a step relation over all that changes its store, its engine or its clock, and the theorem that the
  engine follows the state through every run.
\<close>

section \<open>The steps of the gateway\<close>

lemma request_synced:
  assumes "synced now g" "0 \<le> now"
  shows "synced now (fst (run_request c i person now rq g))"
proof (cases "request_command rq \<in> set reading_commands")
  case True
  then show ?thesis using assms by (simp add: reading_run)
next
  case False
  with neutral_commands [OF assms(1)] set_user_synced [OF assms(1)] pairing_commands [OF assms(1)] sessions_kill_synced [OF assms(1)]
    people_remove_synced [OF assms(1)] machines_remove_synced [OF assms(1)] grant_synced [OF assms] revoke_synced [OF assms(1)]
    set_caps_synced [OF assms] extend_synced [OF assms] rename_synced [OF assms]
  show ?thesis by (cases rq) (simp_all add: reading_commands_def)
qed

lemma run_admin_synced:
  assumes "synced (gw_now g) g" "0 \<le> gw_now g"
  shows "synced (gw_now g) (fst (run_admin c i person rq g))"
proof -
  obtain g' r where a: "run_admin c i person rq g = (g', r)" by force
  then show ?thesis
  proof (cases rule: run_admin_cases)
    case (ran h w)
    with request_synced [of "gw_now g" "g\<lparr>gw_audit := h\<rparr>"] assms show ?thesis by (simp add: a)
  qed (use assms a in simp_all)
qed

lemma cut_synced: "synced now (cutRemovedKeys g) = synced now g"
proof -
  have "synced now (foldl cutKeyConn g cs) = synced now g" for cs
    by (induction cs arbitrary: g) (auto simp: cutKeyConn_def split: prod.splits)
  then show ?thesis by (simp add: cutRemovedKeys_def)
qed

lemma neutral_roles:
  "countPairingMiss st b now = (d, x1) \<Longrightarrow> neutral st d"
  "grade_pin st rq h b now = (d, x1) \<Longrightarrow> neutral st d"
  "claim_bootstrap st rb h now = (d, x2) \<Longrightarrow> neutral st d"
  "runEnrolFromPending st a re h now = (d, x3) \<Longrightarrow> neutral st d"
  by (auto simp: countPairingMiss_def count_miss_def grade_pin_def admit_paired_def claim_bootstrap_def runEnrolFromPending_def Let_def
      split: option.splits prod.splits if_splits sum.splits intro!: neutralI)

lemma synced_bill [simp]: "synced now (bill_address c g addr fp t) = synced now g"
proof -
  have "synced now (foldl (rate_exceeded c) g evs) = synced now g" for evs g
    by (induction evs arbitrary: g) (auto simp: rate_exceeded_def split: rate_event.split)
  then show ?thesis by (simp add: bill_address_def split: prod.split)
qed

lemma pairing_synced: "synced now g \<Longrightarrow> synced now (fst (runPairing c i body peer fp binding t g))"
proof -
  have ans: "synced now (fst (answer_pairing c g' r addr fp t)) = synced now g'" for g' r addr
    by (auto simp: answer_pairing_def burnPairingWindowEvent_def Let_def split: txn.split pair_verdict.split)
  assume "synced now g"
  then show ?thesis
    by (auto simp: runPairing_def Let_def ans elim!: txn_neutral' dest: neutral_roles split: sum.split option.split prod.split)
qed

lemma bootstrap_synced: "synced now g \<Longrightarrow> synced now (fst (runBootstrap c i body t g))"
  by (auto simp: runBootstrap_def elim!: txn_neutral' dest: neutral_roles split: sum.split option.split prod.split txn.split)

lemma enrol_synced:
  assumes "synced now g"
  shows "synced now (fst (runEnrol c i actor body now g))"
proof -
  have drained: "synced now (fst (applyRevocations g1 now))" if "gw_txn c i (\<lambda>st. Inr (runEnrolFromPending st actor req h now)) g = (g1, r)" for req h g1 and r :: "(unit, string \<times> cmdError option) txn"
  proof -
    have "synced now g1" using that assms by (auto elim!: txn_neutral' dest: neutral_roles)
    then show ?thesis using in_step_drain [of now g1] by (metis synced_in_step prod.collapse)
  qed
  have "synced now g1" if "gw_txn c i (\<lambda>st. Inr (runEnrolFromPending st actor req h now)) g = (g1, r)" for req h g1 and r :: "(unit, string \<times> cmdError option) txn"
    using that assms by (auto elim!: txn_neutral' dest: neutral_roles)
  with drained assms show ?thesis by (auto simp: runEnrol_def Let_def split: sum.split option.split prod.split txn.split)
qed

lemma audited_synced:
  assumes "synced now g" "\<And>h. synced now (fst (run (g\<lparr>gw_audit := h\<rparr>)))"
  shows "synced now (fst (runAuditedRole g actor run))"
  using assms(1) assms(2) [of "fst (watchActor (gw_audit g) actor)"]
  by (auto simp: runAuditedRole_def split: option.split prod.splits sum.split)

text \<open>
  What can happen to the gateway: a command, after which the connections of removed keys are cut; the three one-shot
  roles; time; the sessions people open and end and the sweep of expired ones; and anything that touches neither the
  store nor the engine nor the clock.
\<close>

inductive gateway_step :: "gw_config \<Rightarrow> gateway \<Rightarrow> gateway \<Rightarrow> bool" for c where
  command: "gateway_step c g (cutRemovedKeys (fst (run_admin c i person rq g)))"
| pairing: "gateway_step c g (fst (servePairing c i dec1 x peer fp binding g))"
| bootstrap: "gateway_step c g (fst (serveBootstrap c i dec2 x g))"
| enrol: "gateway_step c g (fst (serveEnrol c i actor dec3 x g))"
| clock: "gw_now g \<le> t \<Longrightarrow> gateway_step c g (g\<lparr>gw_now := t\<rparr>)"
| opened: "gateway_step c g (g\<lparr>gw_aclE := fst (OpenSession v (gw_aclE g) p m (gw_now g) cb)\<rparr>)"
| closed: "gateway_step c g (g\<lparr>gw_aclE := fst (Close (gw_aclE g) j (gw_now g))\<rparr>)"
| swept: "gateway_step c g (g\<lparr>gw_aclE := fst (SweepExpired (gw_aclE g) (gw_now g))\<rparr>)"
| other: "gw_store g' = gw_store g \<Longrightarrow> gw_aclE g' = gw_aclE g \<Longrightarrow> gw_now g' = gw_now g \<Longrightarrow> gateway_step c g g'"

definition started :: "acl_view \<Rightarrow> limits \<Rightarrow> gateway \<Rightarrow> bool" where
  "started v lims g \<longleftrightarrow> wf_state (st_of g) \<and> so_revocations (gw_store g) = [] \<and> 0 \<le> gw_now g \<and>
     (\<exists>e dropped. NewEngine (Some v) lims = Inr e \<and> load_grants e (gw_now g) (gs_Grants (st_of g)) = Inr (gw_aclE g, dropped))"

definition access_inv :: "gateway \<Rightarrow> bool" where
  "access_inv g \<longleftrightarrow> synced (gw_now g) g \<and> 0 \<le> gw_now g"

lemma load_grants_held:
  assumes "load_grants e now grs = Inr (e', dropped)" "distinct (map pair_of grs)"
  shows "held e' x = (case in_force now (map_of (map (\<lambda>gr. (pair_of gr, (gr_Until gr, gr_Caps gr))) grs)) x of
    None \<Rightarrow> held e x | Some v \<Rightarrow> Some v)"
  using assms
proof (induction grs arbitrary: e dropped)
  case (Cons gr grs)
  let ?T = "map_of (map (\<lambda>gr. (pair_of gr, (gr_Until gr, gr_Caps gr))) grs)"
  have none: "?T (pair_of gr) = None" using Cons.prems(2) by (auto simp: map_of_eq_None_iff image_iff)
  show ?case
  proof (cases "live_until now (gr_Until gr)")
    case True
    let ?g = "utc_grant (gr_Person gr) (gr_Machine gr) (gr_Until gr) (gr_Caps gr)"
    obtain e1 where e1: "AddGrant e ?g now = (e1, None)" "load_grants e1 now grs = Inr (e', dropped)"
      using Cons.prems(1) True by (auto split: prod.splits option.splits)
    have "held e1 = (held e)(pair_of gr \<mapsto> (gr_Until gr, gr_Caps gr))"
      using e1(1) by (auto simp: AddGrant_def held_put utc_terms split: option.splits)
    with Cons.IH [OF e1(2)] Cons.prems(2) none True show ?thesis by (auto simp: in_force_def split: option.splits)
  next
    case False
    then obtain dr where "load_grants e now grs = Inr (e', dr)" using Cons.prems(1) by (auto simp: map_sum_Inr)
    from Cons.IH [OF this] Cons.prems(2) none False show ?thesis by (auto simp: in_force_def split: option.splits)
  qed
qed (simp add: in_force_def)

lemma started_inv: "started v lims g \<Longrightarrow> access_inv g"
proof -
  assume s: "started v lims g"
  then obtain e dropped where e: "NewEngine (Some v) lims = Inr e" "load_grants e (gw_now g) (gs_Grants (st_of g)) = Inr (gw_aclE g, dropped)"
    by (auto simp: started_def)
  have sound: "sound_state (st_of g)" using s by (auto simp: started_def intro: wf_state_sound)
  have "held e x = None" for x using e(1) by (auto simp: NewEngine_def held_def split: if_splits)
  then have h: "held (gw_aclE g) x = in_force (gw_now g) (granted (st_of g)) x" for x
    using load_grants_held [OF e(2), of x] sound by (auto simp: granted_def sound_state_def split: option.splits)
  have "in_force (gw_now g) (held (gw_aclE g)) = in_force (gw_now g) (granted (st_of g))"
    using in_force_later [of "gw_now g" "gw_now g" "granted (st_of g)"] by (simp add: h [THEN ext])
  with s sound show ?thesis by (simp add: access_inv_def synced_def started_def)
qed

lemma later_synced: "synced now g \<Longrightarrow> now \<le> t \<Longrightarrow> synced t (g\<lparr>gw_now := t\<rparr>)"
  using in_force_later [of now t "held (gw_aclE g)"] in_force_later [of now t "granted (st_of g)"] by (simp add: synced_def)

lemma serve_synced:
  assumes "synced (gw_now g) g"
  shows "synced (gw_now g) (fst (servePairing c i dec1 x peer fp binding g))"
    "synced (gw_now g) (fst (serveBootstrap c i dec2 x g))" "synced (gw_now g) (fst (serveEnrol c i actor dec3 x g))"
proof -
  have "synced (gw_now g) (fst (runAuditedRole g ''pairing'' (runPairing c i b peer fp binding (gw_now g))))" for b
    by (rule audited_synced [OF assms]) (simp add: pairing_synced assms)
  then show "synced (gw_now g) (fst (servePairing c i dec1 x peer fp binding g))"
    using assms by (simp add: servePairing_def case_prod_beta split: sum.split option.split)
  have "synced (gw_now g) (fst (runAuditedRole g ''bootstrap'' (runBootstrap c i b (gw_now g))))" for b
    by (rule audited_synced [OF assms]) (simp add: bootstrap_synced assms)
  then show "synced (gw_now g) (fst (serveBootstrap c i dec2 x g))"
    using assms by (simp add: serveBootstrap_def case_prod_beta split: sum.split option.split)
  have "synced (gw_now g) (fst (runAuditedRole g actor (runEnrol c i actor b (gw_now g))))" for b
    by (rule audited_synced [OF assms]) (simp add: enrol_synced assms)
  then show "synced (gw_now g) (fst (serveEnrol c i actor dec3 x g))"
    using assms by (simp add: serveEnrol_def case_prod_beta split: sum.split option.split)
qed

section \<open>The clock is nobody's to set\<close>

lemma now_ops:
  "gw_txn c i fn g = (g', r1) \<Longrightarrow> gw_now g' = gw_now g"
  "gw_revoke g p m now cause = (g', r2) \<Longrightarrow> gw_now g' = gw_now g"
  "gw_add_grant g p m u caps now = (g', r3) \<Longrightarrow> gw_now g' = gw_now g"
  "gw_kill g j now cause = (g', r4) \<Longrightarrow> gw_now g' = gw_now g"
  by (auto simp: gw_txn_def gw_revoke_def gw_add_grant_def gw_kill_def split: prod.splits)

lemma revoke_all_now: "gw_now (fst (revoke_all g now revs)) = gw_now g"
  by (induction revs arbitrary: g) (simp_all add: case_prod_beta)

lemma now_runs:
  "applyRevocations g now = (g', n) \<Longrightarrow> gw_now g' = gw_now g"
  "revoke_moved g name now mgs = (g', r) \<Longrightarrow> gw_now g' = gw_now g"
  "add_moved g name now mgs = (g', e) \<Longrightarrow> gw_now g' = gw_now g"
proof -
  show "applyRevocations g now = (g', n) \<Longrightarrow> gw_now g' = gw_now g"
    using revoke_all_now [of "g\<lparr>gw_store := fst (DrainRevocations (gw_store g))\<rparr>" now "snd (DrainRevocations (gw_store g))"]
    by (simp add: applyRevocations_def case_prod_beta)
  show "revoke_moved g name now mgs = (g', r) \<Longrightarrow> gw_now g' = gw_now g"
    by (induction mgs arbitrary: g g' r) (auto simp: now_ops split: prod.splits sum.splits)
  show "add_moved g name now mgs = (g', e) \<Longrightarrow> gw_now g' = gw_now g"
    by (induction mgs arbitrary: g g' e) (auto simp: now_ops split: prod.splits option.splits)
qed

lemma now_folds [simp]: "gw_now (kill_machine g m now) = gw_now g" "gw_now (cutRemovedKeys g) = gw_now g"
proof -
  have k: "gw_now (fst (gw_kill g j t cause)) = gw_now g" for g j t cause using now_ops(4) by (metis prod.collapse)
  have "gw_now (foldl (\<lambda>g s. fst (gw_kill g (s_id s) now DenyMachineUnverified)) g ss) = gw_now g" for ss
    by (induction ss arbitrary: g) (simp_all add: k)
  then show "gw_now (kill_machine g m now) = gw_now g" by (simp add: kill_machine_def)
  have "gw_now (foldl cutKeyConn g cs) = gw_now g" for cs
    by (induction cs arbitrary: g) (auto simp: cutKeyConn_def k split: prod.splits)
  then show "gw_now (cutRemovedKeys g) = gw_now g" by (simp add: cutRemovedKeys_def)
qed

lemma now_with_request: "(\<And>req. gw_now (fst (k req)) = gw_now g) \<Longrightarrow> gw_now (fst (with_request g body proto k)) = gw_now g"
  by (simp add: with_request_def split: sum.split option.split)

lemma now_people:
  "gw_now (fst (cmdPeopleAdd c i person t b1 g)) = gw_now g" "gw_now (fst (cmdPeopleRemove c i person t b2 g)) = gw_now g"
  "gw_now (fst (cmdPeopleRename c i person t b3 g)) = gw_now g" "gw_now (fst (cmdPeopleKeysAdd c i person t b4 g)) = gw_now g"
  "gw_now (fst (cmdPeopleKeysRemove c i person b4 g)) = gw_now g"
  unfolding cmdPeopleAdd_def cmdPeopleRemove_def cmdPeopleRename_def cmdPeopleKeysAdd_def cmdPeopleKeysRemove_def
  by (intro now_with_request; auto simp: Let_def dest!: now_ops now_runs split: option.split sum.split txn.split prod.split)+

lemma now_machines:
  "gw_now (fst (cmdMachinesRemove c i person t b1 g)) = gw_now g" "gw_now (fst (cmdMachinesRename c i person b2 g)) = gw_now g"
  "gw_now (fst (cmdMachinesSetUser c i person t b2 g)) = gw_now g" "gw_now (fst (cmdMachinesRekey c i person b2 g)) = gw_now g"
  "gw_now (fst (cmdMachinesEnrolCode c i dr person t b3 g)) = gw_now g"
  unfolding cmdMachinesRemove_def cmdMachinesRename_def cmdMachinesSetUser_def cmdMachinesRekey_def cmdMachinesEnrolCode_def
  by (intro now_with_request; auto simp: Let_def dest!: now_ops now_runs split: option.split txn.split prod.split rekey_verdict.split)+

lemma now_grants:
  "gw_now (fst (cmdGrantsGrant c i person t b1 g)) = gw_now g" "gw_now (fst (cmdGrantsRevoke c i person t b2 g)) = gw_now g"
  "gw_now (fst (cmdSessionsKill person t b3 g)) = gw_now g" "gw_now (fst (cmdGoalSet c i person t b4 g)) = gw_now g"
  unfolding cmdGrantsGrant_def cmdGrantsRevoke_def cmdSessionsKill_def cmdGoalSet_def
  by (intro now_with_request; auto simp: Let_def with_goal_pair_def dest!: now_ops split: option.split sum.split txn.split prod.split)+

lemma now_changes:
  "gw_now (fst (cmdGrantsSetCaps c i person t b1 g)) = gw_now g" "gw_now (fst (cmdGrantsExtend c i person t b2 g)) = gw_now g"
  unfolding cmdGrantsSetCaps_def cmdGrantsExtend_def
  by (intro now_with_request; auto dest!: now_ops split: option.split sum.split txn.split prod.split if_splits)+

lemma now_pairing:
  "gw_now (fst (as_answer f (cmdAdminPairingStart c i d person t b g))) = gw_now g"
  "gw_now (fst (as_answer h (cmdAdminPairingStop c i person b g))) = gw_now g"
  by (auto simp: cmdAdminPairingStart_def cmdAdminPairingStop_def as_answer_def Let_def
      dest!: now_ops split: option.split txn.split prod.split sum.split pin_result.split)

lemma run_admin_now: "gw_now (fst (run_admin c i person rq g)) = gw_now g"
proof -
  have run: "gw_now (fst (run_request c i person t rq g)) = gw_now g" for g t
  proof (cases "request_command rq \<in> set reading_commands")
    case False
    with now_people now_machines now_grants now_changes now_pairing show ?thesis by (cases rq) (simp_all add: reading_commands_def)
  qed (simp add: reading_run)
  obtain g' r where a: "run_admin c i person rq g = (g', r)" by force
  then show ?thesis by (cases rule: run_admin_cases) (simp_all add: a run)
qed

lemma now_roles:
  "gw_now (fst (runPairing c i body peer fp binding t g)) = gw_now g" "gw_now (fst (runBootstrap c i b2 t g)) = gw_now g"
  "gw_now (fst (runEnrol c i actor b3 t g)) = gw_now g"
proof -
  have "gw_now (foldl (rate_exceeded c) g evs) = gw_now g" for g evs
    by (induction evs arbitrary: g) (auto simp: rate_exceeded_def split: rate_event.split)
  then have "gw_now (fst (answer_pairing c g' r addr fp t)) = gw_now g'" for g' r addr
    by (auto simp: answer_pairing_def burnPairingWindowEvent_def bill_address_def Let_def split: txn.split pair_verdict.split prod.split)
  then show "gw_now (fst (runPairing c i body peer fp binding t g)) = gw_now g"
    by (auto simp: runPairing_def Let_def dest!: now_ops split: sum.split option.split prod.split)
  show "gw_now (fst (runBootstrap c i b2 t g)) = gw_now g"
    by (auto simp: runBootstrap_def dest!: now_ops split: sum.split option.split prod.split txn.split)
  have "gw_now (fst (applyRevocations g1 t)) = gw_now g1" for g1 using now_runs(1) by (metis prod.collapse)
  then show "gw_now (fst (runEnrol c i actor b3 t g)) = gw_now g"
    by (auto simp: runEnrol_def Let_def dest!: now_ops split: sum.split option.split prod.split txn.split)
qed

lemma now_serve:
  "gw_now (fst (servePairing c i dec1 x peer fp binding g)) = gw_now g" "gw_now (fst (serveBootstrap c i dec2 x g)) = gw_now g"
  "gw_now (fst (serveEnrol c i actor dec3 x g)) = gw_now g"
proof -
  have "gw_now (fst (runAuditedRole g a run)) = gw_now g" if "\<And>g. gw_now (fst (run g)) = gw_now g"
    for a and run :: "gateway \<Rightarrow> gateway \<times> (cmdError + string) option"
    using that [of "g\<lparr>gw_audit := fst (watchActor (gw_audit g) a)\<rparr>"]
    by (auto simp: runAuditedRole_def split: option.split prod.splits sum.split)
  note roles = this [OF now_roles(1)] this [OF now_roles(2)] this [OF now_roles(3)]
  show "gw_now (fst (servePairing c i dec1 x peer fp binding g)) = gw_now g" "gw_now (fst (serveBootstrap c i dec2 x g)) = gw_now g"
    "gw_now (fst (serveEnrol c i actor dec3 x g)) = gw_now g"
    by (simp_all add: servePairing_def serveBootstrap_def serveEnrol_def case_prod_beta roles split: sum.split option.split)
qed

section \<open>The engine follows the state\<close>

lemma session_calls_held:
  "held (fst (OpenSession v e p m now cb)) = held e" "held (fst (Close e j now)) = held e" "held (fst (SweepExpired e now)) = held e"
  by (rule held_cong; simp add: OpenSession_def Close_def SweepExpired_def Let_def case_prod_beta del: killLocked.simps)+

lemma synced_session_call: "held e = held (gw_aclE g) \<Longrightarrow> access_inv (g\<lparr>gw_aclE := e\<rparr>) = access_inv g"
  by (simp add: access_inv_def synced_def)

interpretation following: inv_system "started v lims" "gateway_step c" access_inv for v lims c
proof
  show "started v lims g \<Longrightarrow> access_inv g" for g by (rule started_inv)
next
  fix g g' assume inv: "access_inv g" and "gateway_step c g g'"
  then have now: "synced (gw_now g) g" "0 \<le> gw_now g" by (simp_all add: access_inv_def)
  from \<open>gateway_step c g g'\<close> show "access_inv g'"
  proof cases
    case (command i person rq)
    with run_admin_synced [OF now] now show ?thesis by (simp add: access_inv_def cut_synced run_admin_now)
  next
    case (pairing i dec1 x peer fp binding)
    with serve_synced(1) [OF now(1)] now show ?thesis by (simp add: access_inv_def now_serve)
  next
    case (bootstrap i dec2 x)
    with serve_synced(2) [OF now(1)] now show ?thesis by (simp add: access_inv_def now_serve)
  next
    case (enrol i actor dec3 x)
    with serve_synced(3) [OF now(1)] now show ?thesis by (simp add: access_inv_def now_serve)
  next
    case (clock t)
    with now later_synced [of "gw_now g" g t] show ?thesis by (simp add: access_inv_def)
  next
    case other
    with inv show ?thesis by (simp add: access_inv_def synced_def)
  qed (use inv in \<open>simp_all add: synced_session_call session_calls_held\<close>)
qed


definition demo_running :: gateway where
  "demo_running = (demo_gateway demo_granted)\<lparr>gw_aclE := (gw_aclE (demo_gateway demo_granted))\<lparr>e_grants :=
     [((''alice'', ''m1''), utc_grant ''alice'' ''m1'' None [''shell''])]\<rparr>\<rparr>"


end
