(* ===== verification/Spec2Isabelle.thy ===== *)
theory Spec2Isabelle
  imports Door Acl Auth Rate_Limiter Ssh_Payload Sftp_Proxy Journal State_Ops Pairing_Pin Access
begin

text \<open>
  A verification development of the iamtunnel gateway (Go, \<open>src/internal/\<close>).

  The program. The gateway is an SSH server between people and machines behind NAT. A person logs in with a key, the
  gateway finds whose key it is (\<open>gateway/auth\<close>), asks the access engine whether that person may enter that machine now
  (\<open>gateway/acl\<close>), has the machine open a door for a fresh key (\<open>gateway/core/door.go\<close>) and carries the session, judging
  commands and SFTP requests on the way (\<open>risk_*.go\<close>, \<open>sftp_session.go\<close>). Who exists, which machines there are and which
  grants were given is the state (\<open>gateway/state\<close>), changed only by transactions of the store. People get in by pairing or
  the bootstrap claim, machines by enrolment (\<open>pairing_role.go\<close>, \<open>bootstrap_role.go\<close>, \<open>enrol_role.go\<close>), and administrators
  change everything else by commands (\<open>admin_role.go\<close>). Whatever happens is written to a hash-chained journal
  (\<open>gateway/events\<close>), and nothing that has to be on record is done while the journal cannot be written
  (\<open>audit_health.go\<close>).

  How it is modelled. Structs are records with the source's field names behind a short prefix, Go maps are association
  lists (\<open>gomap\<close>), errors are values of a sum or an option, machine integers that can wrap are words, instants are
  nanoseconds as integers. Operations take the state and return it updated; callbacks, closed connections and messages
  to other goroutines are lists of effects in the order the code makes them. A critical section of a mutex is one step;
  goroutines are the interleaving of such steps. System calls are inputs: what a write, a rename or a read of the disk
  gave is an argument. Parameters stand for the code that is not in the repository: the JSON codec, the SSH library's
  handshake and key parser, address and RFC 3339 parsing.

  Theories, in the order of the imports:

  \<^item> \<open>Prelude\<close>, \<open>Encoding\<close>, \<open>Go_Text\<close>: maps, invariants of step systems (locale \<open>inv_system\<close>), SHA-256, HMAC, base64 and hex,
    and the parts of Go's \<open>strings\<close>, \<open>strconv\<close> and \<open>unicode/utf8\<close> the code uses.
  \<^item> \<open>Door\<close>: \<open>core/door.go\<close> and the reasons of \<open>proto/door_reasons.go\<close>. Reachable automata keep their fields consistent
    and emit only commands a machine accepts.
  \<^item> \<open>Acl\<close>: \<open>acl/acl.go\<close>. The counters equal the live sessions, a session opens exactly when the check allows it,
    revocation is immediate and lasting, a session ends once.
  \<^item> \<open>Username\<close>, \<open>Auth\<close>: the login grammar, key policy, resolution and the handshake. The identity comes from the key.
  \<^item> \<open>Rate_Limiter\<close>: \<open>auth/ratelimit.go\<close>. Thresholds trip once, a ban is firm, sweeps change no decision.
  \<^item> \<open>Ssh_Payload\<close>, \<open>Sftp_Wire\<close>: request payloads and the SFTP framer, with their round trips.
  \<^item> \<open>Risk\<close>, \<open>Sftp_Proxy\<close>: the judge, approvals, and the proxy that forwards SFTP. A risky command needs an approval that is
    spent once; no request that changes the machine is forwarded unjudged.
  \<^item> \<open>Journal\<close>: \<open>events/log.go\<close> and \<open>chain.go\<close>. Honest journals verify, a changed one does not end in the same hash.
  \<^item> \<open>State_Model\<close>, \<open>State_Validate\<close>, \<open>State_Store\<close>, \<open>State_Grants\<close>, \<open>State_Ops\<close>: the data, the rules (\<open>Validate\<close> accepts exactly the
    well-formed states), the store with commit and rollback, the reconciliation of grants, and the mutations.
  \<^item> \<open>Config_Names\<close>: the checks of \<open>config/parse.go\<close> that requests pass through, and how they agree with the state's rules.
  \<^item> \<open>Quiet_Log\<close>, \<open>Gateway_Audit\<close>: repeated logins are counted instead of written; the record of the whole gateway,
    \<open>appendEvent\<close>, the health of the journal, transactions and \<open>applyRevocations\<close>. The locale \<open>audited_role\<close> is the contract
    between a one-shot role and the watch of its lines.
  \<^item> \<open>Onboarding\<close>, \<open>Pairing_Pin\<close>, \<open>Onboarding_Safety\<close>: pairing, the bootstrap claim and enrolment; wrong PINs are bounded, each
    invitation works once, success is on record. \<open>Demo_Gateway\<close> holds the small gateway of the examples.
  \<^item> \<open>Admin\<close>, \<open>Admin_Safety\<close>, \<open>Admin_People\<close>: the commands of an administrator, the dispatcher and the connections cut when a
    key is removed. The locale \<open>audited_command\<close> is the contract between a command and the dispatcher: no command answers
    "ok" off the record. \<open>people_step\<close> is what the commands can do to people, and shows that an administrator remains.
  \<^item> \<open>Access_Terms\<close>, \<open>Access_Commands\<close>, \<open>Access\<close>: the composition. \<open>gateway_step\<close> is everything that changes the store, the engine
    or the clock of the gateway; through every run the engine holds in force exactly the grants of the state that have
    not expired (\<open>held\<close> and \<open>granted\<close> are the two abstraction functions), so sessions open only for what is granted.

  Bounds and fuel. No definition runs on fuel: the loops of the source are structural or have a measure (\<open>Migrate\<close> the
  distance to the target schema, which every step must shorten); the PIN generator, which the source loops until a
  draw is fair, runs over the list of draws it is given and says so when they run out. Go's \<open>int\<close> counters of sessions and misses are integers:
  they count entries of maps and lists that are in memory. Session numbers are 64-bit words and wrap as in the source.

  Not modelled. The rule table of \<open>risk/risk.go\<close> and the HTTP client of \<open>risk/external.go\<close> (arguments of the judge); the
  carrying of a session between channels (\<open>human_role.go\<close>, \<open>live_tail.go\<close>, \<open>record/\<close>), which is input and output; the network
  client of a machine (\<open>machine_conn.go\<close>, \<open>sshd_probe.go\<close>), whose protocol state is the door automaton; of the commands, the
  views, recordings, \<open>machines.verify\<close>, \<open>gateway.*\<close> and the \<open>risk.*\<close> settings; message texts; the command line, the user
  interface and the processes of client and machine (\<open>cmd/\<close>, \<open>internal/ui\<close>, \<open>client\<close>, \<open>server\<close>). The state keeps a deadline as an
  instant without its zone, so what the engine says about a deadline in local time is not seen through the commands.
\<close>

text \<open>The test vector of the standard: the digest of \<open>abc\<close>.\<close>

lemma sha256_abc:
  "hex_encode (sha256 (bytes_of ''abc'')) = ''ba7816bf8f01cfea414140de5dae2223b00361a396177a9cb410ff61f20015ad''"
  by code_simp

end
